(* ===== verification/KNS_Prelude.thy ===== *)
theory KNS_Prelude
  imports Main
begin

text \<open>
  Shared vocabulary of the development: Go's \<open>int64\<close> arithmetic with its wrap-around,
  \<open>time.Time\<close> and \<open>time.Duration\<close>, Go error values, panics, the pieces of
  \<open>strings\<close>, \<open>strconv\<close> and \<open>fmt\<close> that the controllers use, Go maps as
  association lists, and the call log every stateful component writes.

  Strings are byte strings. \<open>TrimSpace\<close> and \<open>ToLower\<close> are modelled on their ASCII
  range; Kubernetes names, label keys and provider types are ASCII.
\<close>

named_theorems go_arith \<open>wrap-around arithmetic that stays in range\<close>
named_theorems call_defs \<open>the external calls, unfolded to a world step and a log entry\<close>
named_theorems tspec_intros \<open>what an operation logs, by the shape of its code\<close>
named_theorems emits_intros \<open>which calls an operation can log\<close>

section \<open>int64\<close>

definition i64 :: "int \<Rightarrow> int" where
  "i64 x = (x + 2 ^ 63) mod 2 ^ 64 - 2 ^ 63"

definition in64 :: "int \<Rightarrow> bool" where
  "in64 x \<longleftrightarrow> - (2 ^ 63) \<le> x \<and> x < 2 ^ 63"

lemma i64_id [simp, go_arith]: "in64 x \<Longrightarrow> i64 x = x"
  by (simp add: i64_def in64_def)

lemma in64_i64 [simp]: "in64 (i64 x)"
proof -
  have "0 \<le> (x + 2 ^ 63) mod 2 ^ 64" and "(x + 2 ^ 63) mod 2 ^ 64 < (2::int) ^ 64"
    by simp_all
  then show ?thesis unfolding in64_def i64_def by simp
qed

lemma in64_between: "a \<le> x \<Longrightarrow> x \<le> b \<Longrightarrow> in64 a \<Longrightarrow> in64 b \<Longrightarrow> in64 x"
  by (auto simp: in64_def)

lemma i64_diff_nonneg [go_arith]:
  "0 \<le> b \<Longrightarrow> b \<le> a \<Longrightarrow> in64 a \<Longrightarrow> i64 (a - b) = a - b"
  by (simp add: in64_def)

definition add64 :: "int \<Rightarrow> int \<Rightarrow> int" where
  "add64 a b = i64 (a + b)"

definition sub64 :: "int \<Rightarrow> int \<Rightarrow> int" where
  "sub64 a b = i64 (a - b)"

definition mul64 :: "int \<Rightarrow> int \<Rightarrow> int" where
  "mul64 a b = i64 (a * b)"

text \<open>A running sum kept in \<open>int64\<close> is the true sum, reduced once.\<close>

lemma i64_cong: "a mod 2 ^ 64 = b mod 2 ^ 64 \<Longrightarrow> i64 a = i64 b"
  unfolding i64_def by (metis mod_add_cong)

lemma i64_mod: "i64 x mod 2 ^ 64 = x mod 2 ^ 64"
  unfolding i64_def by (metis add_diff_cancel_right' mod_diff_left_eq)

lemma i64_add_left [simp]: "i64 (i64 a + b) = i64 (a + b)"
  by (rule i64_cong) (metis i64_mod mod_add_left_eq)

lemma i64_add_right [simp]: "i64 (a + i64 b) = i64 (a + b)"
  by (metis add.commute i64_add_left)

lemma i64_diff_left [simp]: "i64 (i64 a - b) = i64 (a - b)"
  using i64_add_left [of a "- b"] by simp

lemma i64_diff_right [simp]: "i64 (a - i64 b) = i64 (a - b)"
  by (rule i64_cong) (metis i64_mod mod_diff_right_eq)

lemma add64_exact [go_arith]: "in64 (a + b) \<Longrightarrow> add64 a b = a + b"
  by (simp add: add64_def)

lemma sub64_exact [go_arith]: "0 \<le> b \<Longrightarrow> b \<le> a \<Longrightarrow> in64 a \<Longrightarrow> sub64 a b = a - b"
  by (simp add: sub64_def i64_diff_nonneg)

lemma mul64_exact [go_arith]: "in64 (a * b) \<Longrightarrow> mul64 a b = a * b"
  by (simp add: mul64_def)

section \<open>time.Time and time.Duration\<close>

text \<open>
  A \<open>time.Time\<close> is its nanosecond count from the Unix epoch; the zero time is January 1 of
  year 1. A duration is an \<open>int64\<close> number of nanoseconds, and \<open>Time.Sub\<close> (which
  \<open>time.Since\<close> and \<open>time.Until\<close> call) saturates at the ends of that range.
\<close>

type_synonym time = int
type_synonym duration = int

definition zeroTime :: time where
  "zeroTime = - 62135596800 * 10 ^ 9"

definition timeIsZero :: "time \<Rightarrow> bool" where
  "timeIsZero t \<longleftrightarrow> t = zeroTime"

definition timePtrIsZero :: "time option \<Rightarrow> bool" where
  "timePtrIsZero p = (case p of None \<Rightarrow> True | Some t \<Rightarrow> timeIsZero t)"

definition timeSub :: "time \<Rightarrow> time \<Rightarrow> duration" where
  "timeSub t u = max (- (2 ^ 63)) (min (2 ^ 63 - 1) (t - u))"

definition second :: duration where "second = 10 ^ 9"
definition millisecond :: duration where "millisecond = 10 ^ 6"
definition minute :: duration where "minute = 60 * second"

lemma duration_pos [simp]: "0 < second" "0 < millisecond" "0 < minute"
  by (simp_all add: second_def millisecond_def minute_def)

section \<open>Errors and panics\<close>

text \<open>
  A Go error is its message and its class as \<open>apierrors.IsNotFound\<close>,
  \<open>IsAlreadyExists\<close>, \<open>IsConflict\<close> and \<open>errors.Is(_, errVMNotFound)\<close> report it.
  Wrapping with \<open>%w\<close> keeps the class (these predicates look through wrapping); a fresh
  \<open>fmt.Errorf\<close> has none.
\<close>

datatype err_class = NotFound | AlreadyExists | Conflict | VMNotFound | NoClass

record goerr =
  err_msg :: string
  err_class :: err_class

definition errorf :: "string \<Rightarrow> goerr" where
  "errorf m = \<lparr>err_msg = m, err_class = NoClass\<rparr>"

definition wrapf :: "string \<Rightarrow> goerr \<Rightarrow> goerr" where
  "wrapf prefix e = e\<lparr>err_msg := prefix @ err_msg e\<rparr>"

abbreviation IsNotFound :: "goerr \<Rightarrow> bool" where
  "IsNotFound e \<equiv> err_class e = NotFound"

abbreviation IsAlreadyExists :: "goerr \<Rightarrow> bool" where
  "IsAlreadyExists e \<equiv> err_class e = AlreadyExists"

abbreviation IsConflict :: "goerr \<Rightarrow> bool" where
  "IsConflict e \<equiv> err_class e = Conflict"

lemma err_class_wrapf [simp]: "err_class (wrapf p e) = err_class e"
  by (simp add: wrapf_def)

lemma err_class_errorf [simp]: "err_class (errorf m) = NoClass"
  by (simp add: errorf_def)

definition ignoreNotFound :: "goerr \<Rightarrow> goerr option" where
  "ignoreNotFound e = (if IsNotFound e then None else Some e)"

datatype 'a outcome = Ret 'a | Panic string

section \<open>strings, strconv and fmt\<close>

definition isDigit :: "char \<Rightarrow> bool" where
  "isDigit c \<longleftrightarrow> 48 \<le> (of_char c :: nat) \<and> (of_char c :: nat) \<le> 57"

definition digitChar :: "nat \<Rightarrow> char" where
  "digitChar d = char_of (48 + d)"

lemma isDigit_digitChar [simp]: "d < 10 \<Longrightarrow> isDigit (digitChar d)"
  by (simp add: isDigit_def digitChar_def take_bit_eq_mod)

lemma of_char_digitChar [simp]: "d < 10 \<Longrightarrow> (of_char (digitChar d) :: nat) = 48 + d"
  by (simp add: digitChar_def take_bit_eq_mod)

fun decNat :: "nat \<Rightarrow> string" where
  "decNat n = (if n < 10 then [digitChar n] else decNat (n div 10) @ [digitChar (n mod 10)])"

declare decNat.simps [simp del]

fun decValue :: "nat \<Rightarrow> string \<Rightarrow> nat option" where
  "decValue acc [] = Some acc"
| "decValue acc (c # cs) =
     (if isDigit c then decValue (acc * 10 + (of_char c - 48)) cs else None)"

lemma decValue_append:
  "decValue acc (xs @ ys) = (case decValue acc xs of None \<Rightarrow> None | Some a \<Rightarrow> decValue a ys)"
  by (induction xs arbitrary: acc) auto

lemma decValue_decNat [simp]: "decValue 0 (decNat n) = Some n"
proof (induction n rule: decNat.induct)
  case (1 n)
  then show ?case
    by (cases "n < 10") (simp_all add: decNat.simps [of n] decValue_append)
qed

lemma decNat_nonempty [simp]: "decNat n \<noteq> []"
  by (subst decNat.simps) simp

lemma decNat_digits: "c \<in> set (decNat n) \<Longrightarrow> isDigit c"
proof (induction n rule: decNat.induct)
  case (1 n)
  then show ?case
    by (cases "n < 10") (auto simp: decNat.simps [of n])
qed

lemma decValue_zeros: "decValue 0 (replicate k (CHR ''0'') @ xs) = decValue 0 xs"
  by (induction k) (simp_all add: isDigit_def)

text \<open>\<open>%d\<close> and \<open>%06d\<close>.\<close>

definition fmtD :: "int \<Rightarrow> string" where
  "fmtD i = (if i < 0 then CHR ''-'' # decNat (nat (- i)) else decNat (nat i))"

definition padZeros :: "nat \<Rightarrow> string \<Rightarrow> string" where
  "padZeros w s = replicate (w - length s) (CHR ''0'') @ s"

definition fmt06d :: "int \<Rightarrow> string" where
  "fmt06d i = (if i < 0 then CHR ''-'' # padZeros 5 (decNat (nat (- i)))
     else padZeros 6 (decNat (nat i)))"

lemma decValue_fmt06d: "0 \<le> i \<Longrightarrow> decValue 0 (fmt06d i) = Some (nat i)"
  by (simp add: fmt06d_def padZeros_def decValue_zeros)

lemma fmt06d_inject: "0 \<le> i \<Longrightarrow> 0 \<le> j \<Longrightarrow> fmt06d i = fmt06d j \<Longrightarrow> i = j"
  by (metis decValue_fmt06d eq_nat_nat_iff option.inject)

text \<open>\<open>strconv.ParseInt(s, 10, 64)\<close>: \<open>None\<close> is a non-nil error.\<close>

definition parseInt :: "string \<Rightarrow> int option" where
  "parseInt s = (case s of [] \<Rightarrow> None
     | c # cs \<Rightarrow>
        (let body = (if c = CHR ''+'' \<or> c = CHR ''-'' then cs else s) in
         if body = [] then None
         else (case decValue 0 body of None \<Rightarrow> None
           | Some n \<Rightarrow>
               if c = CHR ''-'' then (if n \<le> 2 ^ 63 then Some (- int n) else None)
               else (if n < 2 ^ 63 then Some (int n) else None))))"

lemma parseInt_in64: "parseInt s = Some v \<Longrightarrow> in64 v"
proof -
  have *: "\<And>n::nat. n \<le> 2 ^ 63 \<Longrightarrow> in64 (- int n)"
    unfolding in64_def by (metis minus_less_iff neg_le_iff_le of_nat_0_le_iff of_nat_le_iff of_nat_numeral
      of_nat_power order_le_less_trans neg_less_0_iff_less zero_less_numeral zero_less_power)
  have **: "\<And>n::nat. n < 2 ^ 63 \<Longrightarrow> in64 (int n)"
    unfolding in64_def by (metis neg_le_0_iff_le of_nat_0_le_iff of_nat_less_iff of_nat_numeral of_nat_power
      order_trans zero_le_numeral zero_le_power)
  show "parseInt s = Some v \<Longrightarrow> in64 v"
    by (auto simp: parseInt_def Let_def * ** split: list.splits option.splits if_splits)
qed

definition isSpace :: "char \<Rightarrow> bool" where
  "isSpace c \<longleftrightarrow> (of_char c :: nat) \<in> {9, 10, 11, 12, 13, 32}"

definition trimSpace :: "string \<Rightarrow> string" where
  "trimSpace s = rev (dropWhile isSpace (rev (dropWhile isSpace s)))"

definition toLowerChar :: "char \<Rightarrow> char" where
  "toLowerChar c = (let n = (of_char c :: nat) in if 65 \<le> n \<and> n \<le> 90 then char_of (n + 32) else c)"

definition toLower :: "string \<Rightarrow> string" where
  "toLower s = map toLowerChar s"

fun joinStr :: "string \<Rightarrow> string list \<Rightarrow> string" where
  "joinStr sep [] = []"
| "joinStr sep [x] = x"
| "joinStr sep (x # xs) = x @ sep @ joinStr sep xs"

text \<open>\<open>%q\<close> on the names that the messages quote.\<close>

definition quoteStr :: "string \<Rightarrow> string" where
  "quoteStr s = CHR 0x22 # concat (map (\<lambda>c. if c = CHR 0x22 \<or> c = CHR 0x5C then [CHR 0x5C, c] else [c]) s)
     @ [CHR 0x22]"

section \<open>Go maps\<close>

text \<open>
  A \<open>map[string]string\<close> is an association list with distinct keys, in the order in which
  \<open>range\<close> happens to visit it; a nil map is the empty one.
\<close>

type_synonym gomap = "(string \<times> string) list"

fun mapPut :: "string \<Rightarrow> 'b \<Rightarrow> (string \<times> 'b) list \<Rightarrow> (string \<times> 'b) list" where
  "mapPut k v [] = [(k, v)]"
| "mapPut k v ((k', v') # m) = (if k = k' then (k, v) # m else (k', v') # mapPut k v m)"

fun mapPutAll :: "(string \<times> 'b) list \<Rightarrow> (string \<times> 'b) list \<Rightarrow> (string \<times> 'b) list" where
  "mapPutAll [] m = m"
| "mapPutAll ((k, v) # kvs) m = mapPutAll kvs (mapPut k v m)"

lemma map_of_mapPut [simp]: "map_of (mapPut k v m) = (map_of m)(k \<mapsto> v)"
  by (induction k v m rule: mapPut.induct) (auto simp: fun_eq_iff)

lemma keys_mapPut [simp]: "fst ` set (mapPut k v m) = insert k (fst ` set m)"
  by (induction k v m rule: mapPut.induct) auto

lemma distinct_mapPut [simp]: "distinct (map fst (mapPut k v m)) = distinct (map fst m)"
  by (induction k v m rule: mapPut.induct) auto

lemma distinct_mapPutAll [simp]: "distinct (map fst (mapPutAll kvs m)) = distinct (map fst m)"
  by (induction kvs m rule: mapPutAll.induct) auto

lemma map_of_mapPutAll:
  "distinct (map fst kvs) \<Longrightarrow> map_of (mapPutAll kvs m) = map_of m ++ map_of kvs"
proof (induction kvs m rule: mapPutAll.induct)
  case (2 k v kvs m)
  then have "map_of kvs k = None"
    by (simp add: map_of_eq_None_iff)
  with 2 show ?case
    by (auto simp: fun_eq_iff map_add_def split: option.splits)
qed simp

definition mapGet :: "string \<Rightarrow> gomap \<Rightarrow> string" where
  "mapGet k m = (case map_of m k of None \<Rightarrow> [] | Some v \<Rightarrow> v)"

section \<open>Lists\<close>

lemma find_Some_set: "find P xs = Some x \<Longrightarrow> x \<in> set xs \<and> P x"
  by (auto simp: find_Some_iff)

lemma find_append: "find P (xs @ ys) = (case find P xs of None \<Rightarrow> find P ys | Some x \<Rightarrow> Some x)"
  by (induction xs) auto

lemma sum_list_nonneg_map: "(\<And>x. x \<in> set xs \<Longrightarrow> (0::int) \<le> f x) \<Longrightarrow> 0 \<le> sum_list (map f xs)"
  by (induction xs) auto

end
