(* ===== verification/Api_Types.thy ===== *)
theory Api_Types
  imports KNS_Prelude
begin

text \<open>
  The data of the program: the four custom resources of \<open>api/v1alpha1\<close> with the status and
  spec structs as they are declared there, the provider interface's \<open>MachineSpec\<close> and
  \<open>Machine\<close>, and of the Kubernetes objects (\<open>ObjectMeta\<close>, \<open>Node\<close>, \<open>Pod\<close>,
  \<open>metav1.Condition\<close>) the fields that this repository reads or writes. A pointer is an
  \<open>option\<close>; an \<open>int64\<close> or \<open>int\<close> field is an \<open>int\<close>, and arithmetic on it is
  wrapped where the code computes.
\<close>

section \<open>Kubernetes metadata and conditions\<close>

record owner_ref =
  ow_kind :: string
  ow_name :: string
  ow_controller :: "bool option"

record objmeta =
  om_name :: string
  om_namespace :: string
  om_labels :: gomap
  om_annotations :: gomap
  om_finalizers :: "string list"
  om_deletion :: "time option"
  om_creation :: time
  om_generation :: int
  om_rv :: string
  om_owners :: "owner_ref list"

datatype cond_status = CTrue | CFalse | CUnknown

record condition =
  cond_type :: string
  cond_status :: cond_status
  cond_reason :: string
  cond_message :: string
  cond_generation :: int
  cond_transition :: time

type_synonym nskey = "string \<times> string"  \<comment> \<open>types.NamespacedName: namespace, name\<close>

definition metaKey :: "objmeta \<Rightarrow> nskey" where
  "metaKey m = (om_namespace m, om_name m)"

section \<open>NodeSmithClaim\<close>

record claim_requirements =
  rq_cpuCores :: int
  rq_memoryMiB :: int

record claim_spec =
  cs_poolRef :: string
  cs_requirements :: "claim_requirements option"
  cs_idempotencyKey :: string
  cs_terminationGracePeriod :: "duration option"

record claim_lease =
  ls_holder :: string
  ls_phase :: string
  ls_started :: time
  ls_lastHeartbeat :: time
  ls_timeoutSeconds :: int

record claim_status =
  st_conditions :: "condition list"
  st_providerID :: string
  st_nodeName :: string
  st_providerRef :: string
  st_launchAttempts :: int
  st_lease :: "claim_lease option"

record claim =
  cl_meta :: objmeta
  cl_spec :: claim_spec
  cl_status :: claim_status

definition conditionTypeLaunched :: string where "conditionTypeLaunched = ''Launched''"
definition conditionTypeRegistered :: string where "conditionTypeRegistered = ''Registered''"
definition conditionTypeInitialized :: string where "conditionTypeInitialized = ''Initialized''"
definition conditionTypeReady :: string where "conditionTypeReady = ''Ready''"
definition conditionTypeFailed :: string where "conditionTypeFailed = ''Failed''"
definition finalizerNodeSmithClaim :: string where
  "finalizerNodeSmithClaim = ''kubenodesmith.io/nodesmithclaim''"

lemmas condition_types = conditionTypeLaunched_def conditionTypeRegistered_def
  conditionTypeInitialized_def conditionTypeReady_def conditionTypeFailed_def

section \<open>NodeSmithPool\<close>

record pool_limits =
  lm_minNodes :: int
  lm_maxNodes :: int
  lm_cpuCores :: int
  lm_memoryMiB :: int

record scale_policy =
  sp_stabilizationWindow :: "duration option"

record pool_spec =
  ps_providerRef :: string
  ps_poolLabelKey :: string
  ps_limits :: pool_limits
  ps_templateLabels :: gomap
  ps_scaleUp :: "scale_policy option"
  ps_scaleDown :: "scale_policy option"

record pool_status =
  pst_conditions :: "condition list"
  pst_observedGeneration :: int
  pst_lastScaleActivity :: "time option"
  pst_nextClaimSequence :: int

record pool =
  pl_meta :: objmeta
  pl_spec :: pool_spec
  pl_status :: pool_status

section \<open>NodeSmithProvider\<close>

record vmid_range_spec =
  vr_lower :: int
  vr_upper :: int

record proxmox_nic =
  nic_name :: string
  nic_model :: string
  nic_bridge :: string
  nic_vlanTag :: int
  nic_macPrefix :: string

record proxmox_option =
  po_name :: string
  po_value :: string  \<comment> \<open>the raw bytes of the JSON value\<close>

record proxmox_spec =
  px_endpoint :: string
  px_nodeWhitelist :: "string list"
  px_vmIDRange :: "vmid_range_spec option"
  px_managedNodeTag :: string
  px_vmMemOverheadMiB :: int
  px_networkInterfaces :: "proxmox_nic list"
  px_vmOptions :: "proxmox_option list"

record secret_ref =
  sr_namespace :: string
  sr_name :: string

record provider_spec =
  pv_type :: string
  pv_credentialsSecretRef :: "secret_ref option"
  pv_proxmox :: "proxmox_spec option"
  pv_additionalSettings :: gomap  \<comment> \<open>the raw bytes per key\<close>

record provider_status =
  pvs_conditions :: "condition list"
  pvs_observedGeneration :: int

record provider_obj =
  po_meta :: objmeta
  po_spec :: provider_spec
  po_status :: provider_status

section \<open>NodeSmithControlPlane\<close>

record controlplane_status =
  cps_conditions :: "condition list"
  cps_observedGeneration :: int
  cps_lastSyncTime :: "time option"

record controlplane =
  cp_meta :: objmeta
  cp_pools :: "string list"
  cp_status :: controlplane_status

section \<open>The provider interface's data\<close>

record machine_spec =
  ms_machineName :: string
  ms_cpuCores :: int
  ms_memoryMiB :: int

record machine =
  mc_providerID :: string
  mc_kubeNodeName :: string

section \<open>Pods and nodes\<close>

text \<open>
  Of a \<open>corev1.ResourceList\<close> the code reads \<open>Cpu().MilliValue()\<close> and
  \<open>Memory().Value()\<close>, each behind a nil check.
\<close>

record resource_list =
  rl_cpuMilli :: "int option"
  rl_memBytes :: "int option"

record toleration =
  tol_key :: string
  tol_effect :: string

record pod_condition =
  pc_type :: string
  pc_status :: cond_status
  pc_reason :: string

datatype sel_operator = OpIn | OpNotIn | OpExists | OpDoesNotExist | OpGt | OpLt | OpOther string

record sel_requirement =
  se_key :: string
  se_operator :: sel_operator
  se_values :: "string list"

type_synonym sel_term = "sel_requirement list"  \<comment> \<open>MatchExpressions\<close>
type_synonym node_selector = "sel_term list"    \<comment> \<open>NodeSelectorTerms\<close>
type_synonym node_affinity = "node_selector option"
type_synonym affinity = "node_affinity option"

datatype pod_phase = PodPending | PodRunning | PodSucceeded | PodFailed | PodUnknown

record pod =
  pd_meta :: objmeta
  pd_nodeName :: string
  pd_requests :: "resource_list option list"  \<comment> \<open>per container; nil when absent\<close>
  pd_nodeSelector :: gomap
  pd_affinity :: "affinity option"
  pd_tolerations :: "toleration list"
  pd_phase :: pod_phase
  pd_conditions :: "pod_condition list"

record node_condition =
  nc_type :: string
  nc_status :: cond_status
  nc_transition :: time

record node =
  nd_meta :: objmeta
  nd_unschedulable :: bool
  nd_allocatable :: resource_list
  nd_capacity :: resource_list
  nd_conditions :: "node_condition list"

abbreviation nd_name :: "node \<Rightarrow> string" where
  "nd_name n \<equiv> om_name (nd_meta n)"

abbreviation cl_name :: "claim \<Rightarrow> string" where
  "cl_name c \<equiv> om_name (cl_meta c)"

abbreviation pl_name :: "pool \<Rightarrow> string" where
  "pl_name p \<equiv> om_name (pl_meta p)"

end
