(* ===== verification/Externals.thy ===== *)
theory Externals
  imports Api_Types
begin

text \<open>
  The boundary of the program. Everything the repository calls but does not contain is a field
  of the record \<open>env\<close>, over a type \<open>'w\<close> of worlds about which nothing is assumed: the
  controller-runtime client (prefix \<open>k\<close>), the typed clientset (prefix \<open>cs\<close>), the
  condition and finalizer helpers of apimachinery and controller-runtime (prefix \<open>lib\<close>),
  \<open>retry.RetryOnConflict\<close>, the clock, the uuid generator, building the clientset, and the process environment. An
  operation of the model runs in a state \<open>st\<close>: the world, the log of the external calls
  made so far with their answers, and the reconciler's cached lease holder id. Because the world
  answers every call as it likes, a theorem without a hypothesis on \<open>env\<close> holds under every
  API failure, delay and interleaving with other writers.

  \<open>env_ok\<close> collects the documented behaviour of the helper libraries that some theorems
  rely on.
\<close>

section \<open>The call log\<close>

datatype ext_call =
    EGetClaim nskey "goerr + claim"
  | EListClaims string "goerr + claim list"
  | EUpdateClaim claim "goerr + claim"
  | EStatusClaim claim "goerr + claim"
  | ECreateClaim claim "goerr option"
  | EDeleteClaim claim "goerr option"
  | EGetPool nskey "goerr + pool"
  | EListPools string "goerr + pool list"
  | EUpdatePool pool "goerr + pool"
  | EStatusPool pool "goerr + pool"
  | EGetProviderObj nskey "goerr + provider_obj"
  | EGetCP nskey "goerr + controlplane"
  | EListCPs string "goerr + controlplane list"
  | EStatusCP controlplane "goerr + controlplane"
  | EGetNode string "goerr + node"
  | EListNodes "goerr + node list"
  | EDeleteNode node "goerr option"
  | EPatchNode node node "goerr option"
  | ECsListNodes string string "goerr + node list"
  | ECsListPods string string "goerr + pod list"
  | ECsGetNode string "goerr + node"
  | ECsUpdateNode node "goerr + node"
  | EBuildProvider string provider_obj "goerr option"
  | EProvision machine_spec "goerr + machine"
  | EDeprovision machine "goerr option"
  | EListMachines string "goerr + machine list"
  | EHeartbeatStart nskey string duration
  | EHeartbeatStop
  | ERecord string string string string
  | EWait

text \<open>Calls that change nothing outside the reconciler.\<close>

fun isRead :: "ext_call \<Rightarrow> bool" where
  "isRead (EGetClaim _ _) = True"
| "isRead (EListClaims _ _) = True"
| "isRead (EGetPool _ _) = True"
| "isRead (EListPools _ _) = True"
| "isRead (EGetProviderObj _ _) = True"
| "isRead (EGetCP _ _) = True"
| "isRead (EListCPs _ _) = True"
| "isRead (EGetNode _ _) = True"
| "isRead (EListNodes _) = True"
| "isRead (ECsListNodes _ _ _) = True"
| "isRead (ECsListPods _ _ _) = True"
| "isRead (ECsGetNode _ _) = True"
| "isRead (EListMachines _ _) = True"
| "isRead EWait = True"
| "isRead _ = False"

record 'w st =
  world :: 'w
  trace :: "ext_call list"
  holderID :: string

section \<open>The provider interface\<close>

text \<open>\<open>provider.Provider\<close>: an instance is its three methods.\<close>

record 'w provider =
  pr_provision :: "machine_spec \<Rightarrow> 'w \<Rightarrow> (goerr + machine) \<times> 'w"
  pr_deprovision :: "machine \<Rightarrow> 'w \<Rightarrow> goerr option \<times> 'w"
  pr_list :: "string \<Rightarrow> 'w \<Rightarrow> (goerr + machine list) \<times> 'w"

text \<open>\<open>ProviderBuilder\<close> of \<open>internal/controller/types.go\<close>.\<close>

type_synonym 'w provider_builder = "provider_obj \<Rightarrow> 'w \<Rightarrow> (goerr + 'w provider) \<times> 'w"

section \<open>The environment\<close>

record 'w env =
  libFind :: "condition list \<Rightarrow> string \<Rightarrow> condition option"
  libSet :: "time \<Rightarrow> condition list \<Rightarrow> condition \<Rightarrow> condition list"
  libRemove :: "condition list \<Rightarrow> string \<Rightarrow> condition list"
  libContainsFinalizer :: "objmeta \<Rightarrow> string \<Rightarrow> bool"
  libAddFinalizer :: "objmeta \<Rightarrow> string \<Rightarrow> objmeta"
  libRemoveFinalizer :: "objmeta \<Rightarrow> string \<Rightarrow> objmeta"
  libSetControllerRef :: "pool \<Rightarrow> claim \<Rightarrow> goerr + claim"
  libEqClaim :: "claim_status \<Rightarrow> claim_status \<Rightarrow> bool"
  libEqPool :: "pool_status \<Rightarrow> pool_status \<Rightarrow> bool"
  libEqCP :: "controlplane_status \<Rightarrow> controlplane_status \<Rightarrow> bool"
  retryClaim :: "('w st \<Rightarrow> (goerr + claim_status) \<times> 'w st) \<Rightarrow> 'w st \<Rightarrow> (goerr + claim_status) \<times> 'w st"
  retryPool :: "('w st \<Rightarrow> (goerr + pool_status) \<times> 'w st) \<Rightarrow> 'w st \<Rightarrow> (goerr + pool_status) \<times> 'w st"
  retryCP :: "('w st \<Rightarrow> (goerr + controlplane_status) \<times> 'w st) \<Rightarrow> 'w st
    \<Rightarrow> (goerr + controlplane_status) \<times> 'w st"
  clock :: "'w \<Rightarrow> time"
  newUUID :: "'w \<Rightarrow> string"
  newClientset :: "goerr option"
  osPodName :: string
  osHostname :: "string option"
  kGetClaim :: "nskey \<Rightarrow> 'w \<Rightarrow> (goerr + claim) \<times> 'w"
  kListClaims :: "string \<Rightarrow> 'w \<Rightarrow> (goerr + claim list) \<times> 'w"
  kUpdateClaim :: "claim \<Rightarrow> 'w \<Rightarrow> (goerr + claim) \<times> 'w"
  kStatusClaim :: "claim \<Rightarrow> 'w \<Rightarrow> (goerr + claim) \<times> 'w"
  kCreateClaim :: "claim \<Rightarrow> 'w \<Rightarrow> goerr option \<times> 'w"
  kDeleteClaim :: "claim \<Rightarrow> 'w \<Rightarrow> goerr option \<times> 'w"
  kGetPool :: "nskey \<Rightarrow> 'w \<Rightarrow> (goerr + pool) \<times> 'w"
  kListPools :: "string \<Rightarrow> 'w \<Rightarrow> (goerr + pool list) \<times> 'w"
  kUpdatePool :: "pool \<Rightarrow> 'w \<Rightarrow> (goerr + pool) \<times> 'w"
  kStatusPool :: "pool \<Rightarrow> 'w \<Rightarrow> (goerr + pool) \<times> 'w"
  kGetProviderObj :: "nskey \<Rightarrow> 'w \<Rightarrow> (goerr + provider_obj) \<times> 'w"
  kGetCP :: "nskey \<Rightarrow> 'w \<Rightarrow> (goerr + controlplane) \<times> 'w"
  kListCPs :: "string \<Rightarrow> 'w \<Rightarrow> (goerr + controlplane list) \<times> 'w"
  kStatusCP :: "controlplane \<Rightarrow> 'w \<Rightarrow> (goerr + controlplane) \<times> 'w"
  kGetNode :: "string \<Rightarrow> 'w \<Rightarrow> (goerr + node) \<times> 'w"
  kListNodes :: "'w \<Rightarrow> (goerr + node list) \<times> 'w"
  kDeleteNode :: "node \<Rightarrow> 'w \<Rightarrow> goerr option \<times> 'w"
  kPatchNode :: "node \<Rightarrow> node \<Rightarrow> 'w \<Rightarrow> goerr option \<times> 'w"
  csListNodes :: "string \<Rightarrow> string \<Rightarrow> 'w \<Rightarrow> (goerr + node list) \<times> 'w"
  csListPods :: "string \<Rightarrow> string \<Rightarrow> 'w \<Rightarrow> (goerr + pod list) \<times> 'w"
  csGetNode :: "string \<Rightarrow> 'w \<Rightarrow> (goerr + node) \<times> 'w"
  csUpdateNode :: "node \<Rightarrow> 'w \<Rightarrow> (goerr + node) \<times> 'w"
  providerFactories :: "(string \<times> 'w provider_builder) list"

section \<open>Calls\<close>

definition call :: "('w \<Rightarrow> 'r \<times> 'w) \<Rightarrow> ('r \<Rightarrow> ext_call) \<Rightarrow> 'w st \<Rightarrow> 'r \<times> 'w st" where
  "call f ev s = (case f (world s) of
     (r, w) \<Rightarrow> (r, s\<lparr>world := w, trace := trace s @ [ev r]\<rparr>))"

text \<open>A call whose effect is outside the modelled state: it only leaves its log entry.\<close>

abbreviation logOnly :: "ext_call \<Rightarrow> 'w st \<Rightarrow> unit \<times> 'w st" where
  "logOnly e \<equiv> call (\<lambda>w. ((), w)) (\<lambda>_. e)"

abbreviation now :: "'w env \<Rightarrow> 'w st \<Rightarrow> time" where
  "now E s \<equiv> clock E (world s)"

abbreviation "getClaim E k \<equiv> call (kGetClaim E k) (EGetClaim k)"
abbreviation "listClaims E ns \<equiv> call (kListClaims E ns) (EListClaims ns)"
abbreviation "updateClaim E c \<equiv> call (kUpdateClaim E c) (EUpdateClaim c)"
abbreviation "statusClaim E c \<equiv> call (kStatusClaim E c) (EStatusClaim c)"
abbreviation "createClaim E c \<equiv> call (kCreateClaim E c) (ECreateClaim c)"
abbreviation "deleteClaim E c \<equiv> call (kDeleteClaim E c) (EDeleteClaim c)"
abbreviation "getPool E k \<equiv> call (kGetPool E k) (EGetPool k)"
abbreviation "listPools E ns \<equiv> call (kListPools E ns) (EListPools ns)"
abbreviation "updatePool E p \<equiv> call (kUpdatePool E p) (EUpdatePool p)"
abbreviation "statusPool E p \<equiv> call (kStatusPool E p) (EStatusPool p)"
abbreviation "getProviderObj E k \<equiv> call (kGetProviderObj E k) (EGetProviderObj k)"
abbreviation "getCP E k \<equiv> call (kGetCP E k) (EGetCP k)"
abbreviation "listCPs E ns \<equiv> call (kListCPs E ns) (EListCPs ns)"
abbreviation "statusCP E c \<equiv> call (kStatusCP E c) (EStatusCP c)"
abbreviation "getNode E n \<equiv> call (kGetNode E n) (EGetNode n)"
abbreviation "listNodes E \<equiv> call (kListNodes E) EListNodes"
abbreviation "deleteNode E n \<equiv> call (kDeleteNode E n) (EDeleteNode n)"
abbreviation "patchNode E n b \<equiv> call (kPatchNode E n b) (EPatchNode n b)"
abbreviation "csListNodesC E k v \<equiv> call (csListNodes E k v) (ECsListNodes k v)"
abbreviation "csListPodsC E k v \<equiv> call (csListPods E k v) (ECsListPods k v)"
abbreviation "csGetNodeC E n \<equiv> call (csGetNode E n) (ECsGetNode n)"
abbreviation "csUpdateNodeC E n \<equiv> call (csUpdateNode E n) (ECsUpdateNode n)"
abbreviation "provisionMachine p ms \<equiv> call (pr_provision p ms) (EProvision ms)"
abbreviation "deprovisionMachine p m \<equiv> call (pr_deprovision p m) (EDeprovision m)"
abbreviation "recordEvent obj ty rs msg \<equiv> logOnly (ERecord obj ty rs msg)"

abbreviation eventNormal :: string where "eventNormal \<equiv> ''Normal''"
abbreviation eventWarning :: string where "eventWarning \<equiv> ''Warning''"

section \<open>Reasoning about the log\<close>

text \<open>
  \<open>tspec s x Q\<close>: the run that started in \<open>s\<close> and ended in the pair \<open>x\<close> of
  result and state extended the log, by entries that satisfy \<open>Q\<close> together with the result.
\<close>

definition tspec :: "'w st \<Rightarrow> 'a \<times> 'w st \<Rightarrow> ('a \<Rightarrow> ext_call list \<Rightarrow> bool) \<Rightarrow> bool" where
  "tspec s x Q \<longleftrightarrow> (\<exists>evs. trace (snd x) = trace s @ evs \<and> Q (fst x) evs)"

lemma tspec_ret [tspec_intros]: "Q r [] \<Longrightarrow> tspec s (r, s) Q"
  by (simp add: tspec_def)

lemma tspec_call: "(\<And>r. Q r [ev r]) \<Longrightarrow> tspec s (call f ev s) Q"
  by (simp add: tspec_def call_def split: prod.split)

lemma call_trace: "call f ev s = (r, s') \<Longrightarrow> trace s' = trace s @ [ev r]"
  by (auto simp: call_def split: prod.splits)

lemma tspec_bind:
  assumes "tspec s x R"
    and "\<And>r s1 evs. x = (r, s1) \<Longrightarrow> R r evs \<Longrightarrow> tspec s1 (g r s1) (\<lambda>r' evs'. Q r' (evs @ evs'))"
  shows "tspec s (case x of (r, s1) \<Rightarrow> g r s1) Q"
proof -
  obtain r s1 where x: "x = (r, s1)" by (cases x)
  with assms(1) obtain evs where evs: "trace s1 = trace s @ evs" "R r evs"
    by (auto simp: tspec_def)
  with assms(2) [OF x] have "tspec s1 (g r s1) (\<lambda>r' evs'. Q r' (evs @ evs'))" by blast
  with evs x show ?thesis by (auto simp: tspec_def)
qed

lemma tspec_bind_call [tspec_intros]:
  assumes "\<And>r s1. call f ev s = (r, s1) \<Longrightarrow> tspec s1 (g r s1) (\<lambda>r' evs'. Q r' (ev r # evs'))"
  shows "tspec s (case call f ev s of (r, s1) \<Rightarrow> g r s1) Q"
proof (rule tspec_bind [where R = "\<lambda>r evs. evs = [ev r]"])
  show "tspec s (call f ev s) (\<lambda>r evs. evs = [ev r])" by (rule tspec_call) simp
qed (use assms in auto)

lemma tspec_sum [tspec_intros]:
  "(\<And>e. x = Inl e \<Longrightarrow> tspec s (f e) Q) \<Longrightarrow> (\<And>v. x = Inr v \<Longrightarrow> tspec s (g v) Q) \<Longrightarrow>
   tspec s (case x of Inl e \<Rightarrow> f e | Inr v \<Rightarrow> g v) Q"
  by (cases x) simp_all

lemma tspec_option [tspec_intros]:
  "(x = None \<Longrightarrow> tspec s f Q) \<Longrightarrow> (\<And>v. x = Some v \<Longrightarrow> tspec s (g v) Q) \<Longrightarrow>
   tspec s (case x of None \<Rightarrow> f | Some v \<Rightarrow> g v) Q"
  by (cases x) simp_all

lemma tspec_if [tspec_intros]:
  "(b \<Longrightarrow> tspec s f Q) \<Longrightarrow> (\<not> b \<Longrightarrow> tspec s g Q) \<Longrightarrow> tspec s (if b then f else g) Q"
  by simp

lemma tspec_let [tspec_intros]: "tspec s (f v) Q \<Longrightarrow> tspec s (let x = v in f x) Q"
  by simp

lemma tspec_pair: "(\<And>a b. x = (a, b) \<Longrightarrow> tspec s (f a b) Q) \<Longrightarrow> tspec s (case x of (a, b) \<Rightarrow> f a b) Q"
  by (cases x) simp

lemma tspec_mono: "tspec s x Q \<Longrightarrow> (\<And>r evs. Q r evs \<Longrightarrow> Q' r evs) \<Longrightarrow> tspec s x Q'"
  by (auto simp: tspec_def)

lemma tspec_conj: "tspec s x P \<Longrightarrow> tspec s x Q \<Longrightarrow> tspec s x (\<lambda>r evs. P r evs \<and> Q r evs)"
  by (auto simp: tspec_def)

lemma tspecD: "tspec s (r, s') Q \<Longrightarrow> \<exists>evs. trace s' = trace s @ evs \<and> Q r evs"
  by (simp add: tspec_def)

text \<open>\<open>emits P s x\<close>: every call logged by the run satisfies \<open>P\<close>.\<close>

definition emits :: "(ext_call \<Rightarrow> bool) \<Rightarrow> 'w st \<Rightarrow> 'a \<times> 'w st \<Rightarrow> bool" where
  "emits P s x = tspec s x (\<lambda>_ evs. list_all P evs)"

lemma emits_ret [emits_intros]: "emits P s (r, s)"
  by (simp add: emits_def tspec_ret)

lemma emits_call [emits_intros]: "(\<And>r. P (ev r)) \<Longrightarrow> emits P s (call f ev s)"
  by (simp add: emits_def tspec_call)

lemma emits_bind [emits_intros]:
  assumes "emits P s x" and "\<And>r s1. x = (r, s1) \<Longrightarrow> emits P s1 (g r s1)"
  shows "emits P s (case x of (r, s1) \<Rightarrow> g r s1)"
  unfolding emits_def
proof (rule tspec_bind [where R = "\<lambda>_ evs. list_all P evs"])
  show "tspec s x (\<lambda>_. list_all P)" using assms(1) by (simp add: emits_def)
next
  fix r s1 evs
  assume "x = (r, s1)" and "list_all P evs"
  with assms(2) have "tspec s1 (g r s1) (\<lambda>_ evs'. list_all P evs')"
    by (auto simp: emits_def)
  then show "tspec s1 (g r s1) (\<lambda>r' evs'. list_all P (evs @ evs'))"
    by (rule tspec_mono) (use \<open>list_all P evs\<close> in simp)
qed

lemma emits_tspec: "emits P s x \<Longrightarrow> (\<And>r evs. list_all P evs \<Longrightarrow> Q r evs) \<Longrightarrow> tspec s x Q"
  unfolding emits_def by (erule tspec_mono)

lemma emits_mono: "emits P s x \<Longrightarrow> (\<And>e. P e \<Longrightarrow> P' e) \<Longrightarrow> emits P' s x"
  unfolding emits_def by (erule tspec_mono) (auto simp: list_all_iff)

lemma emitsD: "emits P s (r, s') \<Longrightarrow> \<exists>evs. trace s' = trace s @ evs \<and> (\<forall>e \<in> set evs. P e)"
  by (auto simp: emits_def tspec_def list_all_iff)

lemma emits_trans: "emits P s (r, s1) \<Longrightarrow> emits P s1 x \<Longrightarrow> emits P s x"
  by (auto simp: emits_def tspec_def list_all_iff)

lemma emits_sum [emits_intros]:
  "(\<And>e. x = Inl e \<Longrightarrow> emits P s (f e)) \<Longrightarrow> (\<And>v. x = Inr v \<Longrightarrow> emits P s (g v)) \<Longrightarrow>
   emits P s (case x of Inl e \<Rightarrow> f e | Inr v \<Rightarrow> g v)"
  by (cases x) auto

lemma emits_option [emits_intros]:
  "(x = None \<Longrightarrow> emits P s f) \<Longrightarrow> (\<And>v. x = Some v \<Longrightarrow> emits P s (g v)) \<Longrightarrow>
   emits P s (case x of None \<Rightarrow> f | Some v \<Rightarrow> g v)"
  by (cases x) auto

lemma emits_if [emits_intros]:
  "(b \<Longrightarrow> emits P s f) \<Longrightarrow> (\<not> b \<Longrightarrow> emits P s g) \<Longrightarrow> emits P s (if b then f else g)"
  by simp

text \<open>
  Taking a result apart. The rule is given per type of the second component, so that it does not
  apply to the pair of a result and a state, which is \<open>emits_bind\<close>.
\<close>

lemma emits_pair_claim [emits_intros]:
  fixes x :: "'a \<times> claim"
  shows "(\<And>a b. x = (a, b) \<Longrightarrow> emits P s (f a b)) \<Longrightarrow> emits P s (case x of (a, b) \<Rightarrow> f a b)"
  by (cases x) simp

lemma emits_pair_pool [emits_intros]:
  fixes x :: "'a \<times> pool"
  shows "(\<And>a b. x = (a, b) \<Longrightarrow> emits P s (f a b)) \<Longrightarrow> emits P s (case x of (a, b) \<Rightarrow> f a b)"
  by (cases x) simp

lemma emits_pair_bool [emits_intros]:
  fixes x :: "'a \<times> bool"
  shows "(\<And>a b. x = (a, b) \<Longrightarrow> emits P s (f a b)) \<Longrightarrow> emits P s (case x of (a, b) \<Rightarrow> f a b)"
  by (cases x) simp

lemma emits_pair_int [emits_intros]:
  fixes x :: "'a \<times> int"
  shows "(\<And>a b. x = (a, b) \<Longrightarrow> emits P s (f a b)) \<Longrightarrow> emits P s (case x of (a, b) \<Rightarrow> f a b)"
  by (cases x) simp

lemma emits_pair_list [emits_intros]:
  fixes x :: "'a \<times> 'b list"
  shows "(\<And>a b. x = (a, b) \<Longrightarrow> emits P s (f a b)) \<Longrightarrow> emits P s (case x of (a, b) \<Rightarrow> f a b)"
  by (cases x) simp

lemma emits_pair_pair [emits_intros]:
  fixes x :: "'a \<times> 'b \<times> 'c"
  shows "(\<And>a b. x = (a, b) \<Longrightarrow> emits P s (f a b)) \<Longrightarrow> emits P s (case x of (a, b) \<Rightarrow> f a b)"
  by (cases x) simp

lemma emits_let [emits_intros]: "emits P s (f v) \<Longrightarrow> emits P s (let x = v in f x)"
  by (simp add: Let_def)

section \<open>Documented behaviour of the helper libraries\<close>

text \<open>
  \<open>retry.RetryOnConflict\<close>: runs the callback; on a conflict it may wait and run it again;
  any other outcome, and a conflict once it gives up, is returned unmodified. While it waits the
  world may change in any way.
\<close>

definition waited :: "'w st \<Rightarrow> 'w st \<Rightarrow> bool" where
  "waited s s' \<longleftrightarrow> trace s' = trace s @ [EWait] \<and> holderID s' = holderID s"

inductive retry_run ::
  "('w st \<Rightarrow> (goerr + 'r) \<times> 'w st) \<Rightarrow> 'w st \<Rightarrow> (goerr + 'r) \<times> 'w st \<Rightarrow> bool"
  for fn where
  retry_stop: "retry_run fn s (fn s)"
| retry_again: "fn s = (Inl e, s1) \<Longrightarrow> IsConflict e \<Longrightarrow> waited s1 s2 \<Longrightarrow> retry_run fn s2 x \<Longrightarrow>
    retry_run fn s x"

text \<open>
  \<open>meta.FindStatusCondition\<close>, \<open>SetStatusCondition\<close> and \<open>RemoveStatusCondition\<close>: a
  condition is found after it was set, with the fields that were given and with the transition
  time moved to now when its status changed (or it is new); other types are not touched. The
  finalizer helpers change the finalizer list only, and \<open>SetControllerReference\<close> the owner
  references only. \<open>Semantic.DeepEqual\<close> on two status
  structs of this model, which does not tell a nil slice from an empty one, is equality.
\<close>

definition conditions_ok :: "'w env \<Rightarrow> bool" where
  "conditions_ok E \<longleftrightarrow>
     (\<forall>t cs c. cond_transition c = zeroTime \<longrightarrow>
        libFind E (libSet E t cs c) (cond_type c) =
          Some (c\<lparr>cond_transition := (case libFind E cs (cond_type c) of
             Some old \<Rightarrow> if cond_status old = cond_status c then cond_transition old else t
           | None \<Rightarrow> t)\<rparr>)) \<and>
     (\<forall>t cs c ty. ty \<noteq> cond_type c \<longrightarrow> libFind E (libSet E t cs c) ty = libFind E cs ty) \<and>
     (\<forall>cs ty. libFind E (libRemove E cs ty) ty = None) \<and>
     (\<forall>cs ty ty'. ty' \<noteq> ty \<longrightarrow> libFind E (libRemove E cs ty) ty' = libFind E cs ty')"

definition finalizers_ok :: "'w env \<Rightarrow> bool" where
  "finalizers_ok E \<longleftrightarrow>
     (\<forall>m f. libContainsFinalizer E m f \<longleftrightarrow> f \<in> set (om_finalizers m)) \<and>
     (\<forall>m f. \<exists>fs. libAddFinalizer E m f = m\<lparr>om_finalizers := fs\<rparr> \<and> set fs = insert f (set (om_finalizers m))) \<and>
     (\<forall>m f. \<exists>fs. libRemoveFinalizer E m f = m\<lparr>om_finalizers := fs\<rparr> \<and> set fs = set (om_finalizers m) - {f})"

definition deepequal_ok :: "'w env \<Rightarrow> bool" where
  "deepequal_ok E \<longleftrightarrow> (\<forall>x y. libEqClaim E x y \<longleftrightarrow> x = y) \<and> (\<forall>x y. libEqPool E x y \<longleftrightarrow> x = y) \<and>
     (\<forall>x y. libEqCP E x y \<longleftrightarrow> x = y)"

definition ownerref_ok :: "'w env \<Rightarrow> bool" where
  "ownerref_ok E \<longleftrightarrow> (\<forall>p c c'. libSetControllerRef E p c = Inr c' \<longrightarrow>
     (\<exists>ows. c' = c\<lparr>cl_meta := (cl_meta c)\<lparr>om_owners := ows\<rparr>\<rparr>))"

definition retry_ok :: "'w env \<Rightarrow> bool" where
  "retry_ok E \<longleftrightarrow> (\<forall>fn s. retry_run fn s (retryClaim E fn s)) \<and> (\<forall>fn s. retry_run fn s (retryPool E fn s)) \<and>
     (\<forall>fn s. retry_run fn s (retryCP E fn s))"

definition env_ok :: "'w env \<Rightarrow> bool" where
  "env_ok E \<longleftrightarrow> conditions_ok E \<and> finalizers_ok E \<and> deepequal_ok E \<and> ownerref_ok E \<and> retry_ok E"

lemma env_okD [dest]:
  assumes "env_ok E"
  shows "conditions_ok E" "finalizers_ok E" "deepequal_ok E" "ownerref_ok E" "retry_ok E"
  using assms by (simp_all add: env_ok_def)

lemma find_set:
  "conditions_ok E \<Longrightarrow> cond_transition c = zeroTime \<Longrightarrow> ty = cond_type c \<Longrightarrow>
   libFind E (libSet E t cs c) ty = Some (c\<lparr>cond_transition := (case libFind E cs ty of
      Some old \<Rightarrow> if cond_status old = cond_status c then cond_transition old else t
    | None \<Rightarrow> t)\<rparr>)"
  by (simp add: conditions_ok_def)

lemma find_set_other:
  "conditions_ok E \<Longrightarrow> ty \<noteq> cond_type c \<Longrightarrow> libFind E (libSet E t cs c) ty = libFind E cs ty"
  by (simp add: conditions_ok_def)

lemma find_remove: "conditions_ok E \<Longrightarrow> libFind E (libRemove E cs ty) ty = None"
  by (simp add: conditions_ok_def)

lemma find_remove_other:
  "conditions_ok E \<Longrightarrow> ty' \<noteq> ty \<Longrightarrow> libFind E (libRemove E cs ty) ty' = libFind E cs ty'"
  by (simp add: conditions_ok_def)

lemmas find_laws = find_set find_set_other find_remove find_remove_other

text \<open>Lifting facts about one attempt to \<open>RetryOnConflict\<close>, by rule induction.\<close>

lemma retry_run_emits:
  assumes "retry_run fn s x" and "\<And>s. emits P s (fn s)" and "P EWait"
  shows "emits P s x"
  using assms(1)
proof (induction rule: retry_run.induct)
  case (retry_stop s)
  show ?case by (rule assms(2))
next
  case (retry_again s e s1 s2 x)
  have "emits P s (fn s)" by (rule assms(2))
  then have "emits P s ((), s1)" using retry_again.hyps(1) by (simp add: emits_def tspec_def)
  moreover have "emits P s1 ((), s2)"
    using retry_again.hyps(3) assms(3) by (simp add: emits_def tspec_def waited_def)
  ultimately show ?case using retry_again.IH by (blast intro: emits_trans)
qed

lemma retry_run_tspec:
  assumes "retry_run fn s x" and "\<And>s. tspec s (fn s) Q"
    and "\<And>e r evs evs'. Q (Inl e) evs \<Longrightarrow> Q r evs' \<Longrightarrow> Q r (evs @ EWait # evs')"
  shows "tspec s x Q"
  using assms(1)
proof (induction rule: retry_run.induct)
  case (retry_stop s)
  show ?case by (rule assms(2))
next
  case (retry_again s e s1 s2 x)
  obtain evs where evs: "trace s1 = trace s @ evs" "Q (Inl e) evs"
    using assms(2) [of s] retry_again.hyps(1) by (auto simp: tspec_def)
  obtain evs' where "trace (snd x) = trace s2 @ evs'" "Q (fst x) evs'"
    using retry_again.IH by (auto simp: tspec_def)
  with evs retry_again.hyps(3) assms(3) [OF evs(2)] show ?case
    by (auto simp: tspec_def waited_def)
qed

text \<open>The result of a retry is the result of some attempt.\<close>

lemma retry_run_result:
  assumes "retry_run fn s x"
  shows "\<exists>s'. fn s' = x"
  using assms by (induction rule: retry_run.induct) auto

lemma retry_run_success:
  assumes "retry_run fn s x" and "fn s = (Inr v, s')"
  shows "x = (Inr v, s')"
  using assms by (cases rule: retry_run.cases) auto

end
