(* ===== verification/Sample_World.thy ===== *)
theory Sample_World
  imports Externals
begin

text \<open>
  A small concrete environment, in the manner of the fake client the repository's own tests use:
  an in-memory object store that answers every call. It instantiates the parameters of the model
  wherever a theorem with a hypothesis on the environment is applied to concrete data, and shows
  that \<open>env_ok\<close> can hold.
\<close>

record sample =
  sw_claims :: "claim list"
  sw_pools :: "pool list"
  sw_providers :: "provider_obj list"
  sw_cps :: "controlplane list"
  sw_nodes :: "node list"
  sw_pods :: "pod list"
  sw_clock :: time

definition apiErr :: "err_class \<Rightarrow> goerr" where
  "apiErr c = \<lparr>err_msg = ''api'', err_class = c\<rparr>"

definition lookupBy :: "('a \<Rightarrow> nskey) \<Rightarrow> nskey \<Rightarrow> 'a list \<Rightarrow> goerr + 'a" where
  "lookupBy f k xs = (case find (\<lambda>x. f x = k) xs of None \<Rightarrow> Inl (apiErr NotFound) | Some x \<Rightarrow> Inr x)"

definition replaceBy :: "('a \<Rightarrow> nskey) \<Rightarrow> 'a \<Rightarrow> 'a list \<Rightarrow> 'a list" where
  "replaceBy f y xs = map (\<lambda>x. if f x = f y then y else x) xs"

definition removeBy :: "('a \<Rightarrow> nskey) \<Rightarrow> nskey \<Rightarrow> 'a list \<Rightarrow> 'a list" where
  "removeBy f k xs = filter (\<lambda>x. f x \<noteq> k) xs"

definition setCond :: "time \<Rightarrow> condition list \<Rightarrow> condition \<Rightarrow> condition list" where
  "setCond t cs c = (case find (\<lambda>d. cond_type d = cond_type c) cs of
     None \<Rightarrow> cs @ [c\<lparr>cond_transition := t\<rparr>]
   | Some old \<Rightarrow> map (\<lambda>d. if cond_type d = cond_type c
       then c\<lparr>cond_transition := (if cond_status old = cond_status c then cond_transition old else t)\<rparr>
       else d) cs)"

definition findCond :: "condition list \<Rightarrow> string \<Rightarrow> condition option" where
  "findCond cs ty = find (\<lambda>d. cond_type d = ty) cs"

definition removeCond :: "condition list \<Rightarrow> string \<Rightarrow> condition list" where
  "removeCond cs ty = filter (\<lambda>d. cond_type d \<noteq> ty) cs"

definition markDeleted :: "objmeta \<Rightarrow> time \<Rightarrow> objmeta" where
  "markDeleted m t = m\<lparr>om_deletion := Some t\<rparr>"

abbreviation claimKey :: "claim \<Rightarrow> nskey" where "claimKey c \<equiv> metaKey (cl_meta c)"
abbreviation poolKey :: "pool \<Rightarrow> nskey" where "poolKey p \<equiv> metaKey (pl_meta p)"

definition sampleDeleteClaim :: "claim \<Rightarrow> sample \<Rightarrow> goerr option \<times> sample" where
  "sampleDeleteClaim c w = (case lookupBy claimKey (claimKey c) (sw_claims w) of
     Inl e \<Rightarrow> (Some e, w)
   | Inr old \<Rightarrow> (None, if om_finalizers (cl_meta old) = []
       then w\<lparr>sw_claims := removeBy claimKey (claimKey c) (sw_claims w)\<rparr>
       else w\<lparr>sw_claims := replaceBy claimKey
          (old\<lparr>cl_meta := markDeleted (cl_meta old) (sw_clock w)\<rparr>) (sw_claims w)\<rparr>))"

definition sampleUpdateClaim :: "claim \<Rightarrow> sample \<Rightarrow> (goerr + claim) \<times> sample" where
  "sampleUpdateClaim c w = (case lookupBy claimKey (claimKey c) (sw_claims w) of
     Inl e \<Rightarrow> (Inl e, w)
   | Inr old \<Rightarrow> (let new = c\<lparr>cl_status := cl_status old\<rparr> in
       (Inr new, w\<lparr>sw_claims := (if om_finalizers (cl_meta c) = [] \<and> om_deletion (cl_meta c) \<noteq> None
          then removeBy claimKey (claimKey c) (sw_claims w)
          else replaceBy claimKey new (sw_claims w))\<rparr>)))"

definition sampleStatusClaim :: "claim \<Rightarrow> sample \<Rightarrow> (goerr + claim) \<times> sample" where
  "sampleStatusClaim c w = (case lookupBy claimKey (claimKey c) (sw_claims w) of
     Inl e \<Rightarrow> (Inl e, w)
   | Inr old \<Rightarrow> (let new = old\<lparr>cl_status := cl_status c\<rparr> in
       (Inr new, w\<lparr>sw_claims := replaceBy claimKey new (sw_claims w)\<rparr>)))"

definition sampleCreateClaim :: "claim \<Rightarrow> sample \<Rightarrow> goerr option \<times> sample" where
  "sampleCreateClaim c w = (case lookupBy claimKey (claimKey c) (sw_claims w) of
     Inl e \<Rightarrow> (None, w\<lparr>sw_claims := sw_claims w @ [c]\<rparr>)
   | Inr old \<Rightarrow> (Some (apiErr AlreadyExists), w))"

definition sampleUpdatePool :: "pool \<Rightarrow> sample \<Rightarrow> (goerr + pool) \<times> sample" where
  "sampleUpdatePool p w = (case lookupBy poolKey (poolKey p) (sw_pools w) of
     Inl e \<Rightarrow> (Inl e, w)
   | Inr old \<Rightarrow> (let new = p\<lparr>pl_status := pl_status old\<rparr> in
       (Inr new, w\<lparr>sw_pools := (if om_finalizers (pl_meta p) = [] \<and> om_deletion (pl_meta p) \<noteq> None
          then removeBy poolKey (poolKey p) (sw_pools w)
          else replaceBy poolKey new (sw_pools w))\<rparr>)))"

definition sampleStatusPool :: "pool \<Rightarrow> sample \<Rightarrow> (goerr + pool) \<times> sample" where
  "sampleStatusPool p w = (case lookupBy poolKey (poolKey p) (sw_pools w) of
     Inl e \<Rightarrow> (Inl e, w)
   | Inr old \<Rightarrow> (let new = old\<lparr>pl_status := pl_status p\<rparr> in
       (Inr new, w\<lparr>sw_pools := replaceBy poolKey new (sw_pools w)\<rparr>)))"

definition sampleNodesBy :: "string \<Rightarrow> string \<Rightarrow> sample \<Rightarrow> node list" where
  "sampleNodesBy k v w = filter (\<lambda>n. map_of (om_labels (nd_meta n)) k = Some v) (sw_nodes w)"

definition nodeKey :: "node \<Rightarrow> nskey" where "nodeKey n = ([], nd_name n)"

definition sampleProvider :: "sample provider" where
  "sampleProvider = \<lparr>
     pr_provision = (\<lambda>ms w. (Inr \<lparr>mc_providerID = ''vm-'' @ ms_machineName ms, mc_kubeNodeName = ms_machineName ms\<rparr>, w)),
     pr_deprovision = (\<lambda>m w. (None, w)),
     pr_list = (\<lambda>pool w. (Inr [], w))\<rparr>"

definition sampleEnv :: "sample env" where
  "sampleEnv = \<lparr>
     libFind = findCond, libSet = setCond, libRemove = removeCond,
     libContainsFinalizer = (\<lambda>m f. List.member (om_finalizers m) f),
     libAddFinalizer = (\<lambda>m f. m\<lparr>om_finalizers := List.insert f (om_finalizers m)\<rparr>),
     libRemoveFinalizer = (\<lambda>m f. m\<lparr>om_finalizers := removeAll f (om_finalizers m)\<rparr>),
     libSetControllerRef = (\<lambda>p c. Inr (c\<lparr>cl_meta := (cl_meta c)\<lparr>om_owners :=
        [\<lparr>ow_kind = ''NodeSmithPool'', ow_name = pl_name p, ow_controller = Some True\<rparr>]\<rparr>\<rparr>)),
     libEqClaim = (=), libEqPool = (=), libEqCP = (=),
     retryClaim = (\<lambda>f s. f s), retryPool = (\<lambda>f s. f s), retryCP = (\<lambda>f s. f s),
     clock = sw_clock,
     newUUID = (\<lambda>w. ''uuid''),
     newClientset = None,
     osPodName = ''manager-0'',
     osHostname = Some ''host'',
     kGetClaim = (\<lambda>k w. (lookupBy claimKey k (sw_claims w), w)),
     kListClaims = (\<lambda>ns w. (Inr (filter (\<lambda>c. om_namespace (cl_meta c) = ns) (sw_claims w)), w)),
     kUpdateClaim = sampleUpdateClaim,
     kStatusClaim = sampleStatusClaim,
     kCreateClaim = sampleCreateClaim,
     kDeleteClaim = sampleDeleteClaim,
     kGetPool = (\<lambda>k w. (lookupBy poolKey k (sw_pools w), w)),
     kListPools = (\<lambda>ns w. (Inr (filter (\<lambda>p. om_namespace (pl_meta p) = ns) (sw_pools w)), w)),
     kUpdatePool = sampleUpdatePool,
     kStatusPool = sampleStatusPool,
     kGetProviderObj = (\<lambda>k w. (lookupBy (\<lambda>p. metaKey (po_meta p)) k (sw_providers w), w)),
     kGetCP = (\<lambda>k w. (lookupBy (\<lambda>p. metaKey (cp_meta p)) k (sw_cps w), w)),
     kListCPs = (\<lambda>ns w. (Inr (filter (\<lambda>p. om_namespace (cp_meta p) = ns) (sw_cps w)), w)),
     kStatusCP = (\<lambda>c w. (Inr c, w\<lparr>sw_cps := replaceBy (\<lambda>p. metaKey (cp_meta p)) c (sw_cps w)\<rparr>)),
     kGetNode = (\<lambda>n w. (lookupBy nodeKey ([], n) (sw_nodes w), w)),
     kListNodes = (\<lambda>w. (Inr (sw_nodes w), w)),
     kDeleteNode = (\<lambda>n w. (None, w\<lparr>sw_nodes := removeBy nodeKey (nodeKey n) (sw_nodes w)\<rparr>)),
     kPatchNode = (\<lambda>n b w. (None, w\<lparr>sw_nodes := replaceBy nodeKey n (sw_nodes w)\<rparr>)),
     csListNodes = (\<lambda>k v w. (Inr (sampleNodesBy k v w), w)),
     csListPods = (\<lambda>k v w. (Inr (filter (\<lambda>p. pd_nodeName p = v) (sw_pods w)), w)),
     csGetNode = (\<lambda>n w. (lookupBy nodeKey ([], n) (sw_nodes w), w)),
     csUpdateNode = (\<lambda>n w. (Inr n, w\<lparr>sw_nodes := replaceBy nodeKey n (sw_nodes w)\<rparr>)),
     providerFactories = [(''sample'', \<lambda>po w. (Inr sampleProvider, w))]\<rparr>"

definition startState :: "'w \<Rightarrow> 'w st" where
  "startState w = \<lparr>world = w, trace = [], holderID = []\<rparr>"

definition emptyWorld :: "time \<Rightarrow> sample" where
  "emptyWorld t = \<lparr>sw_claims = [], sw_pools = [], sw_providers = [], sw_cps = [], sw_nodes = [],
     sw_pods = [], sw_clock = t\<rparr>"

definition sampleMeta :: "string \<Rightarrow> objmeta" where
  "sampleMeta n = \<lparr>om_name = n, om_namespace = ''ns'', om_labels = [], om_annotations = [],
     om_finalizers = [], om_deletion = None, om_creation = zeroTime, om_generation = 1,
     om_rv = ''1'', om_owners = []\<rparr>"

definition sampleStatus :: claim_status where
  "sampleStatus = \<lparr>st_conditions = [], st_providerID = [], st_nodeName = [], st_providerRef = [],
     st_launchAttempts = 0, st_lease = None\<rparr>"

definition sampleClaim :: "string \<Rightarrow> claim" where
  "sampleClaim n = \<lparr>cl_meta = sampleMeta n,
     cl_spec = \<lparr>cs_poolRef = ''pool'', cs_requirements = Some \<lparr>rq_cpuCores = 4, rq_memoryMiB = 8192\<rparr>,
        cs_idempotencyKey = [], cs_terminationGracePeriod = None\<rparr>,
     cl_status = sampleStatus\<rparr>"

definition samplePool :: pool where
  "samplePool = \<lparr>pl_meta = sampleMeta ''pool'',
     pl_spec = \<lparr>ps_providerRef = ''px'', ps_poolLabelKey = ''topology.kubenodesmith.io/pool'',
       ps_limits = \<lparr>lm_minNodes = 0, lm_maxNodes = 5, lm_cpuCores = 0, lm_memoryMiB = 30720\<rparr>,
       ps_templateLabels = [(''node-role.kubernetes.io/worker'', [])],
       ps_scaleUp = None, ps_scaleDown = None\<rparr>,
     pl_status = \<lparr>pst_conditions = [], pst_observedGeneration = 0, pst_lastScaleActivity = None,
       pst_nextClaimSequence = 0\<rparr>\<rparr>"

definition sampleProviderObj :: provider_obj where
  "sampleProviderObj = \<lparr>po_meta = sampleMeta ''px'',
     po_spec = \<lparr>pv_type = '' Sample'', pv_credentialsSecretRef = None, pv_proxmox = None, pv_additionalSettings = []\<rparr>,
     po_status = \<lparr>pvs_conditions = [], pvs_observedGeneration = 0\<rparr>\<rparr>"

definition sampleNode :: "string \<Rightarrow> node" where
  "sampleNode n = \<lparr>nd_meta = (sampleMeta n)\<lparr>om_labels := [(''topology.kubenodesmith.io/pool'', ''pool'')]\<rparr>,
     nd_unschedulable = False,
     nd_allocatable = \<lparr>rl_cpuMilli = Some 4000, rl_memBytes = Some (8192 * 1024 * 1024)\<rparr>,
     nd_capacity = \<lparr>rl_cpuMilli = Some 4000, rl_memBytes = Some (8192 * 1024 * 1024)\<rparr>,
     nd_conditions = []\<rparr>"

definition samplePod :: "string \<Rightarrow> int \<Rightarrow> int \<Rightarrow> pod" where
  "samplePod n cpu mem = \<lparr>pd_meta = sampleMeta n, pd_nodeName = [],
     pd_requests = [Some \<lparr>rl_cpuMilli = Some cpu, rl_memBytes = Some mem\<rparr>],
     pd_nodeSelector = [(''topology.kubenodesmith.io/pool'', ''pool'')], pd_affinity = None,
     pd_tolerations = [], pd_phase = PodPending,
     pd_conditions = [\<lparr>pc_type = ''PodScheduled'', pc_status = CFalse, pc_reason = ''Unschedulable''\<rparr>]\<rparr>"

lemma findCond_setCond:
  "findCond (setCond t cs c) (cond_type c) =
     Some (c\<lparr>cond_transition := (case findCond cs (cond_type c) of
        Some old \<Rightarrow> if cond_status old = cond_status c then cond_transition old else t
      | None \<Rightarrow> t)\<rparr>)"
proof (cases "find (\<lambda>d. cond_type d = cond_type c) cs")
  case None
  then show ?thesis
    by (simp add: findCond_def setCond_def find_append)
next
  case (Some old)
  let ?f = "\<lambda>d. if cond_type d = cond_type c
       then c\<lparr>cond_transition := (if cond_status old = cond_status c then cond_transition old else t)\<rparr>
       else d"
  have "find (\<lambda>d. cond_type d = cond_type c) (map ?f xs) =
    map_option ?f (find (\<lambda>d. cond_type d = cond_type c) xs)" for xs
    by (induction xs) auto
  with Some show ?thesis
    using find_Some_set [OF Some] by (simp add: findCond_def setCond_def)
qed

lemma findCond_setCond_other:
  assumes "ty \<noteq> cond_type c"
  shows "findCond (setCond t cs c) ty = findCond cs ty"
proof -
  have "find (\<lambda>d. cond_type d = ty) (map (\<lambda>d. if cond_type d = cond_type c then c\<lparr>cond_transition := u\<rparr> else d) xs) =
    find (\<lambda>d. cond_type d = ty) xs" for xs u
    using assms by (induction xs) auto
  then show ?thesis using assms
    by (simp add: findCond_def setCond_def find_append split: option.split)
qed

lemma findCond_removeCond: "findCond (removeCond cs ty) ty' = (if ty = ty' then None else findCond cs ty')"
  by (induction cs) (auto simp: findCond_def removeCond_def)

lemma sampleEnv_ok: "env_ok sampleEnv"
  by (simp add: env_ok_def conditions_ok_def finalizers_ok_def deepequal_ok_def ownerref_ok_def retry_ok_def sampleEnv_def
      findCond_setCond findCond_setCond_other findCond_removeCond retry_stop) auto

end
