(* ===== verification/Kube.thy ===== *)
theory Kube
  imports Sample_World
begin

text \<open>
  \<open>internal/kube/kube.go\<close>: the pod and node queries the pool controller decides with. Each
  list call goes through the clientset; the filters and sums are pure. The loading of the REST
  configuration and the waiting for a node are in \<open>Kube_Client\<close>, the two \<open>Print\<close> functions in
  \<open>Kube_Print\<close>.
\<close>

section \<open>Pod classification\<close>

definition isDaemonSetPod :: "pod \<Rightarrow> bool" where
  "isDaemonSetPod p =
     list_ex (\<lambda>ow. ow_kind ow = ''DaemonSet'' \<and> ow_controller ow = Some True) (om_owners (pd_meta p))"

definition toleratesUnschedulable :: "pod \<Rightarrow> bool" where
  "toleratesUnschedulable p =
     list_ex (\<lambda>t. tol_key t = ''node.kubernetes.io/unschedulable'' \<and> tol_effect t = ''NoSchedule'')
       (pd_tolerations p)"

definition isUnschedulable :: "pod_condition \<Rightarrow> bool" where
  "isUnschedulable c \<longleftrightarrow> pc_type c = ''PodScheduled'' \<and> pc_status c = CFalse \<and> pc_reason c = ''Unschedulable''"

definition isMirrorPod :: "pod \<Rightarrow> bool" where
  "isMirrorPod p \<longleftrightarrow> map_of (om_annotations (pd_meta p)) ''kubernetes.io/config.mirror'' \<noteq> None"

definition isTerminalPod :: "pod \<Rightarrow> bool" where
  "isTerminalPod p \<longleftrightarrow> pd_phase p = PodSucceeded \<or> pd_phase p = PodFailed"

section \<open>Listing\<close>

definition getNodesByLabel ::
  "'w env \<Rightarrow> string \<Rightarrow> string \<Rightarrow> 'w st \<Rightarrow> (goerr + node list) \<times> 'w st" where
  "getNodesByLabel E k v s = csListNodesC E k v s"

text \<open>A pod is appended once per matching condition, as the inner loop has no break.\<close>

fun collectUnschedulable :: "pod list \<Rightarrow> pod list" where
  "collectUnschedulable [] = []"
| "collectUnschedulable (p # ps) =
     (if pd_phase p \<noteq> PodPending then collectUnschedulable ps
      else if isDaemonSetPod p then collectUnschedulable ps
      else replicate (length (filter isUnschedulable (pd_conditions p))) p @ collectUnschedulable ps)"

definition getUnschedulablePods :: "'w env \<Rightarrow> 'w st \<Rightarrow> (goerr + pod list) \<times> 'w st" where
  "getUnschedulablePods E s = (case csListPodsC E ''spec.nodeName'' [] s of
     (Inl e, s1) \<Rightarrow> (Inl e, s1)
   | (Inr ps, s1) \<Rightarrow> (Inr (collectUnschedulable ps), s1))"

definition evictable :: "pod \<Rightarrow> bool" where
  "evictable p =
     (if isMirrorPod p then False
      else if isDaemonSetPod p then False
      else if isTerminalPod p then False
      else if om_deletion (pd_meta p) \<noteq> None then False
      else if toleratesUnschedulable p then False
      else True)"

definition getEvictablePods :: "'w env \<Rightarrow> string \<Rightarrow> 'w st \<Rightarrow> (goerr + pod list) \<times> 'w st" where
  "getEvictablePods E nodeName s = (case csListPodsC E ''spec.nodeName'' nodeName s of
     (Inl e, s1) \<Rightarrow> (Inl e, s1)
   | (Inr ps, s1) \<Rightarrow> (Inr (filter evictable ps), s1))"

definition consumesResources :: "pod \<Rightarrow> bool" where
  "consumesResources p =
     (if isMirrorPod p then False
      else if om_deletion (pd_meta p) \<noteq> None then False
      else if isTerminalPod p then False
      else True)"

definition getAllPodsOnNode :: "'w env \<Rightarrow> string \<Rightarrow> 'w st \<Rightarrow> (goerr + pod list) \<times> 'w st" where
  "getAllPodsOnNode E nodeName s = (case csListPodsC E ''spec.nodeName'' nodeName s of
     (Inl e, s1) \<Rightarrow> (Inl e, s1)
   | (Inr ps, s1) \<Rightarrow> (Inr (filter consumesResources ps), s1))"

section \<open>Resource requests and pool usage\<close>

definition addOpt :: "int \<Rightarrow> int option \<Rightarrow> int" where
  "addOpt acc v = (case v of None \<Rightarrow> acc | Some x \<Rightarrow> add64 acc x)"

fun sumRequests :: "resource_list option list \<Rightarrow> int \<times> int \<Rightarrow> int \<times> int" where
  "sumRequests [] acc = acc"
| "sumRequests (None # cs) acc = sumRequests cs acc"
| "sumRequests (Some r # cs) (cpu, mem) =
     sumRequests cs (addOpt cpu (rl_cpuMilli r), addOpt mem (rl_memBytes r))"

definition getRequestedResources :: "pod \<Rightarrow> int \<times> int" where
  "getRequestedResources p = sumRequests (pd_requests p) (0, 0)"

record pool_usage =
  pu_usedCPUMilli :: int
  pu_usedMemoryBytes :: int
  pu_allocatedCPUMilli :: int
  pu_allocatedMemoryBytes :: int
  pu_availableCPUMilli :: int
  pu_availableMemoryBytes :: int
  pu_allocatableCPUMilli :: int
  pu_allocatableMemoryBytes :: int
  pu_totalCPUMilli :: int
  pu_totalMemoryBytes :: int
  pu_nodeCount :: int

text \<open>The six running totals of the loop of \<open>GetPoolResourceUsage\<close>.\<close>

record usage_acc =
  ua_allocatableCPU :: int
  ua_allocatableMem :: int
  ua_totalCPU :: int
  ua_totalMem :: int
  ua_allocatedCPU :: int
  ua_allocatedMem :: int

definition usageZero :: usage_acc where
  "usageZero = \<lparr>ua_allocatableCPU = 0, ua_allocatableMem = 0, ua_totalCPU = 0, ua_totalMem = 0,
     ua_allocatedCPU = 0, ua_allocatedMem = 0\<rparr>"

definition usageAddNode :: "node \<Rightarrow> usage_acc \<Rightarrow> usage_acc" where
  "usageAddNode n u = u\<lparr>
     ua_allocatableCPU := addOpt (ua_allocatableCPU u) (rl_cpuMilli (nd_allocatable n)),
     ua_allocatableMem := addOpt (ua_allocatableMem u) (rl_memBytes (nd_allocatable n)),
     ua_totalCPU := addOpt (ua_totalCPU u) (rl_cpuMilli (nd_capacity n)),
     ua_totalMem := addOpt (ua_totalMem u) (rl_memBytes (nd_capacity n))\<rparr>"

fun usageAddPods :: "pod list \<Rightarrow> usage_acc \<Rightarrow> usage_acc" where
  "usageAddPods [] u = u"
| "usageAddPods (p # ps) u = (case getRequestedResources p of
     (cpu, mem) \<Rightarrow> usageAddPods ps (u\<lparr>ua_allocatedCPU := add64 (ua_allocatedCPU u) cpu,
       ua_allocatedMem := add64 (ua_allocatedMem u) mem\<rparr>))"

text \<open>A node whose pods cannot be listed keeps its capacity and is skipped for the rest.\<close>

fun usageLoop :: "'w env \<Rightarrow> node list \<Rightarrow> usage_acc \<Rightarrow> 'w st \<Rightarrow> usage_acc \<times> 'w st" where
  "usageLoop E [] u s = (u, s)"
| "usageLoop E (n # ns) u s = (case getAllPodsOnNode E (nd_name n) s of
     (Inl e, s1) \<Rightarrow> usageLoop E ns (usageAddNode n u) s1
   | (Inr ps, s1) \<Rightarrow> usageLoop E ns (usageAddPods ps (usageAddNode n u)) s1)"

definition usageResult :: "nat \<Rightarrow> usage_acc \<Rightarrow> pool_usage" where
  "usageResult n u = \<lparr>
     pu_usedCPUMilli = ua_allocatedCPU u,
     pu_usedMemoryBytes = ua_allocatedMem u,
     pu_allocatedCPUMilli = ua_allocatedCPU u,
     pu_allocatedMemoryBytes = ua_allocatedMem u,
     pu_availableCPUMilli = sub64 (ua_allocatableCPU u) (ua_allocatedCPU u),
     pu_availableMemoryBytes = sub64 (ua_allocatableMem u) (ua_allocatedMem u),
     pu_allocatableCPUMilli = ua_allocatableCPU u,
     pu_allocatableMemoryBytes = ua_allocatableMem u,
     pu_totalCPUMilli = ua_totalCPU u,
     pu_totalMemoryBytes = ua_totalMem u,
     pu_nodeCount = int n\<rparr>"

definition getPoolResourceUsage :: "'w env \<Rightarrow> pool \<Rightarrow> 'w st \<Rightarrow> (goerr + pool_usage) \<times> 'w st" where
  "getPoolResourceUsage E pl s =
     (case getNodesByLabel E (ps_poolLabelKey (pl_spec pl)) (pl_name pl) s of
       (Inl e, s1) \<Rightarrow> (Inl (wrapf ''failed to get nodes in pool: '' e), s1)
     | (Inr nodes, s1) \<Rightarrow> (case usageLoop E nodes usageZero s1 of
         (u, s2) \<Rightarrow> (Inr (usageResult (length nodes) u), s2)))"

section \<open>Scale-down candidates\<close>

fun candidateLoop :: "'w env \<Rightarrow> node list \<Rightarrow> 'w st \<Rightarrow> (goerr + node list) \<times> 'w st" where
  "candidateLoop E [] s = (Inr [], s)"
| "candidateLoop E (n # ns) s =
     (if nd_unschedulable n then candidateLoop E ns s
      else (case getEvictablePods E (nd_name n) s of
        (Inl e, s1) \<Rightarrow> (Inl (wrapf (''get evictable pods for node '' @ nd_name n @ '': '') e), s1)
      | (Inr ps, s1) \<Rightarrow>
          (if ps \<noteq> [] then candidateLoop E ns s1
           else (case candidateLoop E ns s1 of
             (Inl e, s2) \<Rightarrow> (Inl e, s2)
           | (Inr cs, s2) \<Rightarrow> (Inr (n # cs), s2)))))"

definition getScaleDownCandidates :: "'w env \<Rightarrow> pool \<Rightarrow> 'w st \<Rightarrow> (goerr + node list) \<times> 'w st" where
  "getScaleDownCandidates E pl s =
     (case getNodesByLabel E (ps_poolLabelKey (pl_spec pl)) (pl_name pl) s of
       (Inl e, s1) \<Rightarrow> (Inl e, s1)
     | (Inr nodes, s1) \<Rightarrow> candidateLoop E nodes s1)"

section \<open>Node writes\<close>

definition cordonNode :: "'w env \<Rightarrow> string \<Rightarrow> 'w st \<Rightarrow> goerr option \<times> 'w st" where
  "cordonNode E nodeName s = (case csGetNodeC E nodeName s of
     (Inl e, s1) \<Rightarrow> (Some e, s1)
   | (Inr n, s1) \<Rightarrow> (case csUpdateNodeC E (n\<lparr>nd_unschedulable := True\<rparr>) s1 of
       (Inl e, s2) \<Rightarrow> (Some e, s2)
     | (Inr _, s2) \<Rightarrow> (None, s2)))"

definition labelNode :: "'w env \<Rightarrow> string \<Rightarrow> gomap \<Rightarrow> 'w st \<Rightarrow> goerr option \<times> 'w st" where
  "labelNode E nodeName labels s = (case csGetNodeC E nodeName s of
     (Inl e, s1) \<Rightarrow> (Some e, s1)
   | (Inr n, s1) \<Rightarrow>
       (case csUpdateNodeC E (n\<lparr>nd_meta := (nd_meta n)\<lparr>om_labels :=
           mapPutAll labels (om_labels (nd_meta n))\<rparr>\<rparr>) s1 of
         (Inl e, s2) \<Rightarrow> (Some e, s2)
       | (Inr _, s2) \<Rightarrow> (None, s2)))"

section \<open>Facts\<close>

lemma collectUnschedulable_sound:
  "p \<in> set (collectUnschedulable ps) \<Longrightarrow>
     p \<in> set ps \<and> pd_phase p = PodPending \<and> \<not> isDaemonSetPod p \<and>
     (\<exists>c \<in> set (pd_conditions p). isUnschedulable c)"
proof (induction ps)
  case (Cons q ps)
  then show ?case
    by (cases "filter isUnschedulable (pd_conditions q)")
      (auto simp: filter_eq_Cons_iff split: if_splits)
qed simp

lemma collectUnschedulable_complete:
  assumes "p \<in> set ps" "pd_phase p = PodPending" "\<not> isDaemonSetPod p"
    "c \<in> set (pd_conditions p)" "isUnschedulable c"
  shows "p \<in> set (collectUnschedulable ps)"
  using assms(1)
proof (induction ps)
  case (Cons q ps)
  have "filter isUnschedulable (pd_conditions p) \<noteq> []"
    using assms(4,5) by (auto simp: filter_empty_conv)
  with Cons assms show ?case by auto
qed simp

lemma collectUnschedulable_iff:
  "p \<in> set (collectUnschedulable ps) \<longleftrightarrow>
     p \<in> set ps \<and> pd_phase p = PodPending \<and> \<not> isDaemonSetPod p \<and>
     list_ex isUnschedulable (pd_conditions p)"
  unfolding list_ex_iff
  by (blast dest: collectUnschedulable_sound intro: collectUnschedulable_complete)

text \<open>What the log says of one scale-down candidate.\<close>

definition emptyOfWorkload :: "ext_call list \<Rightarrow> node \<Rightarrow> bool" where
  "emptyOfWorkload evs n \<longleftrightarrow> (\<exists>ps. ECsListPods ''spec.nodeName'' (nd_name n) (Inr ps) \<in> set evs \<and>
     list_all (\<lambda>p. \<not> evictable p) ps)"

lemma emptyOfWorkload_append [simp]:
  "emptyOfWorkload (xs @ ys) n \<longleftrightarrow> emptyOfWorkload xs n \<or> emptyOfWorkload ys n"
  by (auto simp: emptyOfWorkload_def)

lemma getEvictablePods_log:
  "tspec s (getEvictablePods E n s) (\<lambda>r evs. \<forall>ps. r = Inr ps \<longrightarrow>
     (\<exists>all. evs = [ECsListPods ''spec.nodeName'' n (Inr all)] \<and> ps = filter evictable all))"
  unfolding getEvictablePods_def
  by (rule tspec_bind_call) (auto intro!: tspec_ret split: sum.split)

definition goodCandidate :: "ext_call list \<Rightarrow> node list \<Rightarrow> node \<Rightarrow> bool" where
  "goodCandidate evs nodes n \<longleftrightarrow> n \<in> set nodes \<and> \<not> nd_unschedulable n \<and> emptyOfWorkload evs n"

lemma candidateLoop_log:
  "tspec s (candidateLoop E nodes s) (\<lambda>r evs. \<forall>cs. r = Inr cs \<longrightarrow> list_all (goodCandidate evs nodes) cs)"
proof (induction nodes arbitrary: s)
  case Nil
  show ?case by (simp add: tspec_ret)
next
  case (Cons n ns)
  have IH: "tspec s (candidateLoop E ns s)
    (\<lambda>r evs. \<forall>cs. r = Inr cs \<longrightarrow> list_all (goodCandidate (pre @ evs) (n # ns)) cs)" for s pre
    by (rule tspec_mono [OF Cons.IH]) (auto simp: list_all_iff goodCandidate_def)
  show ?case
  proof (cases "nd_unschedulable n")
    case True
    then show ?thesis using IH [of s "[]"] by simp
  next
    case False
    have "tspec s (case getEvictablePods E (nd_name n) s of
        (Inl e, s1) \<Rightarrow> (Inl (wrapf (''get evictable pods for node '' @ nd_name n @ '': '') e), s1)
      | (Inr ps, s1) \<Rightarrow>
          (if ps \<noteq> [] then candidateLoop E ns s1
           else (case candidateLoop E ns s1 of
             (Inl e, s2) \<Rightarrow> (Inl e, s2)
           | (Inr cs, s2) \<Rightarrow> (Inr (n # cs), s2))))
      (\<lambda>r evs. \<forall>cs. r = Inr cs \<longrightarrow> list_all (goodCandidate evs (n # ns)) cs)"
    proof (rule tspec_bind [OF getEvictablePods_log], goal_cases)
      case (1 r s1 evs)
      show ?case
      proof (cases r)
        case (Inl e)
        then show ?thesis by (simp add: tspec_ret)
      next
        case (Inr ps)
        with 1 obtain al where al: "evs = [ECsListPods ''spec.nodeName'' (nd_name n) (Inr al)]"
          "ps = filter evictable al" by auto
        show ?thesis
        proof (cases "ps = []")
          case True
          then have "emptyOfWorkload evs n"
            using al by (auto simp: emptyOfWorkload_def list_all_iff filter_empty_conv)
          then have good: "goodCandidate (evs @ evs') (n # ns) n" for evs'
            using False by (simp add: goodCandidate_def)
          show ?thesis
            unfolding Inr using True
            by (simp, intro tspec_bind [OF IH [of _ evs]])
              (auto intro!: tspec_ret good split: sum.split)
        next
          case False
          with Inr IH [of s1 evs] show ?thesis by simp
        qed
      qed
    qed
    with False show ?thesis by simp
  qed
qed

subsection \<open>Sums\<close>

definition optVal :: "int option \<Rightarrow> int" where
  "optVal v = (case v of None \<Rightarrow> 0 | Some x \<Rightarrow> x)"

lemma addOpt_eq: "in64 a \<Longrightarrow> addOpt a v = i64 (a + optVal v)"
  by (simp add: addOpt_def optVal_def add64_def split: option.split)

lemma in64_addOpt [simp]: "in64 a \<Longrightarrow> in64 (addOpt a v)"
  by (simp add: addOpt_eq)

lemma in64_0 [simp]: "in64 0"
  by (simp add: in64_def)

definition reqCPU :: "pod \<Rightarrow> int" where
  "reqCPU p = sum_list (map (\<lambda>r. case r of None \<Rightarrow> 0 | Some l \<Rightarrow> optVal (rl_cpuMilli l)) (pd_requests p))"

definition reqMem :: "pod \<Rightarrow> int" where
  "reqMem p = sum_list (map (\<lambda>r. case r of None \<Rightarrow> 0 | Some l \<Rightarrow> optVal (rl_memBytes l)) (pd_requests p))"

lemma sumRequests_eq:
  "in64 c \<Longrightarrow> in64 m \<Longrightarrow> sumRequests rs (c, m) =
     (i64 (c + sum_list (map (\<lambda>r. case r of None \<Rightarrow> 0 | Some l \<Rightarrow> optVal (rl_cpuMilli l)) rs)),
      i64 (m + sum_list (map (\<lambda>r. case r of None \<Rightarrow> 0 | Some l \<Rightarrow> optVal (rl_memBytes l)) rs)))"
  by (induction rs "(c, m)" arbitrary: c m rule: sumRequests.induct)
    (simp_all add: addOpt_eq ac_simps)

lemma getRequestedResources_eq: "getRequestedResources p = (i64 (reqCPU p), i64 (reqMem p))"
  by (simp add: getRequestedResources_def sumRequests_eq reqCPU_def reqMem_def)

text \<open>The six totals of the loop are sums, in int64, over the nodes and over the pods that their listings gave.\<close>

definition accIn64 :: "usage_acc \<Rightarrow> bool" where
  "accIn64 u \<longleftrightarrow> in64 (ua_allocatableCPU u) \<and> in64 (ua_allocatableMem u) \<and> in64 (ua_totalCPU u) \<and> in64 (ua_totalMem u) \<and>
     in64 (ua_allocatedCPU u) \<and> in64 (ua_allocatedMem u)"

definition usageSums :: "usage_acc \<Rightarrow> node list \<Rightarrow> pod list \<Rightarrow> usage_acc \<Rightarrow> bool" where
  "usageSums u nodes pods u' \<longleftrightarrow>
     ua_allocatableCPU u' = i64 (ua_allocatableCPU u + sum_list (map (\<lambda>n. optVal (rl_cpuMilli (nd_allocatable n))) nodes)) \<and>
     ua_allocatableMem u' = i64 (ua_allocatableMem u + sum_list (map (\<lambda>n. optVal (rl_memBytes (nd_allocatable n))) nodes)) \<and>
     ua_totalCPU u' = i64 (ua_totalCPU u + sum_list (map (\<lambda>n. optVal (rl_cpuMilli (nd_capacity n))) nodes)) \<and>
     ua_totalMem u' = i64 (ua_totalMem u + sum_list (map (\<lambda>n. optVal (rl_memBytes (nd_capacity n))) nodes)) \<and>
     ua_allocatedCPU u' = i64 (ua_allocatedCPU u + sum_list (map reqCPU pods)) \<and>
     ua_allocatedMem u' = i64 (ua_allocatedMem u + sum_list (map reqMem pods))"

definition countedPods :: "goerr + pod list \<Rightarrow> pod list" where
  "countedPods a = (case a of Inl e \<Rightarrow> [] | Inr ps \<Rightarrow> filter consumesResources ps)"

lemma countedPods_rights: "concat (map countedPods answers) = filter consumesResources (concat (map (case_sum (\<lambda>e. []) id) answers))"
  by (induction answers) (auto simp: countedPods_def split: sum.splits)

lemma usageAddNode_sums: "accIn64 u \<Longrightarrow> accIn64 (usageAddNode n u) \<and> usageSums u [n] [] (usageAddNode n u)"
  by (simp add: accIn64_def usageSums_def usageAddNode_def addOpt_eq)

lemma usageAddPods_sums: "accIn64 u \<Longrightarrow> accIn64 (usageAddPods ps u) \<and> usageSums u [] ps (usageAddPods ps u)"
  by (induction ps u rule: usageAddPods.induct)
    (auto simp: accIn64_def usageSums_def getRequestedResources_eq add64_def ac_simps)

lemma usageSums_trans: "usageSums u ns ps v \<Longrightarrow> usageSums v ns' ps' w \<Longrightarrow> usageSums u (ns @ ns') (ps @ ps') w"
  by (simp add: usageSums_def ac_simps)

lemma usageLoop_sums:
  "accIn64 u \<Longrightarrow> tspec s (usageLoop E nodes u s) (\<lambda>u' evs. \<exists>answers. length answers = length nodes \<and>
     evs = map2 (\<lambda>n a. ECsListPods ''spec.nodeName'' (nd_name n) a) nodes answers \<and>
     usageSums u nodes (concat (map countedPods answers)) u')"
proof (induction nodes arbitrary: u s)
  case Nil
  then show ?case by (simp add: tspec_ret usageSums_def accIn64_def)
next
  case (Cons n ns)
  note N = usageAddNode_sums [OF Cons.prems, of n]
  have step: "tspec s1 (usageLoop E ns v s1) (\<lambda>u' evs. \<exists>answers. length answers = length (n # ns) \<and>
      ECsListPods ''spec.nodeName'' (nd_name n) a # evs =
        map2 (\<lambda>n a. ECsListPods ''spec.nodeName'' (nd_name n) a) (n # ns) answers \<and>
      usageSums u (n # ns) (concat (map countedPods answers)) u')"
    if "v = usageAddPods (countedPods a) (usageAddNode n u)" for v a s1
  proof (rule tspec_mono [OF Cons.IH])
    have P: "accIn64 v \<and> usageSums (usageAddNode n u) [] (countedPods a) v"
      using usageAddPods_sums N that by blast
    then show "accIn64 v" ..
    fix u' evs
    assume "\<exists>answers. length answers = length ns \<and>
      evs = map2 (\<lambda>n a. ECsListPods ''spec.nodeName'' (nd_name n) a) ns answers \<and> usageSums v ns (concat (map countedPods answers)) u'"
    then obtain answers where "length answers = length ns" "evs = map2 (\<lambda>n a. ECsListPods ''spec.nodeName'' (nd_name n) a) ns answers"
      "usageSums v ns (concat (map countedPods answers)) u'" by blast
    moreover have "usageSums u [n] (countedPods a) v" using usageSums_trans [of u "[n]" "[]"] N P by force
    ultimately show "\<exists>answers. length answers = length (n # ns) \<and> ECsListPods ''spec.nodeName'' (nd_name n) a # evs =
        map2 (\<lambda>n a. ECsListPods ''spec.nodeName'' (nd_name n) a) (n # ns) answers \<and>
      usageSums u (n # ns) (concat (map countedPods answers)) u'"
      using usageSums_trans by (intro exI [of _ "a # answers"]) force
  qed
  have pods: "tspec s (getAllPodsOnNode E (nd_name n) s) (\<lambda>r evs. \<exists>a. evs = [ECsListPods ''spec.nodeName'' (nd_name n) a] \<and>
      r = map_sum id (filter consumesResources) a)"
    unfolding getAllPodsOnNode_def by (rule tspec_bind_call) (auto intro!: tspec_ret split: sum.split)
  show ?case
    unfolding usageLoop.simps
  proof (rule tspec_bind [OF pods])
    fix r s1 evs
    assume "\<exists>a. evs = [ECsListPods ''spec.nodeName'' (nd_name n) a] \<and> r = map_sum id (filter consumesResources) a"
    then obtain a where a: "evs = [ECsListPods ''spec.nodeName'' (nd_name n) a]" "r = map_sum id (filter consumesResources) a" by blast
    have "(case r of Inl e \<Rightarrow> usageLoop E ns (usageAddNode n u) s1
        | Inr ps \<Rightarrow> usageLoop E ns (usageAddPods ps (usageAddNode n u)) s1) =
      usageLoop E ns (usageAddPods (countedPods a) (usageAddNode n u)) s1"
      by (cases a) (simp_all add: a(2) countedPods_def)
    then show "tspec s1 (case r of Inl e \<Rightarrow> usageLoop E ns (usageAddNode n u) s1
        | Inr ps \<Rightarrow> usageLoop E ns (usageAddPods ps (usageAddNode n u)) s1)
      (\<lambda>u' evs'. \<exists>answers. length answers = length (n # ns) \<and>
        evs @ evs' = map2 (\<lambda>n a. ECsListPods ''spec.nodeName'' (nd_name n) a) (n # ns) answers \<and>
        usageSums u (n # ns) (concat (map countedPods answers)) u')"
      using step [OF refl, of s1 a] by (simp add: a(1))
  qed
qed

section \<open>Properties\<close>

lemma getNodesByLabel_log:
  "tspec s (getNodesByLabel E k v s) (\<lambda>r evs. evs = [ECsListNodes k v r])"
  by (simp add: getNodesByLabel_def tspec_call)

lemma usageLoop_reads: "emits isRead s (usageLoop E nodes u s)"
  by (induction nodes arbitrary: u s) (auto simp: getAllPodsOnNode_def intro!: emits_intros)

lemma getScaleDownCandidates_log:
  "tspec s (getScaleDownCandidates E pl s) (\<lambda>r evs. \<forall>cs. r = Inr cs \<longrightarrow>
     (\<exists>nodes. ECsListNodes (ps_poolLabelKey (pl_spec pl)) (pl_name pl) (Inr nodes) \<in> set evs \<and>
        list_all (goodCandidate evs nodes) cs))"
  unfolding getScaleDownCandidates_def
proof (rule tspec_bind [OF getNodesByLabel_log], goal_cases)
  case (1 r s1 evs)
  show ?case
  proof (cases r)
    case (Inr nodes)
    have "tspec s1 (candidateLoop E nodes s1) (\<lambda>r evs'. \<forall>cs. r = Inr cs \<longrightarrow>
      list_all (goodCandidate (evs @ evs') nodes) cs)"
      by (rule tspec_mono [OF candidateLoop_log]) (auto simp: list_all_iff goodCandidate_def)
    then show ?thesis unfolding Inr
      by simp (erule tspec_mono, use 1 Inr in auto)
  qed (simp add: tspec_ret)
qed

text \<open>A node offered for scale-down was listed under the pool's label, is not cordoned, and
  the listing of its pods, taken in the same run, held no evictable pod (every pod on it was a
  mirror pod, a DaemonSet pod, terminal, already being deleted, or tolerates an unschedulable
  node). Nothing is assumed of the API's answers.\<close>

theorem scaledown_candidates_idle:
  assumes "getScaleDownCandidates E pl s = (Inr cands, s')" and "n \<in> set cands"
  shows "\<exists>evs nodes ps. trace s' = trace s @ evs \<and>
    ECsListNodes (ps_poolLabelKey (pl_spec pl)) (pl_name pl) (Inr nodes) \<in> set evs \<and>
    n \<in> set nodes \<and> \<not> nd_unschedulable n \<and>
    ECsListPods ''spec.nodeName'' (nd_name n) (Inr ps) \<in> set evs \<and> filter evictable ps = []"
proof -
  from tspecD [OF getScaleDownCandidates_log [of s E pl, unfolded assms(1)]] assms(2)
  obtain evs nodes where "trace s' = trace s @ evs"
    "ECsListNodes (ps_poolLabelKey (pl_spec pl)) (pl_name pl) (Inr nodes) \<in> set evs"
    "goodCandidate evs nodes n"
    by (auto simp: list_all_iff)
  then show ?thesis
    unfolding goodCandidate_def emptyOfWorkload_def list_all_iff filter_empty_conv by metis
qed

definition idleWorld :: sample where
  "idleWorld = (emptyWorld 0)\<lparr>sw_nodes := [sampleNode ''n1'', (sampleNode ''n2'')\<lparr>nd_unschedulable := True\<rparr>],
     sw_pods := [(samplePod ''p'' 100 100)\<lparr>pd_nodeName := ''n1'', pd_phase := PodSucceeded\<rparr>]\<rparr>"

theorem scaledown_candidates_idle_witness:
  "\<exists>s' evs nodes ps. getScaleDownCandidates sampleEnv samplePool (startState idleWorld) =
     (Inr [sampleNode ''n1''], s') \<and> trace s' = trace (startState idleWorld) @ evs \<and>
    ECsListNodes (ps_poolLabelKey (pl_spec samplePool)) (pl_name samplePool) (Inr nodes) \<in> set evs \<and>
    ECsListPods ''spec.nodeName'' ''n1'' (Inr ps) \<in> set evs \<and> filter evictable ps = []"
proof -
  have "fst (getScaleDownCandidates sampleEnv samplePool (startState idleWorld)) = Inr [sampleNode ''n1'']"
    by code_simp
  then obtain s' where e: "getScaleDownCandidates sampleEnv samplePool (startState idleWorld) =
     (Inr [sampleNode ''n1''], s')" by (metis prod.collapse)
  have "nd_name (sampleNode ''n1'') = ''n1''" by (simp add: sampleNode_def sampleMeta_def)
  with scaledown_candidates_idle [OF e, of "sampleNode ''n1''"] e show ?thesis
    by (metis list.set_intros(1))
qed

text \<open>
  C38. The pool usage that limits and planning rest on is exact: one listing of the nodes under the
  pool's label, then one listing of pods for each of them, in order. The total and the allocatable amounts
  are the sums over the listed nodes, whichever pod listings failed; the allocated amounts are
  the sums of what the containers request of all pods that were listed, but for mirror pods, pods being deleted and
  pods that have ended; available is allocatable less allocated; each in int64, wrapping around.
\<close>

theorem pool_usage_exact:
  assumes "getPoolResourceUsage E pl s = (Inr u, s')"
  shows "\<exists>nodes answers counted. length answers = length nodes \<and>
    trace s' = trace s @ ECsListNodes (ps_poolLabelKey (pl_spec pl)) (pl_name pl) (Inr nodes) #
      map2 (\<lambda>n a. ECsListPods ''spec.nodeName'' (nd_name n) a) nodes answers \<and>
    counted = filter (\<lambda>p. map_of (om_annotations (pd_meta p)) ''kubernetes.io/config.mirror'' = None \<and>
      om_deletion (pd_meta p) = None \<and> pd_phase p \<notin> {PodSucceeded, PodFailed}) (concat (map (case_sum (\<lambda>e. []) id) answers)) \<and>
    pu_nodeCount u = int (length nodes) \<and>
    pu_totalCPUMilli u = i64 (sum_list (map (\<lambda>n. optVal (rl_cpuMilli (nd_capacity n))) nodes)) \<and>
    pu_totalMemoryBytes u = i64 (sum_list (map (\<lambda>n. optVal (rl_memBytes (nd_capacity n))) nodes)) \<and>
    pu_allocatableCPUMilli u = i64 (sum_list (map (\<lambda>n. optVal (rl_cpuMilli (nd_allocatable n))) nodes)) \<and>
    pu_allocatableMemoryBytes u = i64 (sum_list (map (\<lambda>n. optVal (rl_memBytes (nd_allocatable n))) nodes)) \<and>
    pu_allocatedCPUMilli u = i64 (sum_list (map reqCPU counted)) \<and>
    pu_allocatedMemoryBytes u = i64 (sum_list (map reqMem counted)) \<and>
    pu_usedCPUMilli u = pu_allocatedCPUMilli u \<and> pu_usedMemoryBytes u = pu_allocatedMemoryBytes u \<and>
    pu_availableCPUMilli u = i64 (pu_allocatableCPUMilli u - pu_allocatedCPUMilli u) \<and>
    pu_availableMemoryBytes u = i64 (pu_allocatableMemoryBytes u - pu_allocatedMemoryBytes u)"
proof -
  obtain r s1 where g: "getNodesByLabel E (ps_poolLabelKey (pl_spec pl)) (pl_name pl) s = (r, s1)"
    by (metis prod.exhaust)
  with assms obtain nodes where r: "r = Inr nodes"
    by (cases r) (auto simp: getPoolResourceUsage_def)
  obtain ua where l: "usageLoop E nodes usageZero s1 = (ua, s')" and u: "u = usageResult (length nodes) ua"
    using assms by (auto simp: getPoolResourceUsage_def g r split: prod.splits)
  have t: "trace s1 = trace s @ [ECsListNodes (ps_poolLabelKey (pl_spec pl)) (pl_name pl) (Inr nodes)]"
    using tspecD [OF getNodesByLabel_log [of s E "ps_poolLabelKey (pl_spec pl)" "pl_name pl", unfolded g]] r by simp
  have "accIn64 usageZero" by (simp add: accIn64_def usageZero_def)
  from tspecD [OF usageLoop_sums [OF this, of s1 E nodes, unfolded l]] obtain answers where
    a: "length answers = length nodes" "trace s' = trace s1 @ map2 (\<lambda>n a. ECsListPods ''spec.nodeName'' (nd_name n) a) nodes answers"
      "usageSums usageZero nodes (concat (map countedPods answers)) ua" by auto
  have "concat (map countedPods answers) = filter (\<lambda>p. map_of (om_annotations (pd_meta p)) ''kubernetes.io/config.mirror'' = None \<and>
      om_deletion (pd_meta p) = None \<and> pd_phase p \<notin> {PodSucceeded, PodFailed}) (concat (map (case_sum (\<lambda>e. []) id) answers))"
    unfolding countedPods_rights by (rule filter_cong) (auto simp: consumesResources_def isMirrorPod_def isTerminalPod_def)
  then show ?thesis using a t u
    by (intro exI [of _ nodes] exI [of _ answers] exI [of _ "concat (map countedPods answers)"])
      (simp add: usageSums_def usageResult_def usageZero_def sub64_def)
qed

definition busyWorld :: sample where
  "busyWorld = (emptyWorld 0)\<lparr>sw_nodes := [sampleNode ''n1''],
     sw_pods := [(samplePod ''p'' 100 100)\<lparr>pd_nodeName := ''n1''\<rparr>,
       (samplePod ''q'' 100 100)\<lparr>pd_nodeName := ''n1'', pd_phase := PodSucceeded\<rparr>]\<rparr>"

theorem pool_usage_exact_witness:
  "\<exists>u s' counted. getPoolResourceUsage sampleEnv samplePool (startState busyWorld) = (Inr u, s') \<and>
    pu_totalCPUMilli u = 4000 \<and> pu_allocatedCPUMilli u = 100 \<and> i64 (sum_list (map reqCPU counted)) = 100"
proof -
  have tot: "map_sum id (\<lambda>u. (pu_totalCPUMilli u, pu_allocatedCPUMilli u))
      (fst (getPoolResourceUsage sampleEnv samplePool (startState busyWorld))) = Inr (4000, 100)"
    by code_simp
  then obtain u s' where e: "getPoolResourceUsage sampleEnv samplePool (startState busyWorld) = (Inr u, s')"
    by (cases "getPoolResourceUsage sampleEnv samplePool (startState busyWorld)"; cases "fst (getPoolResourceUsage sampleEnv samplePool (startState busyWorld))") auto
  from pool_usage_exact [OF e] e tot show ?thesis by auto
qed

text \<open>The unschedulable pods are exactly the listed pods that are pending, are not owned by a
  DaemonSet and carry the scheduler's Unschedulable condition.\<close>

theorem unschedulable_pods_exact:
  assumes "getUnschedulablePods E s = (Inr pods, s')"
  shows "\<exists>listed. trace s' = trace s @ [ECsListPods ''spec.nodeName'' [] (Inr listed)] \<and>
    (\<forall>p. p \<in> set pods \<longleftrightarrow> p \<in> set listed \<and> pd_phase p = PodPending \<and> \<not> isDaemonSetPod p \<and>
       list_ex isUnschedulable (pd_conditions p))"
  using assms
  by (auto simp: getUnschedulablePods_def call_def collectUnschedulable_iff split: prod.splits sum.splits)

theorem unschedulable_pods_exact_witness:
  "\<exists>s' listed. getUnschedulablePods sampleEnv (startState ((emptyWorld 0)\<lparr>sw_pods := [samplePod ''p'' 1 1]\<rparr>)) =
     (Inr [samplePod ''p'' 1 1], s') \<and>
   trace s' = trace (startState ((emptyWorld 0)\<lparr>sw_pods := [samplePod ''p'' 1 1]\<rparr>))
     @ [ECsListPods ''spec.nodeName'' [] (Inr listed)] \<and> samplePod ''p'' 1 1 \<in> set listed"
proof -
  let ?s = "startState ((emptyWorld 0)\<lparr>sw_pods := [samplePod ''p'' 1 1]\<rparr>)"
  have "fst (getUnschedulablePods sampleEnv ?s) = Inr [samplePod ''p'' 1 1]" by code_simp
  then obtain s' where e: "getUnschedulablePods sampleEnv ?s = (Inr [samplePod ''p'' 1 1], s')"
    by (metis prod.collapse)
  from unschedulable_pods_exact [OF e] e show ?thesis by auto
qed

end
