(* ===== verification/Pool_Matching.thy ===== *)
theory Pool_Matching
  imports Kube "HOL-Library.Multiset"
begin

text \<open>
  Which unschedulable pods a pool scales up for: \<open>filterPodsForPool\<close> and the label, selector
  and affinity tests below it, from \<open>internal/controller/nodepool_controller.go\<close>. Reading
  \<open>expr.Values[0]\<close> of a \<open>Gt\<close> or \<open>Lt\<close> expression without values is a panic of the
  source and of the model.
\<close>

section \<open>The code\<close>

definition buildPoolLabelSet :: "pool \<Rightarrow> gomap" where
  "buildPoolLabelSet pl =
     mapPutAll (ps_templateLabels (pl_spec pl))
       (if ps_poolLabelKey (pl_spec pl) \<noteq> [] then [(ps_poolLabelKey (pl_spec pl), pl_name pl)] else [])"

definition poolRequiresLabel :: "pool \<Rightarrow> string \<Rightarrow> bool" where
  "poolRequiresLabel pl key =
     (if key = ps_poolLabelKey (pl_spec pl) then True
      else map_of (ps_templateLabels (pl_spec pl)) key \<noteq> None)"

fun containsString :: "string list \<Rightarrow> string \<Rightarrow> bool" where
  "containsString [] target = False"
| "containsString (v # vs) target = (if v = target then True else containsString vs target)"

text \<open>One match expression: whether the loop of \<open>nodeSelectorTermMatches\<close> passes it.\<close>

definition compareLabel :: "sel_operator \<Rightarrow> string list \<Rightarrow> string \<Rightarrow> bool outcome" where
  "compareLabel oper vals v = (case parseInt v of
     None \<Rightarrow> Ret False
   | Some labelVal \<Rightarrow> (case vals of
       [] \<Rightarrow> Panic ''index out of range''
     | x # _ \<Rightarrow> (case parseInt x of
         None \<Rightarrow> Ret False
       | Some reqVal \<Rightarrow>
           (if oper = OpGt \<and> labelVal \<le> reqVal then Ret False
            else if oper = OpLt \<and> reqVal \<le> labelVal then Ret False
            else Ret True))))"

definition exprMatches :: "gomap \<Rightarrow> sel_requirement \<Rightarrow> bool outcome" where
  "exprMatches labels e = (case se_operator e of
     OpIn \<Rightarrow> Ret (case map_of labels (se_key e) of None \<Rightarrow> False | Some v \<Rightarrow> containsString (se_values e) v)
   | OpNotIn \<Rightarrow> Ret (case map_of labels (se_key e) of None \<Rightarrow> True | Some v \<Rightarrow> \<not> containsString (se_values e) v)
   | OpExists \<Rightarrow> Ret (map_of labels (se_key e) \<noteq> None)
   | OpDoesNotExist \<Rightarrow> Ret (map_of labels (se_key e) = None)
   | OpGt \<Rightarrow> (case map_of labels (se_key e) of None \<Rightarrow> Ret False | Some v \<Rightarrow> compareLabel OpGt (se_values e) v)
   | OpLt \<Rightarrow> (case map_of labels (se_key e) of None \<Rightarrow> Ret False | Some v \<Rightarrow> compareLabel OpLt (se_values e) v)
   | OpOther _ \<Rightarrow> Ret True)"

fun termLoop :: "pool \<Rightarrow> gomap \<Rightarrow> bool \<Rightarrow> sel_term \<Rightarrow> (bool \<times> bool) outcome" where
  "termLoop pl labels requiresPool [] = Ret (True, requiresPool)"
| "termLoop pl labels requiresPool (e # es) = (case exprMatches labels e of
     Panic m \<Rightarrow> Panic m
   | Ret ok \<Rightarrow>
       (if \<not> ok then Ret (False, False)
        else termLoop pl labels (if poolRequiresLabel pl (se_key e) then True else requiresPool) es))"

definition nodeSelectorTermMatches :: "sel_term \<Rightarrow> pool \<Rightarrow> gomap \<Rightarrow> (bool \<times> bool) outcome" where
  "nodeSelectorTermMatches term pl labels = termLoop pl labels False term"

text \<open>The \<open>range\<close> over the pod's node selector; \<open>None\<close> is the early return.\<close>

fun selectorLoop :: "pool \<Rightarrow> gomap \<Rightarrow> bool \<Rightarrow> gomap \<Rightarrow> bool option" where
  "selectorLoop pl labels requiresPool [] = Some requiresPool"
| "selectorLoop pl labels requiresPool ((k, v) # sel) =
     (if map_of labels k \<noteq> Some v then None
      else selectorLoop pl labels (if poolRequiresLabel pl k then True else requiresPool) sel)"

text \<open>The first matching affinity term, with what it says about requiring the pool.\<close>

fun firstMatchingTerm :: "pool \<Rightarrow> gomap \<Rightarrow> sel_term list \<Rightarrow> bool option outcome" where
  "firstMatchingTerm pl labels [] = Ret None"
| "firstMatchingTerm pl labels (t # ts) = (case nodeSelectorTermMatches t pl labels of
     Panic m \<Rightarrow> Panic m
   | Ret (ok, req) \<Rightarrow> (if ok then Ret (Some req) else firstMatchingTerm pl labels ts))"

definition requiredTerms :: "pod \<Rightarrow> sel_term list" where
  "requiredTerms p = (case pd_affinity p of
     None \<Rightarrow> []
   | Some None \<Rightarrow> []
   | Some (Some None) \<Rightarrow> []
   | Some (Some (Some terms)) \<Rightarrow> terms)"

definition podMatchesPool :: "pod \<Rightarrow> pool \<Rightarrow> gomap \<Rightarrow> (bool \<times> bool) outcome" where
  "podMatchesPool p pl labels = (case selectorLoop pl labels False (pd_nodeSelector p) of
     None \<Rightarrow> Ret (False, False)
   | Some requiresPool \<Rightarrow>
       (if requiredTerms p = [] then Ret (True, requiresPool)
        else (case firstMatchingTerm pl labels (requiredTerms p) of
          Panic m \<Rightarrow> Panic m
        | Ret None \<Rightarrow> Ret (False, False)
        | Ret (Some termRequires) \<Rightarrow> Ret (True, requiresPool \<or> termRequires))))"

fun filterLoop :: "pool \<Rightarrow> gomap \<Rightarrow> pod list \<Rightarrow> pod list outcome" where
  "filterLoop pl labels [] = Ret []"
| "filterLoop pl labels (p # ps) = (case podMatchesPool p pl labels of
     Panic m \<Rightarrow> Panic m
   | Ret (matches, requires) \<Rightarrow> (case filterLoop pl labels ps of
       Panic m \<Rightarrow> Panic m
     | Ret rest \<Rightarrow> Ret (if matches \<and> requires then p # rest else rest)))"

definition filterPodsForPool :: "pod list \<Rightarrow> pool \<Rightarrow> pod list outcome" where
  "filterPodsForPool pods pl = filterLoop pl (buildPoolLabelSet pl) pods"

section \<open>What the tests mean\<close>

text \<open>
  The semantics of a selector expression over a label set, as Kubernetes documents the operators.
\<close>

definition exprHolds :: "(string \<rightharpoonup> string) \<Rightarrow> sel_requirement \<Rightarrow> bool" where
  "exprHolds L e = (case se_operator e of
     OpIn \<Rightarrow> \<exists>v. L (se_key e) = Some v \<and> v \<in> set (se_values e)
   | OpNotIn \<Rightarrow> \<not> (\<exists>v. L (se_key e) = Some v \<and> v \<in> set (se_values e))
   | OpExists \<Rightarrow> se_key e \<in> dom L
   | OpDoesNotExist \<Rightarrow> se_key e \<notin> dom L
   | OpGt \<Rightarrow> \<exists>v a b. L (se_key e) = Some v \<and> parseInt v = Some a \<and>
        se_values e \<noteq> [] \<and> parseInt (hd (se_values e)) = Some b \<and> b < a
   | OpLt \<Rightarrow> \<exists>v a b. L (se_key e) = Some v \<and> parseInt v = Some a \<and>
        se_values e \<noteq> [] \<and> parseInt (hd (se_values e)) = Some b \<and> a < b
   | OpOther _ \<Rightarrow> True)"

text \<open>The API server's validation: \<open>Gt\<close> and \<open>Lt\<close> carry a value.\<close>

definition exprValid :: "sel_requirement \<Rightarrow> bool" where
  "exprValid e \<longleftrightarrow> (se_operator e = OpGt \<or> se_operator e = OpLt \<longrightarrow> se_values e \<noteq> [])"

definition podValid :: "pod \<Rightarrow> bool" where
  "podValid p \<longleftrightarrow> list_all (list_all exprValid) (requiredTerms p)"

lemma containsString_iff [simp]: "containsString vs t \<longleftrightarrow> t \<in> set vs"
  by (induction vs) auto

lemma exprMatches_holds:
  assumes "exprValid e"
  shows "exprMatches labels e = Ret (exprHolds (map_of labels) e)"
  using assms
  by (cases "se_operator e"; cases "map_of labels (se_key e)")
    (auto simp: exprMatches_def exprHolds_def exprValid_def compareLabel_def dom_def
      split: option.split list.split)

lemma termLoop_spec:
  "list_all exprValid es \<Longrightarrow> termLoop pl labels req es =
     Ret (if list_all (exprHolds (map_of labels)) es
          then (True, req \<or> list_ex (\<lambda>e. poolRequiresLabel pl (se_key e)) es) else (False, False))"
  by (induction es arbitrary: req) (auto simp: exprMatches_holds)

definition termRequires :: "pool \<Rightarrow> sel_term \<Rightarrow> bool" where
  "termRequires pl t = list_ex (\<lambda>e. poolRequiresLabel pl (se_key e)) t"

lemma nodeSelectorTermMatches_spec:
  "list_all exprValid t \<Longrightarrow> nodeSelectorTermMatches t pl labels =
     Ret (list_all (exprHolds (map_of labels)) t,
          list_all (exprHolds (map_of labels)) t \<and> termRequires pl t)"
  by (simp add: nodeSelectorTermMatches_def termLoop_spec termRequires_def)

lemma firstMatchingTerm_spec:
  "list_all (list_all exprValid) ts \<Longrightarrow> firstMatchingTerm pl labels ts =
     Ret (map_option (termRequires pl) (find (list_all (exprHolds (map_of labels))) ts))"
  by (induction ts) (auto simp: nodeSelectorTermMatches_spec)

lemma selectorLoop_spec:
  "selectorLoop pl labels req sel =
     (if list_all (\<lambda>(k, v). map_of labels k = Some v) sel
      then Some (req \<or> list_ex (\<lambda>(k, v). poolRequiresLabel pl k) sel) else None)"
  by (induction pl labels req sel rule: selectorLoop.induct) auto

text \<open>The meaning of \<open>podMatchesPool\<close> and of the pool filter.\<close>

definition podFits :: "pool \<Rightarrow> (string \<rightharpoonup> string) \<Rightarrow> pod \<Rightarrow> bool" where
  "podFits pl L p \<longleftrightarrow> list_all (\<lambda>(k, v). L k = Some v) (pd_nodeSelector p) \<and>
     (requiredTerms p = [] \<or> list_ex (list_all (exprHolds L)) (requiredTerms p))"

definition podTargets :: "pool \<Rightarrow> (string \<rightharpoonup> string) \<Rightarrow> pod \<Rightarrow> bool" where
  "podTargets pl L p \<longleftrightarrow> list_ex (\<lambda>(k, v). poolRequiresLabel pl k) (pd_nodeSelector p) \<or>
     (\<exists>t. find (list_all (exprHolds L)) (requiredTerms p) = Some t \<and> termRequires pl t)"

lemma find_None_list_ex: "find P xs = None \<longleftrightarrow> \<not> list_ex P xs"
  by (auto simp: find_None_iff list_ex_iff)

lemma podMatchesPool_spec:
  assumes "podValid p"
  shows "podMatchesPool p pl labels =
    Ret (podFits pl (map_of labels) p,
         podFits pl (map_of labels) p \<and> podTargets pl (map_of labels) p)"
proof (cases "find (list_all (exprHolds (map_of labels))) (requiredTerms p)")
  case None
  then have "\<not> list_ex (list_all (exprHolds (map_of labels))) (requiredTerms p)"
    by (simp add: find_None_list_ex)
  with None assms show ?thesis
    by (auto simp: podMatchesPool_def selectorLoop_spec firstMatchingTerm_spec podValid_def
        podFits_def podTargets_def)
next
  case (Some t)
  then have "list_ex (list_all (exprHolds (map_of labels))) (requiredTerms p)"
    using find_None_list_ex by (metis option.distinct(1))
  with Some assms show ?thesis
    by (auto simp: podMatchesPool_def selectorLoop_spec firstMatchingTerm_spec podValid_def
        podFits_def podTargets_def)
qed

lemma filterLoop_spec:
  "list_all podValid ps \<Longrightarrow> filterLoop pl labels ps =
     Ret (filter (\<lambda>p. podFits pl (map_of labels) p \<and> podTargets pl (map_of labels) p) ps)"
  by (induction ps) (auto simp: podMatchesPool_spec)

definition poolLabels :: "pool \<Rightarrow> string \<rightharpoonup> string" where
  "poolLabels pl = (if ps_poolLabelKey (pl_spec pl) \<noteq> [] then [ps_poolLabelKey (pl_spec pl) \<mapsto> pl_name pl]
     else Map.empty) ++ map_of (ps_templateLabels (pl_spec pl))"

lemma map_of_buildPoolLabelSet:
  "distinct (map fst (ps_templateLabels (pl_spec pl))) \<Longrightarrow> map_of (buildPoolLabelSet pl) = poolLabels pl"
  by (simp add: buildPoolLabelSet_def poolLabels_def map_of_mapPutAll)

section \<open>Properties\<close>

text \<open>C16. The pods a pool scales up for are exactly those that its labels (the pool label, overridden
  by the template labels) satisfy in every node-selector entry and in one required affinity term,
  and that name one of these labels themselves; for pods that pass API validation the filter does
  not panic, and it keeps their order.\<close>

theorem filterPodsForPool_exact:
  assumes "list_all podValid pods" and "distinct (map fst (ps_templateLabels (pl_spec pl)))"
  shows "filterPodsForPool pods pl =
    Ret (filter (\<lambda>p. podFits pl (poolLabels pl) p \<and> podTargets pl (poolLabels pl) p) pods)"
  using assms by (simp add: filterPodsForPool_def filterLoop_spec map_of_buildPoolLabelSet)

text \<open>A pod without constraints, one that targets the pool by its empty-valued template label, and
  one that targets another pool.\<close>

definition matchPods :: "pod list" where
  "matchPods = [(samplePod ''free'' 1 1)\<lparr>pd_nodeSelector := []\<rparr>,
     (samplePod ''worker'' 1 1)\<lparr>pd_nodeSelector := [],
        pd_affinity := Some (Some (Some [[\<lparr>se_key = ''node-role.kubernetes.io/worker'', se_operator = OpIn,
          se_values = [[]]\<rparr>]]))\<rparr>,
     (samplePod ''other'' 1 1)\<lparr>pd_nodeSelector := [(''topology.kubenodesmith.io/pool'', ''gpu'')]\<rparr>]"

theorem filterPodsForPool_exact_witness:
  "filterPodsForPool matchPods samplePool = Ret [matchPods ! 1] \<and>
   filter (\<lambda>p. podFits samplePool (poolLabels samplePool) p \<and> podTargets samplePool (poolLabels samplePool) p)
     matchPods = [matchPods ! 1]"
proof -
  have v: "list_all podValid matchPods"
    by (simp add: matchPods_def podValid_def requiredTerms_def exprValid_def samplePod_def)
  have d: "distinct (map fst (ps_templateLabels (pl_spec samplePool)))"
    by (simp add: samplePool_def)
  have "filterPodsForPool matchPods samplePool = Ret [matchPods ! 1]" by code_simp
  with filterPodsForPool_exact [OF v d] show ?thesis by simp
qed

text \<open>Go ranges over a pod's node selector in a random order; neither the verdict nor the
  requires flag of \<open>podMatchesPool\<close> depends on it.\<close>

theorem podMatchesPool_order_independent:
  assumes "mset sel = mset (pd_nodeSelector p)"
  shows "podMatchesPool (p\<lparr>pd_nodeSelector := sel\<rparr>) pl labels = podMatchesPool p pl labels"
proof -
  have "set sel = set (pd_nodeSelector p)" using assms by (rule mset_eq_setD)
  then show ?thesis
    by (simp add: podMatchesPool_def selectorLoop_spec list_all_iff list_ex_iff requiredTerms_def)
qed

theorem podMatchesPool_order_independent_witness:
  "mset [(''b'', ''2''), (''a'', ''1'')] = mset [(''a'', ''1''), (''b'', ''2'')] \<and>
   podMatchesPool ((samplePod ''p'' 1 1)\<lparr>pd_nodeSelector := [(''b'', ''2''), (''a'', ''1'')]\<rparr>) samplePool
     [(''a'', ''1''), (''b'', ''2'')] =
   podMatchesPool ((samplePod ''p'' 1 1)\<lparr>pd_nodeSelector := [(''a'', ''1''), (''b'', ''2'')]\<rparr>) samplePool
     [(''a'', ''1''), (''b'', ''2'')]"
proof -
  let ?p = "(samplePod ''p'' 1 1)\<lparr>pd_nodeSelector := [(''a'', ''1''), (''b'', ''2'')]\<rparr>"
  have m: "mset [(''b'', ''2''), (''a'', ''1'')] = mset (pd_nodeSelector ?p)" by (simp add: add_mset_commute)
  show ?thesis using m podMatchesPool_order_independent [OF m, of samplePool "[(''a'', ''1''), (''b'', ''2'')]"]
    by simp
qed

end
