(* ===== verification/Go_Float.thy ===== *)
theory Go_Float
  imports Complex_Main KNS_Prelude
begin

text \<open>
  The \<open>float64\<close> detour of \<open>planCapacity\<close>: \<open>int64(math.Ceil(float64(x) / d))\<close>. A finite
  \<open>float64\<close> is the rational it denotes; a conversion and a division round to the nearest
  multiple of the unit in the last place, ties to even, with 53 significant bits (the exponent
  range plays no role for the magnitudes an \<open>int64\<close> quotient can have).
\<close>

section \<open>Rounding\<close>

fun bits :: "nat \<Rightarrow> nat" where
  "bits n = (if n = 0 then 0 else Suc (bits (n div 2)))"

declare bits.simps [simp del]

text \<open>The floor of the binary logarithm of \<open>n / d\<close>.\<close>

definition flog2 :: "int \<Rightarrow> int \<Rightarrow> int" where
  "flog2 n d = (let c = int (bits (nat n)) - int (bits (nat d)) in
     if (if 0 \<le> c then d * 2 ^ nat c \<le> n else d \<le> n * 2 ^ nat (- c)) then c else c - 1)"

text \<open>\<open>a / b\<close> to the nearest integer, ties to even.\<close>

definition rne :: "int \<Rightarrow> int \<Rightarrow> int" where
  "rne a b = (let q = a div b; r = a mod b in
     if 2 * r < b then q else if b < 2 * r then q + 1 else if even q then q else q + 1)"

definition roundPos :: "int \<Rightarrow> int \<Rightarrow> rat" where
  "roundPos n d = (let e = flog2 n d - 52 in
     if 0 \<le> e then of_int (rne n (d * 2 ^ nat e) * 2 ^ nat e)
     else of_int (rne (n * 2 ^ nat (- e)) d) / of_int (2 ^ nat (- e)))"

definition fl :: "rat \<Rightarrow> rat" where
  "fl q = (case quotient_of q of (n, d) \<Rightarrow>
     if n = 0 then 0 else if 0 < n then roundPos n d else - roundPos (- n) d)"

text \<open>\<open>int64(math.Ceil(float64(x) / d))\<close> for a constant \<open>d\<close> that is itself a \<open>float64\<close>.\<close>

definition ceilQuot :: "int \<Rightarrow> int \<Rightarrow> int" where
  "ceilQuot x d = i64 \<lceil>fl (fl (of_int x) / of_int d)\<rceil>"

section \<open>Exactness\<close>

lemma bits_bounds: "0 < n \<Longrightarrow> 2 ^ (bits n - 1) \<le> n \<and> n < 2 ^ bits n \<and> 0 < bits n"
proof (induction n rule: bits.induct)
  case (1 n)
  show ?case
  proof (cases "n div 2 = 0")
    case True
    with 1 have "n = 1" by auto
    then show ?thesis by (simp add: bits.simps)
  next
    case False
    with 1 have IH: "2 ^ (bits (n div 2) - 1) \<le> n div 2" "n div 2 < 2 ^ bits (n div 2)" "0 < bits (n div 2)"
      by auto
    have b: "bits n = Suc (bits (n div 2))" using 1 by (subst bits.simps) simp
    have "(2::nat) ^ bits (n div 2) = 2 * 2 ^ (bits (n div 2) - 1)"
      using IH(3) by (metis Suc_diff_1 power_Suc)
    moreover have "n = 2 * (n div 2) + n mod 2" "n mod 2 < 2" by simp_all
    ultimately show ?thesis using IH unfolding b by (simp only: power_Suc diff_Suc_1) linarith
  qed
qed

lemma flog2_upper:
  assumes "0 < n" "0 < d" "n < d * 2 ^ Suc t"
  shows "flog2 n d \<le> int t"
proof (rule ccontr)
  assume neg: "\<not> flog2 n d \<le> int t"
  let ?a = "bits (nat n)" and ?b = "bits (nat d)"
  define c where "c = int ?a - int ?b"
  have bn: "2 ^ (?a - 1) \<le> nat n" "0 < ?a" and bd: "nat d < 2 ^ ?b"
    using bits_bounds [of "nat n"] bits_bounds [of "nat d"] assms(1,2) by auto
  have "int (2 ^ (?a - 1)) \<le> int (nat n)" "int (nat d) < int (2 ^ ?b)"
    using bn(1) bd by (simp_all only: of_nat_le_iff of_nat_less_iff)
  then have n_ge: "2 ^ (?a - 1) \<le> n" and d_lt: "d < 2 ^ ?b"
    using assms(1,2) by simp_all
  show False
  proof (cases "flog2 n d = c")
    case True
    with neg have c: "int t < c" by simp
    then have "d * 2 ^ nat c \<le> n"
      using True unfolding flog2_def Let_def c_def [symmetric] by (auto split: if_splits)
    moreover have "d * 2 ^ Suc t \<le> d * 2 ^ nat c"
      using c assms(2) by (intro mult_left_mono power_increasing) auto
    ultimately show False using assms(3) by linarith
  next
    case False
    then have "flog2 n d = c - 1"
      unfolding flog2_def Let_def c_def [symmetric] by (auto split: if_splits)
    with neg have c: "int t + 1 < c" by simp
    then have ab: "?a - 1 = ?b + (nat c - 1)" "Suc t \<le> nat c - 1" by (auto simp: c_def)
    have "d * 2 ^ Suc t \<le> d * 2 ^ (nat c - 1)"
      using ab(2) assms(2) by (intro mult_left_mono power_increasing) auto
    also have "\<dots> \<le> 2 ^ ?b * 2 ^ (nat c - 1)"
      using d_lt by (intro mult_right_mono) auto
    also have "\<dots> = 2 ^ (?a - 1)" unfolding ab(1) by (rule power_add [symmetric])
    finally show False using n_ge assms(3) by linarith
  qed
qed

text \<open>The exact ceiling of \<open>x / d\<close>.\<close>

definition ceilDiv :: "int \<Rightarrow> int \<Rightarrow> int" where
  "ceilDiv x d = (x + d - 1) div d"

lemma ceilDiv_bounds:
  assumes "0 < d"
  shows "x \<le> ceilDiv x d * d" "ceilDiv x d * d < x + d"
  using assms mod_div_mult_eq [of "x + d - 1" d] pos_mod_bound [OF assms, of "x + d - 1"]
    pos_mod_sign [OF assms, of "x + d - 1"] unfolding ceilDiv_def by linarith+

lemma rne_le: "0 < b \<Longrightarrow> a \<le> b * k \<Longrightarrow> rne a b \<le> k"
proof -
  assume b: "0 < b" and a: "a \<le> b * k"
  have qr: "a = b * (a div b) + a mod b" "0 \<le> a mod b" "a mod b < b" using b by auto
  show "rne a b \<le> k"
  proof (cases "a div b < k")
    case True
    then show ?thesis by (simp add: rne_def Let_def)
  next
    case False
    with qr a have "b * k \<le> b * (a div b)" using b by simp
    with qr a have "a mod b = 0" "b * (a div b) = b * k" by linarith+
    then show ?thesis using b by (simp add: rne_def)
  qed
qed

lemma rne_gt: "0 < b \<Longrightarrow> b < 2 * (a - b * k) \<Longrightarrow> k < rne a b"
proof -
  assume b: "0 < b" and h: "b < 2 * (a - b * k)"
  have qr: "a = b * (a div b) + a mod b" "0 \<le> a mod b" "a mod b < b" using b by auto
  have "b * k \<le> a" using order.strict_trans [OF b h] by simp
  then have "(b * k) div b \<le> a div b" using b by (rule zdiv_mono1)
  then have "k \<le> a div b" using b by simp
  show "k < rne a b"
  proof (cases "k = a div b")
    case True
    then have "b < 2 * (a mod b)" using h by (simp add: minus_mult_div_eq_mod)
    then show ?thesis using True by (simp add: rne_def)
  next
    case False
    with \<open>k \<le> a div b\<close> show ?thesis by (simp add: rne_def Let_def)
  qed
qed

lemma rne_1: "rne a 1 = a"
  by (simp add: rne_def)

text \<open>An integer of at most 53 bits is its own \<open>float64\<close>.\<close>

lemma fl_of_int:
  assumes "0 \<le> x" "x < 2 ^ 53"
  shows "fl (of_int x) = of_int x"
proof (cases "x = 0")
  case False
  with assms have "flog2 x 1 \<le> 52" using flog2_upper [of x 1 52] by simp
  with False assms show ?thesis
    by (auto simp: fl_def quotient_of_int roundPos_def Let_def rne_1)
qed (simp add: fl_def)

lemma roundPos_ceiling:
  assumes "0 < n" "0 < d" "flog2 n d < 52" "d < 2 * 2 ^ nat (52 - flog2 n d)"
  shows "\<lceil>roundPos n d\<rceil> = \<lceil>of_int n / (of_int d :: rat)\<rceil>"
proof -
  define s where "s = nat (52 - flog2 n d)"
  define k where "k = \<lceil>of_int n / (of_int d :: rat)\<rceil>"
  have kk: "of_int (k - 1) < of_int n / (of_int d :: rat)" "of_int n / (of_int d :: rat) \<le> of_int k"
    unfolding k_def by linarith+
  have dpos: "(0::rat) < of_int d" using assms(2) by simp
  have "of_int (k - 1) * of_int d < (of_int n :: rat)" "(of_int n :: rat) \<le> of_int k * of_int d"
    using kk dpos by (simp_all add: pos_less_divide_eq pos_divide_le_eq)
  then have "of_int ((k - 1) * d) < (of_int n :: rat)" "(of_int n :: rat) \<le> of_int (k * d)" by simp_all
  then have kd: "(k - 1) * d < n" "n \<le> k * d" by (simp_all only: of_int_less_iff of_int_le_iff)
  let ?m = "rne (n * 2 ^ s) d"
  have r: "roundPos n d = of_int ?m / of_int (2 ^ s)"
    using assms(3) by (simp add: roundPos_def Let_def s_def)
  have "n * 2 ^ s \<le> d * (k * 2 ^ s)" using kd(2) by (simp add: mult_right_mono ac_simps)
  then have up: "?m \<le> k * 2 ^ s" using assms(2) by (rule rne_le [rotated])
  have "1 * 2 ^ s \<le> (n - (k - 1) * d) * 2 ^ s" using kd(1) by (intro mult_right_mono) auto
  then have "2 ^ s \<le> n * 2 ^ s - d * ((k - 1) * 2 ^ s)" by (simp add: algebra_simps)
  then have "d < 2 * (n * 2 ^ s - d * ((k - 1) * 2 ^ s))" using assms(4) by (simp add: s_def [symmetric])
  then have lo: "(k - 1) * 2 ^ s < ?m" using assms(2) by (rule rne_gt [rotated])
  have "of_int ?m \<le> (of_int (k * 2 ^ s) :: rat)" "(of_int ((k - 1) * 2 ^ s) :: rat) < of_int ?m"
    using up lo by (simp_all only: of_int_le_iff of_int_less_iff)
  then have "of_int ?m / of_int (2 ^ s) \<le> (of_int k :: rat)" "(of_int (k - 1) :: rat) < of_int ?m / of_int (2 ^ s)"
    by (simp_all add: pos_divide_le_eq pos_less_divide_eq)
  then have "\<lceil>roundPos n d\<rceil> = k" unfolding r by (intro ceiling_unique) auto
  then show ?thesis by (simp add: k_def)
qed

lemma ceiling_div_int:
  assumes "0 < d"
  shows "\<lceil>of_int x / (of_int d :: rat)\<rceil> = ceilDiv x d"
proof -
  define k where "k = ceilDiv x d"
  have "(k - 1) * d < x" "x \<le> k * d"
    using ceilDiv_bounds [OF assms, of x] by (simp_all add: k_def algebra_simps)
  then have "of_int ((k - 1) * d) < (of_int x :: rat)" "(of_int x :: rat) \<le> of_int (k * d)"
    by (simp_all only: of_int_less_iff of_int_le_iff)
  then have "of_int (k - 1) < of_int x / (of_int d :: rat)" "of_int x / (of_int d :: rat) \<le> of_int k"
    using assms by (simp_all add: pos_less_divide_eq pos_divide_le_eq)
  then have "\<lceil>of_int x / (of_int d :: rat)\<rceil> = k" by (intro ceiling_unique) auto
  then show ?thesis by (simp add: k_def)
qed

text \<open>
  The quotient of a 53-bit integer by a small enough constant: the two roundings never carry the
  result across an integer.
\<close>

lemma ceilQuot_ceiling:
  assumes "0 \<le> x" "x < 2 ^ 53" "0 < d" "d \<le> 2 ^ t" "x < d * 2 ^ Suc (52 - t)" "0 < t" "t \<le> 52"
  shows "ceilQuot x d = ceilDiv x d"
proof -
  define q :: rat where "q = of_int x / of_int d"
  obtain n e where nd: "quotient_of q = (n, e)" by (metis prod.exhaust)
  have e: "0 < e" using nd by (rule quotient_of_denom_pos)
  have q_eq: "q = of_int n / of_int e" using nd by (rule quotient_of_div)
  have "\<lceil>fl q\<rceil> = \<lceil>q\<rceil>"
  proof (cases "x = 0")
    case True
    then show ?thesis by (simp add: q_def fl_def)
  next
    case False
    then have "0 < q" using assms(1,3) by (simp add: q_def)
    then have n: "0 < n" using q_eq e by (simp add: zero_less_divide_iff)
    have "of_int x * of_int e = (of_int n * of_int d :: rat)"
      using q_eq e assms(3) by (simp add: q_def frac_eq_eq)
    then have xe: "x * e = n * d" by (metis of_int_eq_iff of_int_mult)
    then have "e dvd n * d" by (metis dvd_triv_right)
    then have "e dvd d"
      using quotient_of_coprime [OF nd] by (simp add: coprime_commute coprime_dvd_mult_right_iff)
    then have e_le: "e \<le> 2 ^ t" using assms(3,4) by (meson order_trans zdvd_imp_le)
    have "n * d < e * 2 ^ Suc (52 - t) * d"
      using assms(5) e unfolding xe [symmetric] by (simp add: ac_simps)
    then have "n < e * 2 ^ Suc (52 - t)" using assms(3) by simp
    then have lg: "flog2 n e \<le> int (52 - t)" by (rule flog2_upper [OF n e])
    then have "t \<le> nat (52 - flog2 n e)" using assms(7) by simp
    then have "(2::int) ^ t \<le> 2 ^ nat (52 - flog2 n e)" by (rule power_increasing) simp
    with e_le e have "e < 2 * 2 ^ nat (52 - flog2 n e)" by linarith
    with lg assms(6,7) have "\<lceil>roundPos n e\<rceil> = \<lceil>q\<rceil>"
      unfolding q_eq by (intro roundPos_ceiling [OF n e]) auto
    then show ?thesis using n by (simp add: fl_def nd)
  qed
  moreover have "in64 (ceilDiv x d)"
  proof -
    have b: "x \<le> ceilDiv x d * d" "ceilDiv x d * d < x + d" using ceilDiv_bounds [OF assms(3)] by auto
    then have "(-1) * d < ceilDiv x d * d" "ceilDiv x d * d < (x + 1) * d"
      using assms(1,3) mult_left_mono [of 1 d x] by (simp_all add: algebra_simps)
    then have "-1 < ceilDiv x d" "ceilDiv x d < x + 1"
      using assms(3) by (simp_all only: mult_less_cancel_right_pos)
    then show ?thesis using assms(2) by (simp add: in64_def)
  qed
  ultimately show ?thesis
    using assms(1,2,3) by (simp add: ceilQuot_def fl_of_int ceiling_div_int q_def)
qed

end
