(* ===== verification/Capacity.thy ===== *)
theory Capacity
  imports Pool_Matching Go_Float
begin

text \<open>
  The scale-up arithmetic: \<open>countInflightClaims\<close> of \<open>internal/controller/claims.go\<close>, and
  from \<open>nodepool_controller.go\<close> the node template, the buckets of free capacity, the
  first-fit plan and the pool limits. The locale \<open>first_fit\<close> is the contract of a first-fit
  packer; the plan's own operations are interpreted in it.
\<close>

section \<open>Data\<close>

record node_capacity =
  cap_cpuMilli :: int
  cap_memBytes :: int

record capacity_bucket =
  bk_remainingCPU :: int
  bk_remainingMem :: int

record claim_resources =
  cr_cpuCores :: int
  cr_memoryMiB :: int

record pod_demand =
  dm_pod :: pod
  dm_cpuMilli :: int
  dm_memBytes :: int

section \<open>Inflight claims\<close>

definition claimReady :: "'w env \<Rightarrow> claim \<Rightarrow> bool" where
  "claimReady E c = (case libFind E (st_conditions (cl_status c)) conditionTypeReady of
     None \<Rightarrow> False | Some rc \<Rightarrow> cond_status rc = CTrue)"

definition mibToBytes :: "int \<Rightarrow> int" where
  "mibToBytes m = mul64 (mul64 m 1024) 1024"

definition coresToMilli :: "int \<Rightarrow> int" where
  "coresToMilli c = mul64 c 1000"

text \<open>The guards of the loop: whether a claim is counted.\<close>

definition inflight :: "'w env \<Rightarrow> time \<Rightarrow> string \<Rightarrow> claim \<Rightarrow> bool" where
  "inflight E validSince poolName c =
     (if cs_poolRef (cl_spec c) \<noteq> poolName then False
      else if \<not> timePtrIsZero (om_deletion (cl_meta c)) then False
      else if claimReady E c then False
      else if \<not> timeIsZero (om_creation (cl_meta c)) \<and> om_creation (cl_meta c) < validSince then False
      else True)"

fun inflightLoop :: "'w env \<Rightarrow> time \<Rightarrow> string \<Rightarrow> claim list \<Rightarrow> int \<times> int \<times> int \<Rightarrow> int \<times> int \<times> int" where
  "inflightLoop E since name [] acc = acc"
| "inflightLoop E since name (c # cs) (n, cpu, mem) =
     (if inflight E since name c
      then inflightLoop E since name cs (case cs_requirements (cl_spec c) of
          None \<Rightarrow> (n + 1, cpu, mem)
        | Some rq \<Rightarrow> (n + 1,
            if 0 < rq_cpuCores rq then add64 cpu (coresToMilli (rq_cpuCores rq)) else cpu,
            if 0 < rq_memoryMiB rq then add64 mem (mibToBytes (rq_memoryMiB rq)) else mem))
      else inflightLoop E since name cs (n, cpu, mem))"

definition countInflightClaims ::
  "'w env \<Rightarrow> time \<Rightarrow> pool option \<Rightarrow> claim list option \<Rightarrow> goerr + (int \<times> int \<times> int)" where
  "countInflightClaims E t pl claims = (case pl of
     None \<Rightarrow> Inl (errorf ''pool cannot be nil when counting inflight claims'')
   | Some p \<Rightarrow> (case claims of
       None \<Rightarrow> Inr (0, 0, 0)
     | Some cs \<Rightarrow> Inr (inflightLoop E (t - 15 * minute) (pl_name p) cs (0, 0, 0))))"

section \<open>Node template and buckets\<close>

definition nodeAllocatable :: "node \<Rightarrow> int \<times> int" where
  "nodeAllocatable n = (optVal (rl_cpuMilli (nd_allocatable n)), optVal (rl_memBytes (nd_allocatable n)))"

fun claimTemplate :: "string \<Rightarrow> claim list \<Rightarrow> node_capacity option" where
  "claimTemplate poolName [] = None"
| "claimTemplate poolName (c # cs) =
     (if cs_poolRef (cl_spec c) \<noteq> poolName then claimTemplate poolName cs
      else (case cs_requirements (cl_spec c) of
        None \<Rightarrow> claimTemplate poolName cs
      | Some rq \<Rightarrow>
          (if 0 < rq_cpuCores rq \<and> 0 < rq_memoryMiB rq
           then Some \<lparr>cap_cpuMilli = coresToMilli (rq_cpuCores rq), cap_memBytes = mibToBytes (rq_memoryMiB rq)\<rparr>
           else claimTemplate poolName cs)))"

fun podFallback :: "pod list \<Rightarrow> node_capacity \<Rightarrow> node_capacity" where
  "podFallback [] f = f"
| "podFallback (p # ps) f = (case getRequestedResources p of (cpu, mem) \<Rightarrow>
     podFallback ps \<lparr>cap_cpuMilli = (if cap_cpuMilli f < cpu then cpu else cap_cpuMilli f),
       cap_memBytes = (if cap_memBytes f < mem then mem else cap_memBytes f)\<rparr>)"

definition determineNodeCapacity :: "string \<Rightarrow> node list \<Rightarrow> claim list \<Rightarrow> pod list \<Rightarrow> node_capacity" where
  "determineNodeCapacity poolName nodes claims pods = (case nodes of
     n # _ \<Rightarrow> \<lparr>cap_cpuMilli = fst (nodeAllocatable n), cap_memBytes = snd (nodeAllocatable n)\<rparr>
   | [] \<Rightarrow> (case claimTemplate poolName claims of
       Some c \<Rightarrow> c
     | None \<Rightarrow> podFallback pods \<lparr>cap_cpuMilli = 0, cap_memBytes = 0\<rparr>))"

definition listPodsOnNode :: "'w env \<Rightarrow> string \<Rightarrow> 'w st \<Rightarrow> (goerr + pod list) \<times> 'w st" where
  "listPodsOnNode E nodeName s = (case csListPodsC E ''spec.nodeName'' nodeName s of
     (Inl e, s1) \<Rightarrow> (Inl e, s1)
   | (Inr ps, s1) \<Rightarrow> (Inr (filter (\<lambda>p.
       if isMirrorPod p then False
       else if om_deletion (pd_meta p) \<noteq> None then False
       else if isTerminalPod p then False
       else True) ps), s1))"

fun usedLoop :: "pod list \<Rightarrow> int \<times> int \<Rightarrow> int \<times> int" where
  "usedLoop [] acc = acc"
| "usedLoop (p # ps) (cpu, mem) = (case getRequestedResources p of
     (c, m) \<Rightarrow> usedLoop ps (add64 cpu c, add64 mem m))"

definition clampSub :: "int \<Rightarrow> int \<Rightarrow> int" where
  "clampSub alloc used = (if sub64 alloc used < 0 then 0 else sub64 alloc used)"

definition nodeBucket :: "node \<Rightarrow> pod list \<Rightarrow> capacity_bucket" where
  "nodeBucket n pods = (case (nodeAllocatable n, usedLoop pods (0, 0)) of
     ((allocCPU, allocMem), (usedCPU, usedMem)) \<Rightarrow>
       \<lparr>bk_remainingCPU = clampSub allocCPU usedCPU, bk_remainingMem = clampSub allocMem usedMem\<rparr>)"

fun buildNodeBuckets :: "'w env \<Rightarrow> node list \<Rightarrow> 'w st \<Rightarrow> (goerr + capacity_bucket list) \<times> 'w st" where
  "buildNodeBuckets E [] s = (Inr [], s)"
| "buildNodeBuckets E (n # ns) s = (case listPodsOnNode E (nd_name n) s of
     (Inl e, s1) \<Rightarrow> (Inl e, s1)
   | (Inr pods, s1) \<Rightarrow> (case buildNodeBuckets E ns s1 of
       (Inl e, s2) \<Rightarrow> (Inl e, s2)
     | (Inr bs, s2) \<Rightarrow> (Inr (nodeBucket n pods # bs), s2)))"

fun buildPendingClaimBuckets :: "'w env \<Rightarrow> claim list \<Rightarrow> string \<Rightarrow> capacity_bucket list" where
  "buildPendingClaimBuckets E [] poolName = []"
| "buildPendingClaimBuckets E (c # cs) poolName =
     (if cs_poolRef (cl_spec c) \<noteq> poolName then buildPendingClaimBuckets E cs poolName
      else if claimReady E c then buildPendingClaimBuckets E cs poolName
      else (case cs_requirements (cl_spec c) of
        None \<Rightarrow> buildPendingClaimBuckets E cs poolName
      | Some rq \<Rightarrow> \<lparr>bk_remainingCPU = coresToMilli (rq_cpuCores rq), bk_remainingMem = mibToBytes (rq_memoryMiB rq)\<rparr>
          # buildPendingClaimBuckets E cs poolName))"

section \<open>The plan\<close>

definition demandsOf :: "pod list \<Rightarrow> pod_demand list" where
  "demandsOf pods = filter (\<lambda>d. \<not> (dm_cpuMilli d = 0 \<and> dm_memBytes d = 0))
     (map (\<lambda>p. \<lparr>dm_pod = p, dm_cpuMilli = fst (getRequestedResources p),
        dm_memBytes = snd (getRequestedResources p)\<rparr>) pods)"

text \<open>\<open>sort.SliceStable\<close> by descending CPU.\<close>

definition sortDemands :: "pod_demand list \<Rightarrow> pod_demand list" where
  "sortDemands ds = sort_key (\<lambda>d. - dm_cpuMilli d) ds"

definition fitsBucket :: "pod_demand \<Rightarrow> capacity_bucket \<Rightarrow> bool" where
  "fitsBucket d b \<longleftrightarrow> dm_cpuMilli d \<le> bk_remainingCPU b \<and> dm_memBytes d \<le> bk_remainingMem b"

definition takeFrom :: "pod_demand \<Rightarrow> capacity_bucket \<Rightarrow> capacity_bucket" where
  "takeFrom d b = \<lparr>bk_remainingCPU = sub64 (bk_remainingCPU b) (dm_cpuMilli d),
     bk_remainingMem = sub64 (bk_remainingMem b) (dm_memBytes d)\<rparr>"

fun placeDemand :: "pod_demand \<Rightarrow> capacity_bucket list \<Rightarrow> capacity_bucket list option" where
  "placeDemand d [] = None"
| "placeDemand d (b # bs) =
     (if fitsBucket d b then Some (takeFrom d b # bs) else map_option ((#) b) (placeDemand d bs))"

text \<open>The capacity of a new machine for a demand that found no bucket.\<close>

definition freshBucket :: "node_capacity \<Rightarrow> pod_demand \<Rightarrow> capacity_bucket" where
  "freshBucket t d = \<lparr>
     bk_remainingCPU = (if cap_cpuMilli t < dm_cpuMilli d then dm_cpuMilli d else cap_cpuMilli t),
     bk_remainingMem = (if cap_memBytes t < dm_memBytes d then dm_memBytes d else cap_memBytes t)\<rparr>"

definition claimFor :: "capacity_bucket \<Rightarrow> claim_resources" where
  "claimFor b = \<lparr>cr_cpuCores = ceilQuot (bk_remainingCPU b) 1000,
     cr_memoryMiB = ceilQuot (bk_remainingMem b) (1024 * 1024)\<rparr>"

fun planLoop :: "node_capacity \<Rightarrow> pod_demand list \<Rightarrow> capacity_bucket list \<Rightarrow> claim_resources list" where
  "planLoop t [] bs = []"
| "planLoop t (d # ds) bs = (case placeDemand d bs of
     Some bs' \<Rightarrow> planLoop t ds bs'
   | None \<Rightarrow> claimFor (freshBucket t d) # planLoop t ds (bs @ [takeFrom d (freshBucket t d)]))"

definition planCapacity :: "pod list \<Rightarrow> capacity_bucket list \<Rightarrow> node_capacity \<Rightarrow> claim_resources list" where
  "planCapacity pods buckets template = planLoop template (sortDemands (demandsOf pods)) buckets"

section \<open>Limits\<close>

definition exceedsPoolLimits ::
  "pool_usage \<Rightarrow> pool_limits \<Rightarrow> int \<Rightarrow> int \<Rightarrow> int \<Rightarrow> int \<Rightarrow> bool \<times> string" where
  "exceedsPoolLimits usage limits pendingCPU pendingMem newCPU newMem =
     (let limitCPU = coresToMilli (lm_cpuCores limits);
          limitMem = mibToBytes (lm_memoryMiB limits);
          addCPU = add64 pendingCPU newCPU;
          addMem = add64 pendingMem newMem in
      if 0 < lm_cpuCores limits \<and> limitCPU < add64 (pu_totalCPUMilli usage) addCPU then
        (True, ''adding pending+new capacity of ~'' @ fmtD addCPU @
          '' CPU millicores would exceed pool limit of '' @ fmtD limitCPU @
          '' (current total: '' @ fmtD (pu_totalCPUMilli usage) @ '')'')
      else if 0 < lm_memoryMiB limits \<and> limitMem < add64 (pu_totalMemoryBytes usage) addMem then
        (True, ''adding pending+new capacity of ~'' @ fmtD addMem @
          '' bytes memory would exceed pool limit of '' @ fmtD limitMem @
          '' (current total: '' @ fmtD (pu_totalMemoryBytes usage) @ '')'')
      else (False, []))"

section \<open>First fit\<close>

text \<open>The load that an assignment of demands to bins puts on bin \<open>i\<close>.\<close>

definition load :: "('d \<Rightarrow> int) \<Rightarrow> nat list \<Rightarrow> 'd list \<Rightarrow> nat \<Rightarrow> int" where
  "load need asg ds i = sum_list (map (\<lambda>(j, d). if j = i then need d else 0) (zip asg ds))"

lemma load_Cons: "load need (j # asg) (d # ds) i = (if j = i then need d else 0) + load need asg ds i"
  by (simp add: load_def)

text \<open>
  A first-fit packer over bins of \<open>'k\<close>-indexed room: \<open>place\<close> takes the first bin that
  fits, \<open>plan\<close> opens a fresh bin and orders it (\<open>order\<close>) when none does. Its client may
  rely on the packing being realisable in the bins there were and the ones ordered.
\<close>

locale first_fit =
  fixes fits :: "'d \<Rightarrow> 'b \<Rightarrow> bool"
    and put :: "'d \<Rightarrow> 'b \<Rightarrow> 'b"
    and fresh :: "'d \<Rightarrow> 'b"
    and order :: "'b \<Rightarrow> 'c"
    and place :: "'d \<Rightarrow> 'b list \<Rightarrow> 'b list option"
    and plan :: "'d list \<Rightarrow> 'b list \<Rightarrow> 'c list"
    and need :: "'k \<Rightarrow> 'd \<Rightarrow> int"
    and room :: "'k \<Rightarrow> 'b \<Rightarrow> int"
    and ordered :: "'k \<Rightarrow> 'c \<Rightarrow> int"
    and good :: "'d \<Rightarrow> bool"
    and ok :: "'b \<Rightarrow> bool"
  assumes place_Nil: "place d [] = None"
    and place_Cons: "place d (b # bs) = (if fits d b then Some (put d b # bs) else map_option ((#) b) (place d bs))"
    and plan_Nil: "plan [] bs = []"
    and plan_Cons: "plan (d # ds) bs = (case place d bs of
      Some bs' \<Rightarrow> plan ds bs' | None \<Rightarrow> order (fresh d) # plan ds (bs @ [put d (fresh d)]))"
    and put_ok: "good d \<Longrightarrow> ok b \<Longrightarrow> fits d b \<Longrightarrow> ok (put d b)"
    and put_room: "good d \<Longrightarrow> ok b \<Longrightarrow> fits d b \<Longrightarrow> room k (put d b) = room k b - need k d"
    and fresh_ok: "good d \<Longrightarrow> ok (fresh d)"
    and fresh_fits: "good d \<Longrightarrow> fits d (fresh d)"
    and order_room: "good d \<Longrightarrow> room k (fresh d) \<le> ordered k (order (fresh d))"
    and room_nonneg: "ok b \<Longrightarrow> 0 \<le> room k b"
    and need_nonneg: "good d \<Longrightarrow> 0 \<le> need k d"
    and fits_room: "good d \<Longrightarrow> ok b \<Longrightarrow> fits d b \<longleftrightarrow> (\<forall>k. need k d \<le> room k b)"
begin

lemma place_first:
  "place d bs = Some bs' \<Longrightarrow>
   \<exists>i < length bs. fits d (bs ! i) \<and> (\<forall>j < i. \<not> fits d (bs ! j)) \<and> bs' = bs[i := put d (bs ! i)]"
proof (induction bs arbitrary: bs')
  case (Cons b bs)
  show ?case
  proof (cases "fits d b")
    case True
    with Cons.prems show ?thesis by (auto simp: place_Cons)
  next
    case False
    with Cons.prems obtain bs1 where "place d bs = Some bs1" "bs' = b # bs1" by (auto simp: place_Cons)
    with Cons.IH obtain i where i: "i < length bs" "fits d (bs ! i)" "\<forall>j < i. \<not> fits d (bs ! j)"
      "bs' = b # bs[i := put d (bs ! i)]" by blast
    then have "\<forall>j < Suc i. \<not> fits d ((b # bs) ! j)" using False by (simp add: nth_Cons split: nat.split)
    with i show ?thesis by (intro exI [of _ "Suc i"]) auto
  qed
qed (simp add: place_Nil)

lemma place_None: "place d bs = None \<longleftrightarrow> (\<forall>b \<in> set bs. \<not> fits d b)"
  by (induction bs) (auto simp: place_Nil place_Cons)

lemma plan_from_demand: "c \<in> set (plan ds bs) \<Longrightarrow> \<exists>d \<in> set ds. c = order (fresh d)"
proof (induction ds arbitrary: bs)
  case (Cons d ds)
  then show ?case by (cases "place d bs") (force simp: plan_Cons)+
qed (simp add: plan_Nil)

lemma length_plan: "length (plan ds bs) \<le> length ds"
proof (induction ds arbitrary: bs)
  case (Cons d ds)
  show ?case using Cons.IH [of "the (place d bs)"] Cons.IH [of "bs @ [put d (fresh d)]"]
    by (cases "place d bs") (auto simp: plan_Cons)
qed (simp add: plan_Nil)

text \<open>What the bins, old and ordered, can hold.\<close>

definition cap :: "'b list \<Rightarrow> 'c list \<Rightarrow> 'k \<Rightarrow> nat \<Rightarrow> int" where
  "cap bs cs k i = (if i < length bs then room k (bs ! i) else ordered k (cs ! (i - length bs)))"

lemma packing:
  assumes "list_all good ds" and "list_all ok bs"
  shows "\<exists>asg. length asg = length ds \<and> list_all (\<lambda>i. i < length bs + length (plan ds bs)) asg \<and>
    (\<forall>i k. i < length bs + length (plan ds bs) \<longrightarrow>
      load (need k) asg ds i \<le> cap bs (plan ds bs) k i)"
  using assms
proof (induction ds arbitrary: bs)
  case Nil
  show ?case using Nil.prems(2) by (auto simp: plan_Nil cap_def load_def list_all_length room_nonneg)
next
  case (Cons d ds)
  have good: "good d" "list_all good ds" using Cons.prems(1) by auto
  show ?case
  proof (cases "place d bs")
    case (Some bs')
    then obtain i0 where i0: "i0 < length bs" "fits d (bs ! i0)" "bs' = bs[i0 := put d (bs ! i0)]"
      using place_first by blast
    have okb: "ok (bs ! i0)" using Cons.prems(2) i0(1) by (simp add: list_all_length)
    have "list_all ok bs'" using Cons.prems(2) i0 put_ok [OF good(1) okb i0(2)]
      by (auto simp: list_all_length nth_list_update)
    from Cons.IH [OF good(2) this] obtain asg where asg: "length asg = length ds"
      "list_all (\<lambda>i. i < length bs' + length (plan ds bs')) asg"
      "\<And>i k. i < length bs' + length (plan ds bs') \<Longrightarrow>
         load (need k) asg ds i \<le> cap bs' (plan ds bs') k i" by blast
    have p: "plan (d # ds) bs = plan ds bs'" by (simp add: plan_Cons Some)
    have len: "length bs' = length bs" using i0 by simp
    have c: "cap bs' cs k i = cap bs cs k i - (if i0 = i then need k d else 0)" for cs k i
      using i0 put_room [OF good(1) okb i0(2)] by (auto simp: cap_def nth_list_update)
    show ?thesis
    proof (intro exI [of _ "i0 # asg"] conjI allI impI)
      fix i k
      assume "i < length bs + length (plan (d # ds) bs)"
      then have "load (need k) asg ds i \<le> cap bs' (plan ds bs') k i"
        by (intro asg(3)) (simp add: p len)
      then show "load (need k) (i0 # asg) (d # ds) i \<le> cap bs (plan (d # ds) bs) k i"
        using c [of "plan ds bs'" k i] by (simp add: load_Cons p)
    next
      show "list_all (\<lambda>i. i < length bs + length (plan (d # ds) bs)) (i0 # asg)"
        using asg(2) i0(1) by (simp add: p len)
    qed (simp add: asg(1))
  next
    case None
    let ?b = "put d (fresh d)"
    have "ok ?b" using put_ok [OF good(1) fresh_ok fresh_fits] good(1) by simp
    then have "list_all ok (bs @ [?b])" using Cons.prems(2) by simp
    from Cons.IH [OF good(2) this] obtain asg where asg: "length asg = length ds"
      "list_all (\<lambda>i. i < length (bs @ [?b]) + length (plan ds (bs @ [?b]))) asg"
      "\<And>i k. i < length (bs @ [?b]) + length (plan ds (bs @ [?b])) \<Longrightarrow>
         load (need k) asg ds i \<le> cap (bs @ [?b]) (plan ds (bs @ [?b])) k i" by blast
    have p: "plan (d # ds) bs = order (fresh d) # plan ds (bs @ [?b])" by (simp add: plan_Cons None)
    have c: "cap (bs @ [?b]) cs k i + (if length bs = i then need k d else 0)
      \<le> cap bs (order (fresh d) # cs) k i" for cs k i
      using put_room [OF good(1) fresh_ok fresh_fits, of k] good(1) order_room [OF good(1), of k]
      by (auto simp: cap_def nth_append nth_Cons' )
    show ?thesis
    proof (intro exI [of _ "length bs # asg"] conjI allI impI)
      fix i k
      assume "i < length bs + length (plan (d # ds) bs)"
      then have "load (need k) asg ds i \<le> cap (bs @ [?b]) (plan ds (bs @ [?b])) k i"
        by (intro asg(3)) (auto simp: p)
      then show "load (need k) (length bs # asg) (d # ds) i \<le> cap bs (plan (d # ds) bs) k i"
        using c [of "plan ds (bs @ [?b])" k i] by (simp add: load_Cons p)
    qed (use asg in \<open>auto simp: p\<close>)
  qed
qed

text \<open>Nothing is ordered when one bin alone has room for everything that is left to place.\<close>

lemma no_order:
  assumes "list_all good ds" and "list_all ok bs"
    and "b \<in> set bs" and "\<And>k. sum_list (map (need k) ds) \<le> room k b"
  shows "plan ds bs = []"
  using assms
proof (induction ds arbitrary: bs b)
  case Nil
  show ?case by (rule plan_Nil)
next
  case (Cons d ds)
  have good: "good d" "list_all good ds" using Cons.prems(1) by auto
  have rest: "0 \<le> sum_list (map (need k) ds)" for k
    using good(2) need_nonneg by (intro sum_list_nonneg) (auto simp: list_all_iff)
  have okb: "ok b" using Cons.prems(2,3) by (auto simp: list_all_iff)
  have "need k d \<le> room k b" for k using Cons.prems(4) [of k] rest [of k] by simp
  then have fits: "fits d b" by (simp add: fits_room [OF good(1) okb])
  then have "place d bs \<noteq> None" using Cons.prems(3) by (auto simp: place_None)
  then obtain bs' where bs': "place d bs = Some bs'" by auto
  then obtain i where i: "i < length bs" "fits d (bs ! i)" "bs' = bs[i := put d (bs ! i)]"
    using place_first by blast
  have oki: "ok (bs ! i)" using Cons.prems(2) i(1) by (simp add: list_all_length)
  have ok': "list_all ok bs'" using Cons.prems(2) i put_ok [OF good(1) oki i(2)]
    by (auto simp: list_all_length nth_list_update)
  obtain b' where "b' \<in> set bs'" "\<And>k. sum_list (map (need k) ds) \<le> room k b'"
  proof (cases "bs ! i = b")
    case True
    then have "put d b \<in> set bs'" using i by (simp add: set_update_memI)
    moreover have "sum_list (map (need k) ds) \<le> room k (put d b)" for k
      using put_room [OF good(1) okb fits, of k] Cons.prems(4) [of k] by simp
    ultimately show ?thesis using that by blast
  next
    case False
    obtain j where j: "j < length bs" "bs ! j = b" using Cons.prems(3) by (auto simp: in_set_conv_nth)
    with False i have "b \<in> set bs'" by (metis length_list_update nth_list_update_neq nth_mem)
    moreover have "sum_list (map (need k) ds) \<le> room k b" for k
      using Cons.prems(4) [of k] need_nonneg [OF good(1), of k] by simp
    ultimately show ?thesis using that by blast
  qed
  with Cons.IH [OF good(2) ok'] show ?case by (simp add: plan_Cons bs')
qed

end

section \<open>The plan is a first fit\<close>

definition resNeed :: "bool \<Rightarrow> pod_demand \<Rightarrow> int" where
  "resNeed k d = (if k then dm_cpuMilli d else dm_memBytes d)"

definition resRoom :: "bool \<Rightarrow> capacity_bucket \<Rightarrow> int" where
  "resRoom k b = (if k then bk_remainingCPU b else bk_remainingMem b)"

definition resOrdered :: "bool \<Rightarrow> claim_resources \<Rightarrow> int" where
  "resOrdered k c = (if k then 1000 * cr_cpuCores c else 1024 * 1024 * cr_memoryMiB c)"

definition saneAmount :: "int \<Rightarrow> bool" where
  "saneAmount x \<longleftrightarrow> 0 \<le> x \<and> x \<le> 2 ^ 52"

definition saneCapacity :: "node_capacity \<Rightarrow> bool" where
  "saneCapacity t \<longleftrightarrow> saneAmount (cap_cpuMilli t) \<and> saneAmount (cap_memBytes t)"

definition goodDemand :: "node_capacity \<Rightarrow> pod_demand \<Rightarrow> bool" where
  "goodDemand t d \<longleftrightarrow> saneCapacity t \<and> saneAmount (dm_cpuMilli d) \<and> saneAmount (dm_memBytes d)"

definition okBucket :: "capacity_bucket \<Rightarrow> bool" where
  "okBucket b \<longleftrightarrow> 0 \<le> bk_remainingCPU b \<and> in64 (bk_remainingCPU b) \<and>
     0 \<le> bk_remainingMem b \<and> in64 (bk_remainingMem b)"

lemma ceilQuot_cores: "saneAmount x \<Longrightarrow> ceilQuot x 1000 = ceilDiv x 1000"
  by (rule ceilQuot_ceiling [where t = 10]) (simp_all add: saneAmount_def)

lemma ceilQuot_mib: "saneAmount x \<Longrightarrow> ceilQuot x (1024 * 1024) = ceilDiv x (1024 * 1024)"
  by (rule ceilQuot_ceiling [where t = 20]) (simp_all add: saneAmount_def)

lemma claimFor_code [code]:
  "claimFor b = \<lparr>
     cr_cpuCores = (if saneAmount (bk_remainingCPU b) then ceilDiv (bk_remainingCPU b) 1000
       else ceilQuot (bk_remainingCPU b) 1000),
     cr_memoryMiB = (if saneAmount (bk_remainingMem b) then ceilDiv (bk_remainingMem b) (1024 * 1024)
       else ceilQuot (bk_remainingMem b) (1024 * 1024))\<rparr>"
  using ceilQuot_mib [of "bk_remainingMem b"] by (simp add: claimFor_def ceilQuot_cores)

lemma saneAmount_in64: "saneAmount x \<Longrightarrow> in64 x"
  by (simp add: saneAmount_def in64_def)

lemma fresh_sane:
  "goodDemand t d \<Longrightarrow> saneAmount (bk_remainingCPU (freshBucket t d)) \<and> saneAmount (bk_remainingMem (freshBucket t d))"
  by (simp add: goodDemand_def saneCapacity_def freshBucket_def)

interpretation plan: first_fit fitsBucket takeFrom "freshBucket t" claimFor placeDemand "planLoop t"
  resNeed resRoom resOrdered "goodDemand t" okBucket for t
proof unfold_locales
  fix d b k
  assume good: "goodDemand t d"
  have sane: "saneAmount (bk_remainingCPU (freshBucket t d))" "saneAmount (bk_remainingMem (freshBucket t d))"
    using fresh_sane [OF good] by auto
  show "okBucket (freshBucket t d)"
    using sane by (auto simp: okBucket_def saneAmount_in64) (simp_all add: saneAmount_def)
  show "fitsBucket d (freshBucket t d)"
    by (simp add: fitsBucket_def freshBucket_def)
  show "resRoom k (freshBucket t d) \<le> resOrdered k (claimFor (freshBucket t d))"
    using ceilDiv_bounds(1) [of 1000 "bk_remainingCPU (freshBucket t d)"]
      ceilDiv_bounds(1) [of "1024 * 1024" "bk_remainingMem (freshBucket t d)"]
    unfolding resRoom_def resOrdered_def claimFor_def
    by (simp only: capacity_bucket.simps claim_resources.simps ceilQuot_cores [OF sane(1)] ceilQuot_mib [OF sane(2)])
      (simp add: mult.commute)
  show "0 \<le> resNeed k d" using good by (simp add: resNeed_def goodDemand_def saneAmount_def)
  assume ok: "okBucket b"
  show "fitsBucket d b \<longleftrightarrow> (\<forall>k. resNeed k d \<le> resRoom k b)"
    by (auto simp: fitsBucket_def resNeed_def resRoom_def)
  assume fits: "fitsBucket d b"
  have take: "takeFrom d b = \<lparr>bk_remainingCPU = bk_remainingCPU b - dm_cpuMilli d,
      bk_remainingMem = bk_remainingMem b - dm_memBytes d\<rparr>"
    using good ok fits
    by (simp add: takeFrom_def sub64_exact goodDemand_def saneAmount_def okBucket_def fitsBucket_def)
  show "okBucket (takeFrom d b)"
    using good ok fits unfolding take
    by (auto simp: okBucket_def goodDemand_def saneAmount_def fitsBucket_def in64_def)
  show "resRoom k (takeFrom d b) = resRoom k b - resNeed k d"
    by (simp add: take resRoom_def resNeed_def)
qed (auto simp: okBucket_def resRoom_def split: option.split)

lemma good_demands:
  assumes "saneCapacity t" and "list_all (\<lambda>p. saneAmount (fst (getRequestedResources p)) \<and> saneAmount (snd (getRequestedResources p))) pods"
  shows "list_all (goodDemand t) (sortDemands (demandsOf pods))"
  using assms by (auto simp: list_all_iff sortDemands_def demandsOf_def goodDemand_def)

section \<open>Properties\<close>

text \<open>C14. The scale-up plan is a packing: all pending pods with a resource request can be assigned to
  the free capacity of existing nodes and pending claims and to the machines the plan orders, with
  the CPU and the memory of every one of them respected (a machine ordered with \<open>c\<close> cores
  counts as \<open>1000 c\<close> millicores). Amounts are non-negative and at most 2 to the 52.\<close>

theorem planCapacity_packs:
  assumes "saneCapacity t" and "list_all okBucket buckets"
    and "list_all (\<lambda>p. saneAmount (fst (getRequestedResources p)) \<and> saneAmount (snd (getRequestedResources p))) pods"
  shows "\<exists>asg. length asg = length (sortDemands (demandsOf pods)) \<and>
    (\<forall>i \<in> set asg. i < length buckets + length (planCapacity pods buckets t)) \<and>
    (\<forall>i < length buckets.
       load dm_cpuMilli asg (sortDemands (demandsOf pods)) i \<le> bk_remainingCPU (buckets ! i) \<and>
       load dm_memBytes asg (sortDemands (demandsOf pods)) i \<le> bk_remainingMem (buckets ! i)) \<and>
    (\<forall>j < length (planCapacity pods buckets t).
       load dm_cpuMilli asg (sortDemands (demandsOf pods)) (length buckets + j)
         \<le> 1000 * cr_cpuCores (planCapacity pods buckets t ! j) \<and>
       load dm_memBytes asg (sortDemands (demandsOf pods)) (length buckets + j)
         \<le> 1024 * 1024 * cr_memoryMiB (planCapacity pods buckets t ! j))"
proof -
  let ?ds = "sortDemands (demandsOf pods)" and ?new = "planCapacity pods buckets t"
  from plan.packing [OF good_demands [OF assms(1,3)] assms(2)] obtain asg where
    asg: "length asg = length ?ds" "list_all (\<lambda>i. i < length buckets + length ?new) asg"
    "\<And>i k. i < length buckets + length ?new \<Longrightarrow> load (resNeed k) asg ?ds i \<le> plan.cap buckets ?new k i"
    unfolding planCapacity_def by blast
  have rn: "resNeed True = dm_cpuMilli" "resNeed False = dm_memBytes"
    by (simp_all add: fun_eq_iff resNeed_def)
  show ?thesis
  proof (intro exI [of _ asg] conjI allI impI)
    fix i assume "i < length buckets"
    then show "load dm_cpuMilli asg ?ds i \<le> bk_remainingCPU (buckets ! i)"
      "load dm_memBytes asg ?ds i \<le> bk_remainingMem (buckets ! i)"
      using asg(3) [of i True] asg(3) [of i False] by (simp_all add: rn plan.cap_def resRoom_def)
  next
    fix j assume "j < length ?new"
    then show "load dm_cpuMilli asg ?ds (length buckets + j) \<le> 1000 * cr_cpuCores (?new ! j)"
      "load dm_memBytes asg ?ds (length buckets + j) \<le> 1024 * 1024 * cr_memoryMiB (?new ! j)"
      using asg(3) [of "length buckets + j" True] asg(3) [of "length buckets + j" False]
      by (simp_all add: rn plan.cap_def resOrdered_def)
  qed (use asg in \<open>auto simp: list_all_iff\<close>)
qed

definition planPods :: "pod list" where
  "planPods = [samplePod ''a'' 1500 (2 ^ 30), samplePod ''b'' 3000 (2 ^ 30), samplePod ''c'' 0 0,
     samplePod ''d'' 2500 (2 ^ 31)]"

definition planBuckets :: "capacity_bucket list" where
  "planBuckets = [\<lparr>bk_remainingCPU = 2000, bk_remainingMem = 2 ^ 32\<rparr>]"

definition planTemplate :: node_capacity where
  "planTemplate = \<lparr>cap_cpuMilli = 3900, cap_memBytes = 2 ^ 32\<rparr>"

lemma plan_sample_ok:
  "saneCapacity planTemplate" "list_all okBucket planBuckets"
  "list_all (\<lambda>p. saneAmount (fst (getRequestedResources p)) \<and> saneAmount (snd (getRequestedResources p))) planPods"
  by code_simp+

lemma plan_sample_demands:
  "map (\<lambda>d. (dm_cpuMilli d, dm_memBytes d)) (sortDemands (demandsOf planPods)) =
     [(3000, 2 ^ 30), (2500, 2 ^ 31), (1500, 2 ^ 30)]"
  by code_simp

lemma plan_sample: "planCapacity planPods planBuckets planTemplate =
    [\<lparr>cr_cpuCores = 4, cr_memoryMiB = 4096\<rparr>, \<lparr>cr_cpuCores = 4, cr_memoryMiB = 4096\<rparr>]"
proof -
  from plan_sample_demands obtain d1 d2 d3 where ds: "sortDemands (demandsOf planPods) = [d1, d2, d3]"
    "dm_cpuMilli d1 = 3000" "dm_memBytes d1 = 2 ^ 30" "dm_cpuMilli d2 = 2500" "dm_memBytes d2 = 2 ^ 31"
    "dm_cpuMilli d3 = 1500" "dm_memBytes d3 = 2 ^ 30"
    by (auto simp: map_eq_Cons_conv)
  have "ceilQuot 3900 1000 = 4" "ceilQuot (2 ^ 32) (1024 * 1024) = 4096"
    by (subst ceilQuot_cores ceilQuot_mib; simp add: saneAmount_def ceilDiv_def)+
  then show ?thesis
    by (simp add: planCapacity_def ds planBuckets_def planTemplate_def fitsBucket_def takeFrom_def
        freshBucket_def claimFor_def sub64_def in64_def)
qed

theorem planCapacity_packs_witness:
  "planCapacity planPods planBuckets planTemplate =
     [\<lparr>cr_cpuCores = 4, cr_memoryMiB = 4096\<rparr>, \<lparr>cr_cpuCores = 4, cr_memoryMiB = 4096\<rparr>] \<and>
   (\<exists>asg. length asg = length (sortDemands (demandsOf planPods)) \<and>
     load dm_cpuMilli asg (sortDemands (demandsOf planPods)) 0 \<le> 2000 \<and>
     load dm_cpuMilli asg (sortDemands (demandsOf planPods)) 1 \<le> 4000)"
proof -
  have l: "length planBuckets = 1" "bk_remainingCPU (planBuckets ! 0) = 2000"
    by (simp_all add: planBuckets_def)
  from planCapacity_packs [OF plan_sample_ok] obtain asg where
    "length asg = length (sortDemands (demandsOf planPods))"
    "load dm_cpuMilli asg (sortDemands (demandsOf planPods)) 0 \<le> 2000"
    "load dm_cpuMilli asg (sortDemands (demandsOf planPods)) (length planBuckets + 0)
       \<le> 1000 * cr_cpuCores (planCapacity planPods planBuckets planTemplate ! 0)"
    unfolding plan_sample using l by force
  then show ?thesis unfolding l plan_sample by auto
qed

lemma planCapacity_sizes:
  assumes "saneCapacity t"
    and "list_all (\<lambda>p. saneAmount (fst (getRequestedResources p)) \<and> saneAmount (snd (getRequestedResources p))) pods"
    and "c \<in> set (planCapacity pods buckets t)"
  shows "\<exists>p \<in> set pods.
    max (cap_cpuMilli t) (fst (getRequestedResources p)) \<le> 1000 * cr_cpuCores c \<and>
    1000 * cr_cpuCores c < max (cap_cpuMilli t) (fst (getRequestedResources p)) + 1000 \<and>
    max (cap_memBytes t) (snd (getRequestedResources p)) \<le> 1024 * 1024 * cr_memoryMiB c \<and>
    1024 * 1024 * cr_memoryMiB c < max (cap_memBytes t) (snd (getRequestedResources p)) + 1024 * 1024"
proof -
  from assms(3) obtain d where d: "d \<in> set (sortDemands (demandsOf pods))" "c = claimFor (freshBucket t d)"
    using plan.plan_from_demand unfolding planCapacity_def by blast
  then have g: "goodDemand t d" using good_demands [OF assms(1,2)] by (auto simp: list_all_iff)
  have sane: "saneAmount (bk_remainingCPU (freshBucket t d))" "saneAmount (bk_remainingMem (freshBucket t d))"
    using fresh_sane [OF g] by auto
  from d obtain p where p: "p \<in> set pods" "dm_cpuMilli d = fst (getRequestedResources p)"
    "dm_memBytes d = snd (getRequestedResources p)"
    by (auto simp: sortDemands_def demandsOf_def)
  have f: "bk_remainingCPU (freshBucket t d) = max (cap_cpuMilli t) (dm_cpuMilli d)"
    "bk_remainingMem (freshBucket t d) = max (cap_memBytes t) (dm_memBytes d)"
    by (simp_all add: freshBucket_def max_def)
  have "cr_cpuCores c = ceilDiv (max (cap_cpuMilli t) (dm_cpuMilli d)) 1000"
    "cr_memoryMiB c = ceilDiv (max (cap_memBytes t) (dm_memBytes d)) (1024 * 1024)"
    using ceilQuot_cores [OF sane(1)] ceilQuot_mib [OF sane(2)] unfolding d(2) claimFor_def f by simp_all
  with p ceilDiv_bounds [of 1000 "max (cap_cpuMilli t) (dm_cpuMilli d)"]
    ceilDiv_bounds [of "1024 * 1024" "max (cap_memBytes t) (dm_memBytes d)"]
  show "\<exists>p \<in> set pods. max (cap_cpuMilli t) (fst (getRequestedResources p)) \<le> 1000 * cr_cpuCores c \<and>
      1000 * cr_cpuCores c < max (cap_cpuMilli t) (fst (getRequestedResources p)) + 1000 \<and>
      max (cap_memBytes t) (snd (getRequestedResources p)) \<le> 1024 * 1024 * cr_memoryMiB c \<and>
      1024 * 1024 * cr_memoryMiB c < max (cap_memBytes t) (snd (getRequestedResources p)) + 1024 * 1024"
    by (intro bexI [of _ p]) (simp_all add: mult.commute)
qed

text \<open>C30. The plan does not over-order: it asks for at most one machine per requesting pod, and each
  machine is the larger of the node template and one pod's request, rounded up by less than a core
  and less than a MiB.\<close>

theorem planCapacity_tight:
  assumes "saneCapacity t"
    and "list_all (\<lambda>p. saneAmount (fst (getRequestedResources p)) \<and> saneAmount (snd (getRequestedResources p))) pods"
  shows "length (planCapacity pods buckets t) \<le> length (demandsOf pods) \<and>
    (\<forall>c \<in> set (planCapacity pods buckets t). \<exists>p \<in> set pods.
      max (cap_cpuMilli t) (fst (getRequestedResources p)) \<le> 1000 * cr_cpuCores c \<and>
      1000 * cr_cpuCores c < max (cap_cpuMilli t) (fst (getRequestedResources p)) + 1000 \<and>
      max (cap_memBytes t) (snd (getRequestedResources p)) \<le> 1024 * 1024 * cr_memoryMiB c \<and>
      1024 * 1024 * cr_memoryMiB c < max (cap_memBytes t) (snd (getRequestedResources p)) + 1024 * 1024)"
proof (intro conjI ballI planCapacity_sizes [OF assms])
  show "length (planCapacity pods buckets t) \<le> length (demandsOf pods)"
    using plan.length_plan [of t "sortDemands (demandsOf pods)" buckets]
    by (simp add: planCapacity_def sortDemands_def)
qed

theorem planCapacity_tight_witness:
  "length (planCapacity planPods planBuckets planTemplate) \<le> length (demandsOf planPods) \<and>
   length (planCapacity planPods planBuckets planTemplate) = 2"
  using planCapacity_tight [OF plan_sample_ok(1,3), of planBuckets] plan_sample by simp

end
