(* ===== verification/Status_Update.thy ===== *)
theory Status_Update
  imports Sample_World
begin

text \<open>
  The read-modify-write of a status subresource, which all three reconcilers have under the name
  \<open>updateStatus\<close>: fetch the latest object, apply the caller's change, skip the write when
  nothing changed, otherwise write the status, all inside \<open>RetryOnConflict\<close>; on success the
  caller's copy takes the new status. The locale \<open>status_writer\<close> is the contract the
  reconcilers rely on.
\<close>

section \<open>Claims\<close>

definition claimStatusAttempt ::
  "'w env \<Rightarrow> nskey \<Rightarrow> (time \<Rightarrow> claim \<Rightarrow> claim) \<Rightarrow> 'w st \<Rightarrow> (goerr + claim_status) \<times> 'w st" where
  "claimStatusAttempt E key mutate s = (case getClaim E key s of
     (Inl e, s1) \<Rightarrow> (Inl e, s1)
   | (Inr latest, s1) \<Rightarrow>
       (let updated = mutate (now E s1) latest in
        if libEqClaim E (cl_status latest) (cl_status updated) then (Inr (cl_status updated), s1)
        else (case statusClaim E updated s1 of
          (Inl e, s2) \<Rightarrow> (Inl e, s2)
        | (Inr stored, s2) \<Rightarrow> (Inr (cl_status stored), s2))))"

definition updateClaimStatus ::
  "'w env \<Rightarrow> claim \<Rightarrow> (time \<Rightarrow> claim \<Rightarrow> claim) \<Rightarrow> 'w st \<Rightarrow> (goerr option \<times> claim) \<times> 'w st" where
  "updateClaimStatus E c mutate s =
     (case retryClaim E (claimStatusAttempt E (metaKey (cl_meta c)) mutate) s of
       (Inl e, s1) \<Rightarrow> ((Some e, c), s1)
     | (Inr status, s1) \<Rightarrow> ((None, c\<lparr>cl_status := status\<rparr>), s1))"

text \<open>
  \<open>updateStatusByKey\<close> is only called by the heartbeat, whose change writes through the lease pointer.
  That memory belongs to the status copied before the change as well (\<open>Claim_Memory\<close>), so the change
  gives both what the copy reads afterwards, which is compared, and the changed claim, which is written.
\<close>

definition claimStatusByKeyAttempt ::
  "'w env \<Rightarrow> nskey \<Rightarrow> (time \<Rightarrow> claim \<Rightarrow> claim_status \<times> claim) \<Rightarrow> 'w st \<Rightarrow> (goerr + claim_status) \<times> 'w st" where
  "claimStatusByKeyAttempt E key mutate s = (case getClaim E key s of
     (Inl e, s1) \<Rightarrow> (Inl e, s1)
   | (Inr latest, s1) \<Rightarrow> (case mutate (now E s1) latest of
       (original, updated) \<Rightarrow>
         (if libEqClaim E original (cl_status updated) then (Inr (cl_status updated), s1)
          else (case statusClaim E updated s1 of
            (Inl e, s2) \<Rightarrow> (Inl e, s2)
          | (Inr stored, s2) \<Rightarrow> (Inr (cl_status stored), s2)))))"

definition updateStatusByKey ::
  "'w env \<Rightarrow> nskey \<Rightarrow> (time \<Rightarrow> claim \<Rightarrow> claim_status \<times> claim) \<Rightarrow> 'w st \<Rightarrow> goerr option \<times> 'w st" where
  "updateStatusByKey E key mutate s =
     (case retryClaim E (claimStatusByKeyAttempt E key mutate) s of
       (Inl e, s1) \<Rightarrow> (Some e, s1)
     | (Inr _, s1) \<Rightarrow> (None, s1))"

section \<open>Pools\<close>

definition poolStatusAttempt ::
  "'w env \<Rightarrow> nskey \<Rightarrow> (time \<Rightarrow> pool \<Rightarrow> pool) \<Rightarrow> 'w st \<Rightarrow> (goerr + pool_status) \<times> 'w st" where
  "poolStatusAttempt E key mutate s = (case getPool E key s of
     (Inl e, s1) \<Rightarrow> (Inl e, s1)
   | (Inr latest, s1) \<Rightarrow>
       (let updated = mutate (now E s1) latest in
        if libEqPool E (pl_status latest) (pl_status updated) then (Inr (pl_status updated), s1)
        else (case statusPool E updated s1 of
          (Inl e, s2) \<Rightarrow> (Inl e, s2)
        | (Inr stored, s2) \<Rightarrow> (Inr (pl_status stored), s2))))"

definition updatePoolStatus ::
  "'w env \<Rightarrow> pool \<Rightarrow> (time \<Rightarrow> pool \<Rightarrow> pool) \<Rightarrow> 'w st \<Rightarrow> (goerr option \<times> pool) \<times> 'w st" where
  "updatePoolStatus E p mutate s =
     (case retryPool E (poolStatusAttempt E (metaKey (pl_meta p)) mutate) s of
       (Inl e, s1) \<Rightarrow> ((Some e, p), s1)
     | (Inr status, s1) \<Rightarrow> ((None, p\<lparr>pl_status := status\<rparr>), s1))"

section \<open>Control planes\<close>

definition cpStatusAttempt ::
  "'w env \<Rightarrow> nskey \<Rightarrow> controlplane_status \<Rightarrow> 'w st \<Rightarrow> (goerr + controlplane_status) \<times> 'w st" where
  "cpStatusAttempt E key statusCopy s = (case getCP E key s of
     (Inl e, s1) \<Rightarrow> (Inl e, s1)
   | (Inr latest, s1) \<Rightarrow>
       (let updated = latest\<lparr>cp_status := statusCopy\<rparr> in
        if libEqCP E (cp_status latest) (cp_status updated) then (Inr (cp_status updated), s1)
        else (case statusCP E updated s1 of
          (Inl e, s2) \<Rightarrow> (Inl e, s2)
        | (Inr stored, s2) \<Rightarrow> (Inr (cp_status stored), s2))))"

definition updateCPStatus ::
  "'w env \<Rightarrow> controlplane \<Rightarrow> 'w st \<Rightarrow> (goerr option \<times> controlplane) \<times> 'w st" where
  "updateCPStatus E cp s =
     (case retryCP E (cpStatusAttempt E (metaKey (cp_meta cp)) (cp_status cp)) s of
       (Inl e, s1) \<Rightarrow> ((Some e, cp), s1)
     | (Inr status, s1) \<Rightarrow> ((None, cp\<lparr>cp_status := status\<rparr>), s1))"

section \<open>The contract\<close>

text \<open>
  \<open>wrote o m e\<close>: the call \<open>e\<close> is one that updating the status of \<open>o\<close> by \<open>m\<close> may make.
\<close>

locale status_writer =
  fixes ok :: "'e \<Rightarrow> bool"
    and upd :: "'e \<Rightarrow> 'o \<Rightarrow> 'm \<Rightarrow> 'w st \<Rightarrow> (goerr option \<times> 'o) \<times> 'w st"
    and setStatus :: "'t \<Rightarrow> 'o \<Rightarrow> 'o"
    and wrote :: "'o \<Rightarrow> 'm \<Rightarrow> ext_call \<Rightarrow> bool"
  assumes write_error: "upd E x m s = ((Some e, x'), s') \<Longrightarrow> x' = x"
    and write_frame: "upd E x m s = ((None, x'), s') \<Longrightarrow> \<exists>st. x' = setStatus st x"
    and write_calls: "ok E \<Longrightarrow> emits (wrote x m) s (upd E x m s)"
begin

lemma write_emits:
  assumes "ok E" and "\<And>e. wrote x m e \<Longrightarrow> P e"
  shows "emits P s (upd E x m s)"
  using write_calls [OF assms(1)] assms(2) by (rule emits_mono)

lemma write_cases:
  assumes "upd E x m s = ((r, x'), s')"
  obtains (failed) e where "r = Some e" "x' = x"
    | (stored) st where "r = None" "x' = setStatus st x"
proof (cases r)
  case None
  then show ?thesis using assms write_frame stored by blast
next
  case (Some e)
  then show ?thesis using assms write_error failed by blast
qed

text \<open>Whatever does not look at the status is the same before and after.\<close>

lemma write_keeps:
  assumes "upd E x m s = ((r, x'), s')" and "\<And>st y. f (setStatus st y) = f y"
  shows "f x' = f x"
  using assms(1) by (cases rule: write_cases) (simp_all add: assms(2))

end

fun claimWrote :: "claim \<Rightarrow> (time \<Rightarrow> claim \<Rightarrow> claim) \<Rightarrow> ext_call \<Rightarrow> bool" where
  "claimWrote c m (EGetClaim k r) = (k = metaKey (cl_meta c))"
| "claimWrote c m (EStatusClaim c' r) = (\<exists>t latest. c' = m t latest)"
| "claimWrote c m EWait = True"
| "claimWrote c m _ = False"

fun poolWrote :: "pool \<Rightarrow> (time \<Rightarrow> pool \<Rightarrow> pool) \<Rightarrow> ext_call \<Rightarrow> bool" where
  "poolWrote p m (EGetPool k r) = (k = metaKey (pl_meta p))"
| "poolWrote p m (EStatusPool p' r) = (\<exists>t latest. p' = m t latest)"
| "poolWrote p m EWait = True"
| "poolWrote p m _ = False"

lemma claimStatusAttempt_calls:
  assumes "k = metaKey (cl_meta c)"
  shows "emits (claimWrote c m) s (claimStatusAttempt E k m s)"
  unfolding claimStatusAttempt_def Let_def
  by (intro emits_intros; simp add: assms) (auto intro!: emits_intros)

lemma poolStatusAttempt_calls:
  assumes "k = metaKey (pl_meta p)"
  shows "emits (poolWrote p m) s (poolStatusAttempt E k m s)"
  unfolding poolStatusAttempt_def Let_def
  by (intro emits_intros; simp add: assms) (auto intro!: emits_intros)

lemma retryClaim_run: "env_ok E \<Longrightarrow> retry_run f s (retryClaim E f s)"
  by (simp add: env_ok_def retry_ok_def)

lemma retryPool_run: "env_ok E \<Longrightarrow> retry_run f s (retryPool E f s)"
  by (simp add: env_ok_def retry_ok_def)

interpretation claim_status: status_writer env_ok updateClaimStatus "\<lambda>st c. c\<lparr>cl_status := st\<rparr>" claimWrote
proof unfold_locales
  fix E :: "'a env" and c m s
  assume "env_ok E"
  then have "emits (claimWrote c m) s (retryClaim E (claimStatusAttempt E (metaKey (cl_meta c)) m) s)"
    by (intro retry_run_emits [OF retryClaim_run]) (auto intro: claimStatusAttempt_calls)
  then show "emits (claimWrote c m) s (updateClaimStatus E c m s)"
    unfolding updateClaimStatus_def by (intro emits_bind emits_sum emits_ret)
qed (auto simp: updateClaimStatus_def split: prod.splits sum.splits)

interpretation pool_status: status_writer env_ok updatePoolStatus "\<lambda>st p. p\<lparr>pl_status := st\<rparr>" poolWrote
proof unfold_locales
  fix E :: "'a env" and p m s
  assume "env_ok E"
  then have "emits (poolWrote p m) s (retryPool E (poolStatusAttempt E (metaKey (pl_meta p)) m) s)"
    by (intro retry_run_emits [OF retryPool_run]) (auto intro: poolStatusAttempt_calls)
  then show "emits (poolWrote p m) s (updatePoolStatus E p m s)"
    unfolding updatePoolStatus_def by (intro emits_bind emits_sum emits_ret)
qed (auto simp: updatePoolStatus_def split: prod.splits sum.splits)

text \<open>
  After a successful update the caller's copy has the status the server returned, or, when the
  change was a no-op, the changed status itself.
\<close>

lemma updateClaimStatus_stored:
  assumes "env_ok E" and "updateClaimStatus E c m s = ((None, c'), s')"
  shows "\<exists>latest t s0 s1. getClaim E (metaKey (cl_meta c)) s0 = (Inr latest, s1) \<and> t = now E s1 \<and>
    (cl_status (m t latest) = cl_status latest \<and> c' = c\<lparr>cl_status := cl_status latest\<rparr> \<and> s' = s1 \<or>
     (\<exists>stored. statusClaim E (m t latest) s1 = (Inr stored, s') \<and> c' = c\<lparr>cl_status := cl_status stored\<rparr>))"
proof -
  let ?f = "claimStatusAttempt E (metaKey (cl_meta c)) m"
  obtain st where st: "retryClaim E ?f s = (Inr st, s')" "c' = c\<lparr>cl_status := st\<rparr>"
    using assms(2) by (auto simp: updateClaimStatus_def split: prod.splits sum.splits)
  then obtain s0 where "?f s0 = (Inr st, s')"
    using retry_run_result [OF retryClaim_run [OF assms(1), of ?f s]] by auto
  moreover have "\<And>x y. libEqClaim E x y \<longleftrightarrow> x = y" using assms(1) by (simp add: env_ok_def deepequal_ok_def)
  ultimately show ?thesis
    using st(2) unfolding claimStatusAttempt_def Let_def
    by (auto split: prod.splits sum.splits if_splits)
qed

text \<open>The log of an update shows the server's answer that the caller's copy was taken from.\<close>

fun answered :: "(claim_status \<Rightarrow> bool) \<Rightarrow> claim_status \<Rightarrow> ext_call \<Rightarrow> bool" where
  "answered P st (EStatusClaim c (Inr c')) = (P (cl_status c) \<and> st = cl_status c')"
| "answered P st (EGetClaim k (Inr c)) = (P (cl_status c) \<and> st = cl_status c)"
| "answered P st _ = False"

lemma updateClaimStatus_answered:
  assumes "env_ok E" and "\<And>t c. P (cl_status (m t c))"
  shows "tspec s (updateClaimStatus E c m s) (\<lambda>(r, c') evs. list_all (claimWrote c m) evs \<and>
    (case r of Some e \<Rightarrow> c' = c
     | None \<Rightarrow> (\<exists>st. c' = c\<lparr>cl_status := st\<rparr> \<and> list_ex (answered P st) evs)))"
proof -
  let ?f = "claimStatusAttempt E (metaKey (cl_meta c)) m"
  define Q where "Q r evs \<longleftrightarrow> list_all (claimWrote c m) evs \<and>
    (case r of Inl e \<Rightarrow> True | Inr st \<Rightarrow> list_ex (answered P st) evs)"
    for r :: "goerr + claim_status" and evs
  have eq: "\<And>x y. libEqClaim E x y \<longleftrightarrow> x = y" using assms(1) by (simp add: env_ok_def deepequal_ok_def)
  have "tspec s (?f s) Q" for s
    unfolding claimStatusAttempt_def Let_def eq
    apply (rule tspec_bind_call)
    apply (split sum.split, intro conjI allI impI)
     apply (rule tspec_ret, simp add: Q_def)
    apply (split if_split, intro conjI impI)
     apply (rule tspec_ret, simp add: Q_def) using assms(2) apply metis
    apply (rule tspec_bind_call)
    apply (split sum.split, intro conjI allI impI)
     apply (rule tspec_ret, auto simp: Q_def) [1]
    apply (rule tspec_ret, auto simp: Q_def assms(2)) [1]
    done
  then have "tspec s (retryClaim E ?f s) Q"
    by (intro retry_run_tspec [OF retryClaim_run [OF assms(1)]]) (auto simp: Q_def split: sum.splits)
  then show ?thesis unfolding updateClaimStatus_def
    by (rule tspec_bind) (auto simp: Q_def split: sum.splits intro!: tspec_ret)
qed

end
