(* ===== verification/Pool_Controller.thy ===== *)
theory Pool_Controller
  imports Capacity Pool_Matching Status_Update
begin

text \<open>
  \<open>NodePoolReconciler\<close> of \<open>internal/controller/nodepool_controller.go\<close>: \<open>Reconcile\<close>,
  scale-down, scale-up, the creation of claims, the availability condition and the finalization of
  a pool. A result is the requeue delay and the error; reading a missing value of a malformed node
  selector is a \<open>Panic\<close> (\<open>Pool_Matching\<close>).
\<close>

type_synonym reconcile_result = "duration \<times> goerr option"

definition finalizerNodeSmithPool :: string where
  "finalizerNodeSmithPool = ''kubenodesmith.io/nodepool''"

section \<open>Status changes\<close>

definition poolCondition ::
  "'w env \<Rightarrow> string \<Rightarrow> cond_status \<Rightarrow> string \<Rightarrow> string \<Rightarrow> int \<Rightarrow> time \<Rightarrow> pool \<Rightarrow> pool" where
  "poolCondition E ty status reason msg gen t p = p\<lparr>pl_status := (pl_status p)\<lparr>pst_conditions :=
     libSet E t (pst_conditions (pl_status p))
       \<lparr>cond_type = ty, cond_status = status, cond_reason = reason, cond_message = msg,
        cond_generation = gen, cond_transition = zeroTime\<rparr>\<rparr>\<rparr>"

definition markActivity :: "time \<Rightarrow> pool \<Rightarrow> pool" where
  "markActivity ts p = p\<lparr>pl_status := (pl_status p)\<lparr>pst_lastScaleActivity := Some ts,
     pst_observedGeneration := om_generation (pl_meta p)\<rparr>\<rparr>"

definition setNextSequence :: "int \<Rightarrow> pool \<Rightarrow> pool" where
  "setNextSequence n p = p\<lparr>pl_status := (pl_status p)\<lparr>pst_nextClaimSequence := n\<rparr>\<rparr>"

definition markScaledDown :: "'w env \<Rightarrow> time \<Rightarrow> string \<Rightarrow> time \<Rightarrow> pool \<Rightarrow> pool" where
  "markScaledDown E ts msg t p = poolCondition E ''Progressing'' CTrue ''ScalingDown'' msg
     (om_generation (pl_meta p)) t (markActivity ts p)"

definition markScaledUp :: "'w env \<Rightarrow> time \<Rightarrow> int \<Rightarrow> string \<Rightarrow> time \<Rightarrow> pool \<Rightarrow> pool" where
  "markScaledUp E ts nextSeq msg t p = poolCondition E ''Progressing'' CTrue ''ScalingUp'' msg
     (om_generation (pl_meta p)) t (setNextSequence nextSeq (markActivity ts p))"

definition markUnavailable :: "'w env \<Rightarrow> string \<Rightarrow> string \<Rightarrow> time \<Rightarrow> pool \<Rightarrow> pool" where
  "markUnavailable E reason msg t p = poolCondition E ''Available'' CFalse reason msg
     (om_generation (pl_meta p)) t p"

section \<open>Scale down\<close>

definition scaleDownClaim :: "'w env \<Rightarrow> pool \<Rightarrow> node \<Rightarrow> claim \<Rightarrow> 'w st \<Rightarrow> reconcile_result \<times> 'w st" where
  "scaleDownClaim E pl n c s = (case deleteClaim E c s of
     (Some e, s1) \<Rightarrow> (if IsNotFound e then ((0, None), s1) else ((minute, Some e), s1))
   | (None, s1) \<Rightarrow>
       (case updatePoolStatus E pl (markScaledDown E (now E s1)
           (''Deleted claim '' @ cl_name c @ '' for node '' @ nd_name n)) s1 of
         ((Some e, _), s2) \<Rightarrow> ((0, Some e), s2)
       | ((None, pl1), s2) \<Rightarrow>
           (case recordEvent (pl_name pl1) eventNormal ''ScaledDown''
               (''Removing node '' @ nd_name n @ '' from pool'') s2 of
             (_, s3) \<Rightarrow> ((0, None), s3))))"

fun scaleDownLoop :: "'w env \<Rightarrow> pool \<Rightarrow> node list \<Rightarrow> 'w st \<Rightarrow> reconcile_result \<times> 'w st" where
  "scaleDownLoop E pl [] s = ((0, None), s)"
| "scaleDownLoop E pl (n # ns) s = (case listClaims E (om_namespace (pl_meta pl)) s of
     (Inl e, s1) \<Rightarrow> ((minute, None), s1)
   | (Inr claims, s1) \<Rightarrow>
       (case find (\<lambda>c. cs_poolRef (cl_spec c) = pl_name pl \<and> st_nodeName (cl_status c) = nd_name n) claims of
         None \<Rightarrow> scaleDownLoop E pl ns s1
       | Some c \<Rightarrow> scaleDownClaim E pl n c s1))"

text \<open>The time left of the stabilization window, if the pool is within it.\<close>

definition windowRemaining :: "pool \<Rightarrow> time \<Rightarrow> duration option" where
  "windowRemaining pl t = (case ps_scaleDown (pl_spec pl) of
     None \<Rightarrow> None
   | Some policy \<Rightarrow> (case sp_stabilizationWindow policy of
       None \<Rightarrow> None
     | Some window \<Rightarrow> (case pst_lastScaleActivity (pl_status pl) of
         None \<Rightarrow> None
       | Some lastActivity \<Rightarrow> (let since = timeSub t lastActivity in
           if since < window then Some (sub64 window since) else None))))"

definition reconcileScaleDown :: "'w env \<Rightarrow> pool \<Rightarrow> node list \<Rightarrow> 'w st \<Rightarrow> reconcile_result \<times> 'w st" where
  "reconcileScaleDown E pl nodesInPool s =
     (if 0 < lm_minNodes (ps_limits (pl_spec pl)) \<and> int (length nodesInPool) \<le> lm_minNodes (ps_limits (pl_spec pl))
      then ((0, None), s)
      else (case getScaleDownCandidates E pl s of
        (Inl e, s1) \<Rightarrow> ((minute, None), s1)
      | (Inr nodes, s1) \<Rightarrow>
          (if nodes = [] then ((0, None), s1)
           else (case windowRemaining pl (now E s1) of
             Some remaining \<Rightarrow> ((remaining, None), s1)
           | None \<Rightarrow> scaleDownLoop E pl nodes s1))))"

section \<open>Creating claims\<close>

definition newClaim :: "pool \<Rightarrow> string \<Rightarrow> claim_resources \<Rightarrow> string \<Rightarrow> claim" where
  "newClaim pl claimName resources uid = \<lparr>
     cl_meta = \<lparr>om_name = claimName, om_namespace = om_namespace (pl_meta pl),
       om_labels = mapPutAll (ps_templateLabels (pl_spec pl))
         (if ps_poolLabelKey (pl_spec pl) \<noteq> [] then [(ps_poolLabelKey (pl_spec pl), pl_name pl)] else []),
       om_annotations = [], om_finalizers = [], om_deletion = None, om_creation = zeroTime,
       om_generation = 0, om_rv = [], om_owners = []\<rparr>,
     cl_spec = \<lparr>cs_poolRef = pl_name pl,
       cs_requirements = Some \<lparr>rq_cpuCores = cr_cpuCores resources, rq_memoryMiB = cr_memoryMiB resources\<rparr>,
       cs_idempotencyKey = uid, cs_terminationGracePeriod = None\<rparr>,
     cl_status = \<lparr>st_conditions = [], st_providerID = [], st_nodeName = [], st_providerRef = [],
       st_launchAttempts = 0, st_lease = None\<rparr>\<rparr>"

definition ensureClaim :: "'w env \<Rightarrow> pool \<Rightarrow> string \<Rightarrow> claim_resources \<Rightarrow> 'w st \<Rightarrow> goerr option \<times> 'w st" where
  "ensureClaim E pl claimName resources s =
     (case getClaim E (om_namespace (pl_meta pl), claimName) s of
       (Inr existing, s1) \<Rightarrow> (None, s1)
     | (Inl e, s1) \<Rightarrow>
         (if \<not> IsNotFound e then (Some (wrapf (''get existing claim '' @ claimName @ '': '') e), s1)
          else (case libSetControllerRef E pl (newClaim pl claimName resources (newUUID E (world s1))) of
            Inl e1 \<Rightarrow> (Some (wrapf ''set owner reference: '' e1), s1)
          | Inr c \<Rightarrow> (case createClaim E c s1 of
              (None, s2) \<Rightarrow> (None, s2)
            | (Some e2, s2) \<Rightarrow>
                (if IsAlreadyExists e2 then (None, s2)
                 else (Some (wrapf (''create claim '' @ claimName @ '': '') e2), s2))))))"

definition claimNameFor :: "pool \<Rightarrow> int \<Rightarrow> string" where
  "claimNameFor pl q = pl_name pl @ ''-'' @ fmt06d q"

text \<open>The loop over the planned claims: the next sequence number and how many were created.\<close>

fun createLoop ::
  "'w env \<Rightarrow> pool \<Rightarrow> claim_resources list \<Rightarrow> int \<Rightarrow> int \<Rightarrow> 'w st \<Rightarrow> (goerr + int \<times> int) \<times> 'w st" where
  "createLoop E pl [] nextSeq created s = (Inr (nextSeq, created), s)"
| "createLoop E pl (spec # specs) nextSeq created s =
     (case ensureClaim E pl (claimNameFor pl nextSeq) spec s of
       (Some e, s1) \<Rightarrow> (Inl e, s1)
     | (None, s1) \<Rightarrow> createLoop E pl specs (add64 nextSeq 1) (created + 1) s1)"

section \<open>Scale up\<close>

text \<open>
  The first part of \<open>reconcileScaleUp\<close>: what to create for the candidate pods. \<open>Inl\<close> is an
  early return.
\<close>

definition scaleUpPlan ::
  "'w env \<Rightarrow> pool \<Rightarrow> pod list \<Rightarrow> node list \<Rightarrow> 'w st \<Rightarrow> (reconcile_result + claim list \<times> claim_resources list) \<times> 'w st" where
  "scaleUpPlan E pl candidatePods nodesInPool s = (case listClaims E (om_namespace (pl_meta pl)) s of
     (Inl e, s1) \<Rightarrow> (Inl (minute, None), s1)
   | (Inr claims, s1) \<Rightarrow>
       (let template = determineNodeCapacity (pl_name pl) nodesInPool claims candidatePods in
        if cap_cpuMilli template = 0 \<or> cap_memBytes template = 0 then (Inl (0, None), s1)
        else (case buildNodeBuckets E nodesInPool s1 of
          (Inl e, s2) \<Rightarrow> (Inl (minute, None), s2)
        | (Inr nodeBuckets, s2) \<Rightarrow>
            (let specs = planCapacity candidatePods
                   (nodeBuckets @ buildPendingClaimBuckets E claims (pl_name pl)) template in
             if specs = [] then (Inl (0, None), s2) else (Inr (claims, specs), s2)))))"

fun sumSpecs :: "claim_resources list \<Rightarrow> int \<times> int \<Rightarrow> int \<times> int" where
  "sumSpecs [] acc = acc"
| "sumSpecs (r # rs) (cpu, mem) =
     sumSpecs rs (add64 cpu (coresToMilli (cr_cpuCores r)), add64 mem (mibToBytes (cr_memoryMiB r)))"

definition maxCapacityMessage :: "int \<Rightarrow> int \<Rightarrow> int \<Rightarrow> string" where
  "maxCapacityMessage nodeTotal limit pending = ''Pool at max capacity: '' @ fmtD nodeTotal @ ''/'' @ fmtD limit @
     '' nodes (including '' @ fmtD pending @ '' pending)''"

definition scaleUpBlocked :: "'w env \<Rightarrow> pool \<Rightarrow> string \<Rightarrow> string \<Rightarrow> 'w st \<Rightarrow> reconcile_result \<times> 'w st" where
  "scaleUpBlocked E pl reason msg s = (case recordEvent (pl_name pl) eventWarning ''ScaleUpBlocked'' msg s of
     (_, s1) \<Rightarrow> (case updatePoolStatus E pl (markUnavailable E reason msg) s1 of
       (_, s2) \<Rightarrow> ((30 * second, None), s2)))"

definition startSequence :: "pool \<Rightarrow> int" where
  "startSequence pl =
     (if pst_nextClaimSequence (pl_status pl) \<le> 0 then 1 else pst_nextClaimSequence (pl_status pl))"

text \<open>The last part: create the claims and record the activity.\<close>

definition scaleUpCreate ::
  "'w env \<Rightarrow> pool \<Rightarrow> nat \<Rightarrow> claim_resources list \<Rightarrow> 'w st \<Rightarrow> reconcile_result \<times> 'w st" where
  "scaleUpCreate E pl candidates specs s =
     (case createLoop E pl specs (startSequence pl) 0 s of
        (Inl e, s1) \<Rightarrow> ((minute, Some e), s1)
      | (Inr (nextSeq', created), s1) \<Rightarrow>
          (if created = 0 then ((0, None), s1)
           else (case updatePoolStatus E pl (markScaledUp E (now E s1) nextSeq' (''Created '' @ fmtD created @
                 '' new claims for '' @ fmtD (int candidates) @ '' pending pods'')) s1 of
             ((Some e, _), s2) \<Rightarrow> ((0, Some e), s2)
           | ((None, pl1), s2) \<Rightarrow>
               (case recordEvent (pl_name pl1) eventNormal ''ScaledUp'' (''Created '' @ fmtD created @
                   '' NodeSmithClaims to accommodate pending pods'') s2 of
                 (_, s3) \<Rightarrow> ((0, None), s3)))))"

text \<open>The middle part: the limits of the pool.\<close>

definition scaleUpLimited ::
  "'w env \<Rightarrow> pool \<Rightarrow> nat \<Rightarrow> node list \<Rightarrow> claim list \<Rightarrow> claim_resources list \<Rightarrow> 'w st \<Rightarrow> reconcile_result \<times> 'w st" where
  "scaleUpLimited E pl candidates nodesInPool claims specs s =
     (case countInflightClaims E (now E s) (Some pl) (Some claims) of
       Inl e \<Rightarrow> ((minute, None), s)
     | Inr (pendingCount, pendingCPU, pendingMem) \<Rightarrow>
         (case getPoolResourceUsage E pl s of
           (Inl e, s1) \<Rightarrow> ((minute, None), s1)
         | (Inr usage, s1) \<Rightarrow>
             (let currentNodes = int (length nodesInPool);
                  limits = ps_limits (pl_spec pl) in
              if 0 < lm_maxNodes limits \<and> lm_maxNodes limits < currentNodes + pendingCount + int (length specs)
              then scaleUpBlocked E pl ''MaxNodesReached''
                (maxCapacityMessage (currentNodes + pendingCount) (lm_maxNodes limits) pendingCount) s1
              else (case sumSpecs specs (0, 0) of (newCPU, newMem) \<Rightarrow>
                (case exceedsPoolLimits usage limits pendingCPU pendingMem newCPU newMem of
                  (exceeded, reason) \<Rightarrow>
                    (if exceeded then scaleUpBlocked E pl ''ResourceLimitReached'' reason s1
                     else scaleUpCreate E pl candidates specs s1))))))"

definition reconcileScaleUp ::
  "'w env \<Rightarrow> pool \<Rightarrow> pod list \<Rightarrow> node list \<Rightarrow> 'w st \<Rightarrow> reconcile_result outcome \<times> 'w st" where
  "reconcileScaleUp E pl unschedulable nodesInPool s = (case filterPodsForPool unschedulable pl of
     Panic m \<Rightarrow> (Panic m, s)
   | Ret candidatePods \<Rightarrow>
       (if candidatePods = [] then (Ret (0, None), s)
        else (case scaleUpPlan E pl candidatePods nodesInPool s of
          (Inl r, s1) \<Rightarrow> (Ret r, s1)
        | (Inr (claims, specs), s1) \<Rightarrow>
            (case scaleUpLimited E pl (length candidatePods) nodesInPool claims specs s1 of
              (r, s2) \<Rightarrow> (Ret r, s2)))))"

section \<open>Availability\<close>

definition availability :: "pool \<Rightarrow> pool_usage \<Rightarrow> int \<times> int \<times> int \<Rightarrow> cond_status \<times> string \<times> string" where
  "availability pl usage pending = (case pending of (pendingCount, pendingCPU, pendingMem) \<Rightarrow>
     (let limits = ps_limits (pl_spec pl); nodeTotal = pu_nodeCount usage + pendingCount in
      if 0 < lm_maxNodes limits \<and> lm_maxNodes limits \<le> nodeTotal
      then (CFalse, ''MaxNodesReached'', maxCapacityMessage nodeTotal (lm_maxNodes limits) pendingCount)
      else (case exceedsPoolLimits usage limits pendingCPU pendingMem 0 0 of
        (exceeded, reason) \<Rightarrow>
          (if exceeded then (CFalse, ''ResourceLimitReached'', reason)
           else (CTrue, ''Available'', ''Pool within limits'')))))"

text \<open>Every failure is logged only; the result is the pool with its refreshed status.\<close>

definition refreshPoolStatus :: "'w env \<Rightarrow> pool \<Rightarrow> 'w st \<Rightarrow> pool \<times> 'w st" where
  "refreshPoolStatus E pl s = (case listClaims E (om_namespace (pl_meta pl)) s of
     (Inl e, s1) \<Rightarrow> (pl, s1)
   | (Inr claims, s1) \<Rightarrow> (case countInflightClaims E (now E s1) (Some pl) (Some claims) of
       Inl e \<Rightarrow> (pl, s1)
     | Inr pending \<Rightarrow> (case getPoolResourceUsage E pl s1 of
         (Inl e, s2) \<Rightarrow> (pl, s2)
       | (Inr usage, s2) \<Rightarrow> (case availability pl usage pending of
           (status, reason, msg) \<Rightarrow>
             (case updatePoolStatus E pl
                 (poolCondition E ''Available'' status reason msg (om_generation (pl_meta pl))) s2 of
               ((_, pl1), s3) \<Rightarrow> (pl1, s3))))))"

section \<open>Finalization\<close>

fun finalizeLoop ::
  "'w env \<Rightarrow> string \<Rightarrow> claim list \<Rightarrow> int \<Rightarrow> int \<Rightarrow> 'w st \<Rightarrow> (goerr + int \<times> int) \<times> 'w st" where
  "finalizeLoop E poolName [] deleted remaining s = (Inr (deleted, remaining), s)"
| "finalizeLoop E poolName (c # cs) deleted remaining s =
     (if cs_poolRef (cl_spec c) \<noteq> poolName then finalizeLoop E poolName cs deleted remaining s
      else if timePtrIsZero (om_deletion (cl_meta c)) then
        (case deleteClaim E c s of
          (Some e, s1) \<Rightarrow> (if \<not> IsNotFound e then (Inl e, s1)
             else finalizeLoop E poolName cs (deleted + 1) remaining s1)
        | (None, s1) \<Rightarrow> finalizeLoop E poolName cs (deleted + 1) remaining s1)
      else finalizeLoop E poolName cs deleted (remaining + 1) s)"

definition finalizePool :: "'w env \<Rightarrow> pool \<Rightarrow> 'w st \<Rightarrow> reconcile_result \<times> 'w st" where
  "finalizePool E pl s =
     (if \<not> libContainsFinalizer E (pl_meta pl) finalizerNodeSmithPool then ((0, None), s)
      else (case listClaims E (om_namespace (pl_meta pl)) s of
        (Inl e, s1) \<Rightarrow> ((5 * second, Some e), s1)
      | (Inr claims, s1) \<Rightarrow> (case finalizeLoop E (pl_name pl) claims 0 0 s1 of
          (Inl e, s2) \<Rightarrow> ((5 * second, Some e), s2)
        | (Inr (deleted, remaining), s2) \<Rightarrow>
            (if 0 < remaining
             then (case recordEvent (pl_name pl) eventNormal ''Finalizing''
                 (''Waiting for '' @ fmtD remaining @ '' claims to be deleted'') s2 of
                 (_, s3) \<Rightarrow> ((5 * second, None), s3))
             else (case updatePool E (pl\<lparr>pl_meta := libRemoveFinalizer E (pl_meta pl) finalizerNodeSmithPool\<rparr>) s2 of
                 (Inl e, s3) \<Rightarrow> ((0, Some e), s3)
               | (Inr _, s3) \<Rightarrow> (case recordEvent (pl_name pl) eventNormal ''Finalized''
                   (''Pool finalized, deleted '' @ fmtD deleted @ '' claims'') s3 of
                   (_, s4) \<Rightarrow> ((0, None), s4)))))))"

section \<open>Reconcile\<close>

definition scaleResult :: "reconcile_result \<Rightarrow> reconcile_result" where
  "scaleResult r = (if snd r \<noteq> None \<or> 0 < fst r then r else (0, None))"

definition poolScale :: "'w env \<Rightarrow> pool \<Rightarrow> pod list \<Rightarrow> node list \<Rightarrow> 'w st \<Rightarrow> reconcile_result outcome \<times> 'w st" where
  "poolScale E pl unschedulable nodesInPool s =
     (if unschedulable \<noteq> [] then
        (case reconcileScaleUp E pl unschedulable nodesInPool s of
          (Panic m, s1) \<Rightarrow> (Panic m, s1)
        | (Ret r, s1) \<Rightarrow> (Ret (scaleResult r), s1))
      else if lm_minNodes (ps_limits (pl_spec pl)) < int (length nodesInPool) then
        (case reconcileScaleDown E pl nodesInPool s of (r, s1) \<Rightarrow> (Ret (scaleResult r), s1))
      else (Ret (0, None), s))"

definition reconcilePool :: "'w env \<Rightarrow> nskey \<Rightarrow> 'w st \<Rightarrow> reconcile_result outcome \<times> 'w st" where
  "reconcilePool E key s = (case newClientset E of
     Some e \<Rightarrow> (Ret (0, Some e), s)
   | None \<Rightarrow> (case getPool E key s of
       (Inl e, s1) \<Rightarrow> (Ret (0, ignoreNotFound e), s1)
     | (Inr pl, s1) \<Rightarrow>
         (if \<not> timePtrIsZero (om_deletion (pl_meta pl))
          then (case finalizePool E pl s1 of (r, s2) \<Rightarrow> (Ret r, s2))
          else if \<not> libContainsFinalizer E (pl_meta pl) finalizerNodeSmithPool
          then (case updatePool E (pl\<lparr>pl_meta := libAddFinalizer E (pl_meta pl) finalizerNodeSmithPool\<rparr>) s1 of
              (Inl e, s2) \<Rightarrow> (Ret (0, Some e), s2)
            | (Inr _, s2) \<Rightarrow> (Ret (millisecond, None), s2))
          else (case getUnschedulablePods E s1 of
            (Inl e, s2) \<Rightarrow> (Ret (minute, None), s2)
          | (Inr pods, s2) \<Rightarrow>
              (case getNodesByLabel E (ps_poolLabelKey (pl_spec pl)) (pl_name pl) s2 of (r, s3) \<Rightarrow>
                (let nodesInPool = (case r of Inl e \<Rightarrow> [] | Inr ns \<Rightarrow> ns) in
                 case refreshPoolStatus E pl s3 of (pl1, s4) \<Rightarrow> poolScale E pl1 pods nodesInPool s4))))))"

end
