(* ===== verification/Pool_Safety.thy ===== *)
theory Pool_Safety
  imports Pool_Controller "HOL-Library.Sublist"
begin

text \<open>
  What a reconcile of a pool does: which claims it creates and within which limits, which claim a
  scale-down deletes, and what the finalization of a pool deletes before it lets the pool go.
\<close>

section \<open>Claim names\<close>

lemma fmt06d_no_dash: "0 \<le> i \<Longrightarrow> CHR ''-'' \<notin> set (fmt06d i)"
  by (auto simp: fmt06d_def padZeros_def isDigit_def dest!: decNat_digits)

lemma dash_split:
  assumes "p @ CHR ''-'' # x = q @ CHR ''-'' # y" "CHR ''-'' \<notin> set x" "CHR ''-'' \<notin> set y"
  shows "p = q \<and> x = y"
proof -
  have "rev x @ CHR ''-'' # rev p = rev y @ CHR ''-'' # rev q"
    using arg_cong [OF assms(1), of rev] by simp
  from arg_cong [OF this, of "takeWhile (\<lambda>c. c \<noteq> CHR ''-'')"] have "rev x = rev y"
    using assms(2,3) by (auto simp: takeWhile_append split: if_splits)
  with assms(1) show ?thesis by simp
qed

lemma claimNameFor_inject:
  assumes "claimNameFor p i = claimNameFor q j" "0 \<le> i" "0 \<le> j"
  shows "pl_name p = pl_name q \<and> i = j"
  using dash_split [of "pl_name p" "fmt06d i" "pl_name q" "fmt06d j"] assms fmt06d_no_dash [of i]
    fmt06d_no_dash [of j] fmt06d_inject [of i j]
  by (simp add: claimNameFor_def)

text \<open>The claims a scale-up asks for: names from consecutive sequence numbers.\<close>

fun plannedClaims :: "pool \<Rightarrow> int \<Rightarrow> claim_resources list \<Rightarrow> (string \<times> claim_resources) list" where
  "plannedClaims pl q [] = []"
| "plannedClaims pl q (r # rs) = (claimNameFor pl q, r) # plannedClaims pl (add64 q 1) rs"

lemma plannedClaims_names:
  assumes "0 \<le> q" "q + int (length rs) < 2 ^ 63"
  shows "map fst (plannedClaims pl q rs) = map (\<lambda>i. claimNameFor pl (q + int i)) [0..<length rs]"
  using assms
proof (induction rs arbitrary: q)
  case (Cons r rs)
  then have "add64 q 1 = q + 1" by (simp add: add64_def in64_def)
  with Cons show ?case
    by (simp add: map_upt_Suc del: upt_Suc) (simp add: algebra_simps)
qed simp

lemma plannedClaims_length [simp]: "length (plannedClaims pl q rs) = length rs"
  by (induction rs arbitrary: q) auto

lemma plannedClaims_resources [simp]: "map snd (plannedClaims pl q rs) = rs"
  by (induction rs arbitrary: q) auto

section \<open>Creating claims\<close>

fun createdClaims :: "ext_call list \<Rightarrow> claim list" where
  "createdClaims [] = []"
| "createdClaims (ECreateClaim c a # evs) = c # createdClaims evs"
| "createdClaims (e # evs) = createdClaims evs"

lemma createdClaims_append [simp]: "createdClaims (xs @ ys) = createdClaims xs @ createdClaims ys"
  by (induction xs rule: createdClaims.induct) auto

fun isCreate :: "ext_call \<Rightarrow> bool" where
  "isCreate (ECreateClaim c a) = True"
| "isCreate _ = False"

lemma createdClaims_none: "list_all (\<lambda>e. \<not> isCreate e) evs \<Longrightarrow> createdClaims evs = []"
  by (induction evs rule: createdClaims.induct) auto

definition resourcesOf :: "claim \<Rightarrow> claim_resources" where
  "resourcesOf c = (case cs_requirements (cl_spec c) of
     None \<Rightarrow> \<lparr>cr_cpuCores = 0, cr_memoryMiB = 0\<rparr>
   | Some rq \<Rightarrow> \<lparr>cr_cpuCores = rq_cpuCores rq, cr_memoryMiB = rq_memoryMiB rq\<rparr>)"

text \<open>A claim made for a pool: in its namespace, for it, with its labels and nothing else set.\<close>

definition claimOfPool :: "pool \<Rightarrow> claim \<Rightarrow> bool" where
  "claimOfPool pl c \<longleftrightarrow> om_namespace (cl_meta c) = om_namespace (pl_meta pl) \<and> cs_poolRef (cl_spec c) = pl_name pl \<and>
     cs_requirements (cl_spec c) \<noteq> None \<and> om_labels (cl_meta c) = buildPoolLabelSet pl \<and>
     st_providerID (cl_status c) = [] \<and> st_nodeName (cl_status c) = [] \<and> st_launchAttempts (cl_status c) = 0 \<and>
     st_conditions (cl_status c) = [] \<and> st_lease (cl_status c) = None \<and> om_deletion (cl_meta c) = None"

lemma ensureClaim_log:
  assumes "env_ok E"
  shows "tspec s (ensureClaim E pl nm r s) (\<lambda>_ evs. createdClaims evs = [] \<or>
    (\<exists>c. createdClaims evs = [c] \<and> cl_name c = nm \<and> resourcesOf c = r \<and> claimOfPool pl c))"
proof -
  have new: "cl_name c = nm \<and> resourcesOf c = r \<and> claimOfPool pl c"
    if "libSetControllerRef E pl (newClaim pl nm r u) = Inr c" for u c
    using env_okD(4) [OF assms] that unfolding ownerref_ok_def
    by (fastforce simp: newClaim_def resourcesOf_def claimOfPool_def buildPoolLabelSet_def)
  show ?thesis unfolding ensureClaim_def
    apply (rule tspec_bind_call)
    apply (split sum.split, intro conjI allI impI)
     apply (split if_split, intro conjI impI)
      apply (rule tspec_ret, simp)
     apply (split sum.split, intro conjI allI impI)
      apply (rule tspec_ret, simp)
     apply (rule tspec_bind_call)
     apply (auto split: option.split dest!: new intro!: tspec_ret) [1]
    apply (rule tspec_ret, simp)
    done
qed

abbreviation asPlanned :: "claim \<Rightarrow> string \<times> claim_resources" where
  "asPlanned c \<equiv> (cl_name c, resourcesOf c)"

lemma createLoop_log:
  assumes "env_ok E"
  shows "tspec s (createLoop E pl specs q n s) (\<lambda>_ evs.
    subseq (map asPlanned (createdClaims evs)) (plannedClaims pl q specs) \<and> list_all (claimOfPool pl) (createdClaims evs))"
proof (induction specs arbitrary: q n s)
  case Nil
  show ?case by (simp add: tspec_ret)
next
  case (Cons r specs)
  show ?case unfolding createLoop.simps
    apply (rule tspec_bind [OF ensureClaim_log [OF assms]])
    apply (split option.split, intro conjI allI impI)
     apply (rule tspec_mono [OF Cons.IH], auto) [1]
    apply (rule tspec_ret, auto) [1]
    done
qed

lemma createLoop_result:
  assumes "createLoop E pl specs q n s = (Inr (q', n'), s')" "0 \<le> q" "q + int (length specs) < 2 ^ 63"
  shows "q' = q + int (length specs) \<and> n' = n + int (length specs)"
  using assms
proof (induction specs arbitrary: q n s)
  case (Cons r specs)
  then have "add64 q 1 = q + 1" by (simp add: add64_def in64_def)
  with Cons.prems(1) obtain s1 where "createLoop E pl specs (q + 1) (n + 1) s1 = (Inr (q', n'), s')"
    by (auto split: prod.splits option.splits)
  from Cons.IH [OF this] Cons.prems(2,3) show ?case by simp
qed simp

section \<open>Reads\<close>

lemma getPoolResourceUsage_reads [emits_intros]: "emits isRead s (getPoolResourceUsage E pl s)"
  unfolding getPoolResourceUsage_def getNodesByLabel_def
  by (intro emits_intros usageLoop_reads) simp_all

lemma buildNodeBuckets_reads [emits_intros]: "emits isRead s (buildNodeBuckets E ns s)"
  by (induction ns arbitrary: s) (auto simp: listPodsOnNode_def intro!: emits_intros)

lemma candidateLoop_reads [emits_intros]: "emits isRead s (candidateLoop E ns s)"
  by (induction ns arbitrary: s) (auto simp: getEvictablePods_def intro!: emits_intros)

lemma getScaleDownCandidates_reads [emits_intros]: "emits isRead s (getScaleDownCandidates E pl s)"
  unfolding getScaleDownCandidates_def getNodesByLabel_def by (intro emits_intros) simp_all

lemma getUnschedulablePods_reads [emits_intros]: "emits isRead s (getUnschedulablePods E s)"
  unfolding getUnschedulablePods_def by (intro emits_intros) simp_all

lemma isRead_not_create: "isRead e \<Longrightarrow> \<not> isCreate e"
  by (cases e) auto

lemma reads_create_nothing: "list_all isRead evs \<Longrightarrow> createdClaims evs = []"
  by (rule createdClaims_none) (auto simp: list_all_iff dest: isRead_not_create)

text \<open>Calls that touch neither claims nor nodes: reads, events and the status of the pool.\<close>

fun poolOnly :: "ext_call \<Rightarrow> bool" where
  "poolOnly (EStatusPool _ _) = True"
| "poolOnly (ERecord _ _ _ _) = True"
| "poolOnly e = isRead e"

lemma isRead_poolOnly: "isRead e \<Longrightarrow> poolOnly e"
  by (cases e) auto

lemma poolOnly_create_nothing: "list_all poolOnly evs \<Longrightarrow> createdClaims evs = []"
proof (rule createdClaims_none)
  have "\<not> isCreate e" if "poolOnly e" for e using that by (cases e) auto
  then show "list_all poolOnly evs \<Longrightarrow> list_all (\<lambda>e. \<not> isCreate e) evs" by (auto simp: list_all_iff)
qed

lemma poolWrote_poolOnly: "poolWrote p m e \<Longrightarrow> poolOnly e"
  by (cases e) auto

lemma updatePoolStatus_poolOnly [emits_intros]: "env_ok E \<Longrightarrow> emits poolOnly s (updatePoolStatus E p m s)"
  by (erule pool_status.write_emits) (rule poolWrote_poolOnly)

lemma scaleUpBlocked_poolOnly [emits_intros]: "env_ok E \<Longrightarrow> emits poolOnly s (scaleUpBlocked E pl rs msg s)"
  unfolding scaleUpBlocked_def by (intro emits_intros) simp_all

section \<open>Scale up\<close>

definition planned :: "pool \<Rightarrow> claim_resources list \<Rightarrow> ext_call list \<Rightarrow> bool" where
  "planned pl specs evs \<longleftrightarrow>
     subseq (map asPlanned (createdClaims evs)) (plannedClaims pl (startSequence pl) specs) \<and>
     list_all (claimOfPool pl) (createdClaims evs)"

lemma planned_length: "planned pl specs evs \<Longrightarrow> length (createdClaims evs) \<le> length specs"
  by (auto simp: planned_def dest: list_emb_length)

lemma scaleUpCreate_log:
  assumes "env_ok E"
  shows "tspec s (scaleUpCreate E pl k specs s) (\<lambda>_. planned pl specs)"
proof -
  have tail: "emits poolOnly s1 (case updatePoolStatus E pl m s1 of
        ((Some e, _), s2) \<Rightarrow> ((0, Some e), s2)
      | ((None, pl1), s2) \<Rightarrow> (case recordEvent (pl_name pl1) a b c s2 of (_, s3) \<Rightarrow> ((0, None), s3)))"
    for s1 m a b c
    using assms by (intro emits_intros) simp_all
  show ?thesis unfolding scaleUpCreate_def
    apply (rule tspec_bind [OF createLoop_log [OF assms]])
    apply (split sum.split, intro conjI allI impI)
     apply (rule tspec_ret, simp add: planned_def)
    apply (split prod.split, intro allI impI)
    apply (split if_split, intro conjI impI)
     apply (rule tspec_ret, simp add: planned_def)
    apply (rule emits_tspec [OF tail], simp add: planned_def poolOnly_create_nothing)
    done
qed

text \<open>The claims created after the limits were checked against the listed claims and nodes.\<close>

definition withinLimits :: "'w env \<Rightarrow> pool \<Rightarrow> node list \<Rightarrow> claim list \<Rightarrow> claim_resources list \<Rightarrow> 'w st \<Rightarrow> bool" where
  "withinLimits E pl nodes claims specs s1 \<longleftrightarrow> (\<exists>pendingCount pendingCPU pendingMem usage s2.
     countInflightClaims E (now E s1) (Some pl) (Some claims) = Inr (pendingCount, pendingCPU, pendingMem) \<and>
     getPoolResourceUsage E pl s1 = (Inr usage, s2) \<and>
     (0 < lm_maxNodes (ps_limits (pl_spec pl)) \<longrightarrow>
        int (length nodes) + pendingCount + int (length specs) \<le> lm_maxNodes (ps_limits (pl_spec pl))) \<and>
     \<not> fst (exceedsPoolLimits usage (ps_limits (pl_spec pl)) pendingCPU pendingMem
        (fst (sumSpecs specs (0, 0))) (snd (sumSpecs specs (0, 0)))))"

lemma scaleUpLimited_log:
  assumes "env_ok E"
  shows "tspec s (scaleUpLimited E pl k nodes claims specs s) (\<lambda>_ evs. createdClaims evs = [] \<or>
    planned pl specs evs \<and> withinLimits E pl nodes claims specs s)"
proof -
  have blocked: "tspec s1 (scaleUpBlocked E pl rs msg s1) (\<lambda>_ evs'. createdClaims (evs @ evs') = [] \<or> X evs')"
    if "list_all isRead evs" for s1 rs msg X evs
    by (rule emits_tspec [OF scaleUpBlocked_poolOnly [OF assms]])
      (simp add: that reads_create_nothing poolOnly_create_nothing)
  have create: "tspec s1 (scaleUpCreate E pl k specs s1) (\<lambda>_ evs'. createdClaims (evs @ evs') = [] \<or>
      planned pl specs (evs @ evs') \<and> withinLimits E pl nodes claims specs s)"
    if "list_all isRead evs" "withinLimits E pl nodes claims specs s" for s1 evs
    by (rule tspec_mono [OF scaleUpCreate_log [OF assms]]) (use that in \<open>auto simp: planned_def reads_create_nothing\<close>)
  show ?thesis unfolding scaleUpLimited_def
    apply (split sum.split, intro conjI allI impI)
     apply (rule tspec_ret, simp)
    apply (split prod.split, intro allI impI, split prod.split, intro allI impI)
    apply (rule tspec_bind [OF getPoolResourceUsage_reads [unfolded emits_def]])
    apply (split sum.split, intro conjI allI impI)
     apply (rule tspec_ret, simp add: reads_create_nothing)
    apply (unfold Let_def)
    apply (split if_split, intro conjI impI)
     apply (rule blocked, assumption)
    apply (split prod.split, intro allI impI, split prod.split, intro allI impI)
    apply (split if_split, intro conjI impI)
     apply (rule blocked, assumption)
    apply (rule create, assumption)
    apply (fastforce simp: withinLimits_def)
    done
qed

lemma scaleUpPlan_log:
  "tspec s (scaleUpPlan E pl cands nodes s) (\<lambda>r evs. list_all isRead evs \<and>
    (\<forall>claims specs. r = Inr (claims, specs) \<longrightarrow> EListClaims (om_namespace (pl_meta pl)) (Inr claims) \<in> set evs))"
  unfolding scaleUpPlan_def
  apply (rule tspec_bind_call)
  apply (split sum.split, intro conjI allI impI)
   apply (rule tspec_ret, simp)
  apply (unfold Let_def)
  apply (split if_split, intro conjI impI)
   apply (rule tspec_ret, simp)
  apply (rule tspec_bind [OF buildNodeBuckets_reads [unfolded emits_def]])
  apply (auto split: sum.split intro!: tspec_ret)
  done

lemma reconcileScaleUp_log:
  assumes "env_ok E"
  shows "tspec s (reconcileScaleUp E pl pods nodes s) (\<lambda>_ evs. createdClaims evs = [] \<or>
    (\<exists>cands claims specs s1. filterPodsForPool pods pl = Ret cands \<and> scaleUpPlan E pl cands nodes s = (Inr (claims, specs), s1) \<and>
      EListClaims (om_namespace (pl_meta pl)) (Inr claims) \<in> set evs \<and>
      planned pl specs evs \<and> withinLimits E pl nodes claims specs s1))"
  unfolding reconcileScaleUp_def
  apply (split outcome.split, intro conjI allI impI)
   apply (split if_split, intro conjI impI)
    apply (rule tspec_ret, simp)
   apply (rule tspec_bind [OF scaleUpPlan_log])
   apply (split sum.split, intro conjI allI impI)
    apply (rule tspec_ret, simp add: reads_create_nothing)
   apply (split prod.split, intro allI impI)
   apply (rule tspec_bind [OF scaleUpLimited_log [OF assms]])
   apply (rule tspec_ret)
   apply (auto simp: reads_create_nothing planned_def) [1]
  apply (rule tspec_ret, simp)
  done

text \<open>
  C2. Scale-up never goes beyond the pool's limits: if it creates claims at all, then together
  with the nodes it was given and the claims it counted as inflight in its own listing they stay
  within \<open>maxNodes\<close> (when that is set), and the capacity of everything it planned passed the
  resource check against the usage it measured then, after its plan for the pods that target the pool
  was made. The claims it creates are, in order and without
  repetition, claims of its plan: in the pool's namespace, referring to the pool, with the pool's
  labels, the planned resources, an empty status and the name built from the pool's name and the
  claim's sequence number.
\<close>

theorem scale_up_within_limits:
  assumes "env_ok E"
  shows "\<exists>evs. trace (snd (reconcileScaleUp E pl pods nodes s)) = trace s @ evs \<and>
    (createdClaims evs = [] \<or> (\<exists>cands claims specs pendingCount pendingCPU pendingMem usage s1 s2.
      filterPodsForPool pods pl = Ret cands \<and> scaleUpPlan E pl cands nodes s = (Inr (claims, specs), s1) \<and>
      EListClaims (om_namespace (pl_meta pl)) (Inr claims) \<in> set evs \<and>
      countInflightClaims E (now E s1) (Some pl) (Some claims) = Inr (pendingCount, pendingCPU, pendingMem) \<and>
      (0 < lm_maxNodes (ps_limits (pl_spec pl)) \<longrightarrow>
        int (length nodes) + pendingCount + int (length (createdClaims evs)) \<le> lm_maxNodes (ps_limits (pl_spec pl))) \<and>
      getPoolResourceUsage E pl s1 = (Inr usage, s2) \<and>
      \<not> fst (exceedsPoolLimits usage (ps_limits (pl_spec pl)) pendingCPU pendingMem
        (fst (sumSpecs specs (0, 0))) (snd (sumSpecs specs (0, 0)))) \<and>
      subseq (map (\<lambda>c. (cl_name c, resourcesOf c)) (createdClaims evs)) (plannedClaims pl (startSequence pl) specs) \<and>
      list_all (claimOfPool pl) (createdClaims evs)))" (is "\<exists>evs. _ \<and> (_ \<or> ?W evs)")
proof -
  obtain evs where evs: "trace (snd (reconcileScaleUp E pl pods nodes s)) = trace s @ evs"
    "createdClaims evs = [] \<or> (\<exists>cands claims specs s1. filterPodsForPool pods pl = Ret cands \<and>
      scaleUpPlan E pl cands nodes s = (Inr (claims, specs), s1) \<and>
      EListClaims (om_namespace (pl_meta pl)) (Inr claims) \<in> set evs \<and>
      planned pl specs evs \<and> withinLimits E pl nodes claims specs s1)"
    using reconcileScaleUp_log [OF assms, of s pl pods nodes] unfolding tspec_def by blast
  have W: "?W evs" if f: "filterPodsForPool pods pl = Ret cands" "scaleUpPlan E pl cands nodes s = (Inr (claims, specs), s1)"
    and l: "EListClaims (om_namespace (pl_meta pl)) (Inr claims) \<in> set evs"
    and p: "planned pl specs evs" and w: "withinLimits E pl nodes claims specs s1" for cands claims specs s1
  proof -
    have len: "int (length (createdClaims evs)) \<le> int (length specs)" using planned_length [OF p] by simp
    obtain pc pcpu pmem usage s2 where w:
      "countInflightClaims E (now E s1) (Some pl) (Some claims) = Inr (pc, pcpu, pmem)"
      "getPoolResourceUsage E pl s1 = (Inr usage, s2)"
      "0 < lm_maxNodes (ps_limits (pl_spec pl)) \<longrightarrow>
        int (length nodes) + pc + int (length specs) \<le> lm_maxNodes (ps_limits (pl_spec pl))"
      "\<not> fst (exceedsPoolLimits usage (ps_limits (pl_spec pl)) pcpu pmem
        (fst (sumSpecs specs (0, 0))) (snd (sumSpecs specs (0, 0))))"
      using w unfolding withinLimits_def by blast
    from w(3) len have "0 < lm_maxNodes (ps_limits (pl_spec pl)) \<longrightarrow>
        int (length nodes) + pc + int (length (createdClaims evs)) \<le> lm_maxNodes (ps_limits (pl_spec pl))"
      by linarith
    with f l p w(1,2,4) show ?thesis unfolding planned_def by blast
  qed
  show ?thesis
    apply (rule exI [of _ evs], rule conjI, rule evs(1))
    using evs(2) apply (elim disjE exE conjE)
     apply (rule disjI1, assumption)
    apply (rule disjI2, rule W; assumption)
    done
qed

definition onePod :: "pod list" where "onePod = [samplePod ''p'' 2000 (2 ^ 30)]"

abbreviation scaleUpRun :: "reconcile_result outcome \<times> sample st" where
  "scaleUpRun \<equiv> reconcileScaleUp sampleEnv samplePool onePod [] (startState ((emptyWorld 0)\<lparr>sw_pools := [samplePool]\<rparr>))"

lemma scaleUpRun_creates: "map cl_name (createdClaims (trace (snd scaleUpRun))) = [''pool-000001'']"
  by code_simp

theorem scale_up_within_limits_witness:
  "env_ok sampleEnv \<and> map cl_name (createdClaims (trace (snd scaleUpRun))) = [''pool-000001''] \<and>
   list_all (claimOfPool samplePool) (createdClaims (trace (snd scaleUpRun)))"
proof -
  have start: "trace (startState ((emptyWorld 0)\<lparr>sw_pools := [samplePool]\<rparr>)) = []" by (simp add: startState_def)
  obtain evs where evs: "trace (snd scaleUpRun) = evs" "createdClaims evs = [] \<or> list_all (claimOfPool samplePool) (createdClaims evs)"
    using scale_up_within_limits [OF sampleEnv_ok, of samplePool onePod "[]"
        "startState ((emptyWorld 0)\<lparr>sw_pools := [samplePool]\<rparr>)"] unfolding start by auto
  then have "list_all (claimOfPool samplePool) (createdClaims (trace (snd scaleUpRun)))" by auto
  with scaleUpRun_creates sampleEnv_ok show ?thesis by simp
qed

text \<open>
  C27. Claim names never clash: two names are equal only for the same pool and the same sequence
  number, so, as long as the sequence stays below \<open>2 ^ 63\<close>, the names planned by one scale-up
  are distinct, a later scale-up that starts from the sequence number the first one recorded plans
  different ones, and those of another pool are different from all of them. The recorded number
  is the first one not used.
\<close>

theorem claim_names_unique:
  assumes "0 < q" "q + int (length specs) + int (length specs') < 2 ^ 63"
    and "createLoop E pl specs q 0 s = (Inr (q', n), s')"
    and "0 < k" "k + int (length others) < 2 ^ 63" "pl_name pl2 \<noteq> pl_name pl"
  shows "q' = q + int (length specs) \<and> n = int (length specs) \<and>
    distinct (map fst (plannedClaims pl q specs @ plannedClaims pl q' specs')) \<and>
    set (map fst (plannedClaims pl q specs)) \<inter> set (map fst (plannedClaims pl2 k others)) = {}"
proof -
  have q': "q' = q + int (length specs)" "n = int (length specs)"
    using createLoop_result [OF assms(3)] assms(1,2) by simp_all
  have inj: "i = j" if "claimNameFor pl (a + int i) = claimNameFor pl (a + int j)" "0 < a" for a i j
    using claimNameFor_inject [OF that(1)] that(2) by simp
  have "distinct (map fst (plannedClaims pl a rs))" if "0 < a" "a + int (length rs) < 2 ^ 63" for a rs
    using that by (simp add: plannedClaims_names distinct_map inj_on_def) (blast dest: inj)
  moreover have "set (map fst (plannedClaims pl q specs)) \<inter> set (map fst (plannedClaims pl q' specs')) = {}"
    using assms(1,2) q' by (auto simp: plannedClaims_names dest!: claimNameFor_inject)
  moreover have "set (map fst (plannedClaims pl q specs)) \<inter> set (map fst (plannedClaims pl2 k others)) = {}"
    using assms by (auto simp: plannedClaims_names dest!: claimNameFor_inject)
  ultimately show ?thesis using assms(1,2) q' by simp
qed

definition oneSpec :: "claim_resources list" where
  "oneSpec = [\<lparr>cr_cpuCores = 2, cr_memoryMiB = 1024\<rparr>]"

lemma oneSpec_created: "fst (createLoop sampleEnv samplePool oneSpec 7 0 (startState (emptyWorld 0))) = Inr (8, 1)"
  by code_simp

theorem claim_names_unique_witness:
  "distinct (map fst (plannedClaims samplePool 7 oneSpec @ plannedClaims samplePool 8 oneSpec)) \<and>
   claimNameFor samplePool 7 = ''pool-000007''"
proof -
  obtain s' where run: "createLoop sampleEnv samplePool oneSpec 7 0 (startState (emptyWorld 0)) = (Inr (8, 1), s')"
    using oneSpec_created by (metis prod.collapse)
  have "claimNameFor samplePool 7 = ''pool-000007''" by code_simp
  moreover have "pl_name (samplePool\<lparr>pl_meta := sampleMeta ''other''\<rparr>) \<noteq> pl_name samplePool" by code_simp
  ultimately show ?thesis
    using claim_names_unique [OF _ _ run, of oneSpec 1 "[]" "samplePool\<lparr>pl_meta := sampleMeta ''other''\<rparr>"]
    by (simp add: oneSpec_def)
qed

section \<open>Scale down\<close>

fun deletedClaims :: "ext_call list \<Rightarrow> claim list" where
  "deletedClaims [] = []"
| "deletedClaims (EDeleteClaim c a # evs) = c # deletedClaims evs"
| "deletedClaims (e # evs) = deletedClaims evs"

lemma deletedClaims_append [simp]: "deletedClaims (xs @ ys) = deletedClaims xs @ deletedClaims ys"
  by (induction xs rule: deletedClaims.induct) auto

lemma poolOnly_delete_nothing: "list_all poolOnly evs \<Longrightarrow> deletedClaims evs = []"
  by (induction evs rule: deletedClaims.induct) auto

lemma reads_delete_nothing: "list_all isRead evs \<Longrightarrow> deletedClaims evs = []"
  by (rule poolOnly_delete_nothing) (auto simp: list_all_iff isRead_poolOnly)

text \<open>The one claim a scale-down may delete: a listed claim of the pool, on a candidate node.\<close>

definition scaleDownTarget :: "pool \<Rightarrow> node \<Rightarrow> ext_call list \<Rightarrow> claim \<Rightarrow> bool" where
  "scaleDownTarget pl n evs c \<longleftrightarrow> (\<exists>claims. EListClaims (om_namespace (pl_meta pl)) (Inr claims) \<in> set evs \<and>
     c \<in> set claims) \<and> cs_poolRef (cl_spec c) = pl_name pl \<and> st_nodeName (cl_status c) = nd_name n"

lemma scaleDownClaim_log:
  assumes "env_ok E"
  shows "tspec s (scaleDownClaim E pl n c s) (\<lambda>_ evs. deletedClaims evs = [c] \<and> createdClaims evs = [])"
proof -
  have tail: "emits poolOnly s1 (case updatePoolStatus E pl m s1 of
        ((Some e, _), s2) \<Rightarrow> ((0, Some e), s2)
      | ((None, pl1), s2) \<Rightarrow> (case recordEvent (pl_name pl1) a b d s2 of (_, s3) \<Rightarrow> ((0, None), s3)))"
    for s1 m a b d
    using assms by (intro emits_intros) simp_all
  show ?thesis unfolding scaleDownClaim_def
    apply (rule tspec_bind_call)
    apply (split option.split, intro conjI allI impI)
     apply (rule emits_tspec [OF tail], simp add: poolOnly_delete_nothing poolOnly_create_nothing)
    apply (auto intro!: tspec_ret)
    done
qed

lemma scaleDownLoop_log:
  assumes "env_ok E"
  shows "tspec s (scaleDownLoop E pl cands s) (\<lambda>_ evs. createdClaims evs = [] \<and>
    (deletedClaims evs = [] \<or> (\<exists>c. \<exists>n \<in> set cands. deletedClaims evs = [c] \<and> scaleDownTarget pl n evs c)))"
proof (induction cands arbitrary: s)
  case Nil
  show ?case by (simp add: tspec_ret)
next
  case (Cons n ns)
  have found: "cs_poolRef (cl_spec c) = pl_name pl" "st_nodeName (cl_status c) = nd_name n" "c \<in> set claims"
    if "find (\<lambda>c. cs_poolRef (cl_spec c) = pl_name pl \<and> st_nodeName (cl_status c) = nd_name n) claims = Some c"
    for c claims using find_Some_set [OF that] by simp_all
  show ?case unfolding scaleDownLoop.simps
    apply (rule tspec_bind_call)
    apply (split sum.split, intro conjI allI impI)
     apply (rule tspec_ret, simp)
    apply (split option.split, intro conjI allI impI)
     apply (rule tspec_mono [OF Cons.IH], auto simp: scaleDownTarget_def) [1]
    apply (rule tspec_mono [OF scaleDownClaim_log [OF assms]])
    apply (auto simp: scaleDownTarget_def dest: found)
    done
qed

lemma reconcileScaleDown_log:
  assumes "env_ok E"
  shows "tspec s (reconcileScaleDown E pl nodes s) (\<lambda>_ evs. createdClaims evs = [] \<and>
    (deletedClaims evs = [] \<or> (\<exists>c n all. deletedClaims evs = [c] \<and> scaleDownTarget pl n evs c \<and>
       windowRemaining pl (now E (snd (getScaleDownCandidates E pl s))) = None \<and> goodCandidate evs all n \<and>
       ECsListNodes (ps_poolLabelKey (pl_spec pl)) (pl_name pl) (Inr all) \<in> set evs)))"
proof -
  have mono: "goodCandidate evs all n \<Longrightarrow> goodCandidate (evs @ evs') all n" for evs evs' all n
    by (auto simp: goodCandidate_def)
  show ?thesis unfolding reconcileScaleDown_def
    apply (split if_split, intro conjI impI)
     apply (rule tspec_ret, simp)
    apply (rule tspec_bind [OF tspec_conj [OF getScaleDownCandidates_log
            getScaleDownCandidates_reads [unfolded emits_def]]], elim conjE)
    apply (split sum.split, intro conjI allI impI)
     apply (rule tspec_ret, simp add: reads_create_nothing reads_delete_nothing)
    apply (split if_split, intro conjI impI)
     apply (rule tspec_ret, simp add: reads_create_nothing reads_delete_nothing)
    apply (split option.split, intro conjI allI impI)
     apply (rule tspec_mono [OF scaleDownLoop_log [OF assms]])
     apply (simp add: reads_create_nothing reads_delete_nothing)
     apply (elim conjE disjE exE bexE)
      apply simp
     apply (simp add: scaleDownTarget_def list_all_iff, blast intro: mono)
    apply (rule tspec_ret, simp add: reads_create_nothing reads_delete_nothing)
    done
qed

lemma ensureClaim_deletes: "tspec s (ensureClaim E pl nm r s) (\<lambda>_ evs. deletedClaims evs = [])"
  unfolding ensureClaim_def
  by (rule tspec_bind_call) (auto split: sum.split option.split intro!: tspec_ret tspec_bind_call)

lemma createLoop_deletes: "tspec s (createLoop E pl specs q n s) (\<lambda>_ evs. deletedClaims evs = [])"
proof (induction specs arbitrary: q n s)
  case Nil
  show ?case by (simp add: tspec_ret)
next
  case (Cons r specs)
  show ?case unfolding createLoop.simps
    by (rule tspec_bind [OF ensureClaim_deletes]) (auto split: option.split intro!: tspec_ret Cons.IH)
qed

fun keepsClaims :: "ext_call \<Rightarrow> bool" where
  "keepsClaims (EDeleteClaim _ _) = False"
| "keepsClaims _ = True"

lemma keepsClaims_iff: "deletedClaims evs = [] \<longleftrightarrow> list_all keepsClaims evs"
  by (induction evs rule: deletedClaims.induct) auto

lemma poolOnly_keeps: "poolOnly e \<Longrightarrow> keepsClaims e"
  by (cases e) auto

lemma reconcileScaleUp_keeps:
  assumes "env_ok E"
  shows "emits keepsClaims s (reconcileScaleUp E pl pods nodes s)"
proof -
  note keep = emits_mono [OF _ poolOnly_keeps] emits_mono [OF emits_mono [OF _ isRead_poolOnly] poolOnly_keeps]
  have create: "emits keepsClaims s (createLoop E pl specs q n s)" for specs q n s
    using createLoop_deletes [of s E pl specs q n] by (simp add: emits_def keepsClaims_iff)
  have c: "emits keepsClaims s (scaleUpCreate E pl k specs s)" for k specs s
    unfolding scaleUpCreate_def
    by (intro emits_intros create keep(1) [OF updatePoolStatus_poolOnly] assms) simp_all
  have "emits keepsClaims s (scaleUpLimited E pl k nodes claims specs s)" for k claims specs s
    unfolding scaleUpLimited_def Let_def
    by (intro emits_intros c keep(1) [OF scaleUpBlocked_poolOnly] keep(2) [OF getPoolResourceUsage_reads] assms)
  moreover have "emits keepsClaims s (scaleUpPlan E pl cands nodes s)" for cands s
    unfolding scaleUpPlan_def Let_def
    by (intro emits_intros keep(2) [OF buildNodeBuckets_reads]) simp_all
  ultimately show ?thesis unfolding reconcileScaleUp_def
    by (cases "filterPodsForPool pods pl") (auto intro!: emits_intros)
qed

text \<open>
  C11. The scaling step of a reconcile either creates or deletes, and it deletes at most one claim:
  only when there are no unschedulable pods, when the pool has more nodes than \<open>minNodes\<close> (so
  the removal keeps at least \<open>minNodes\<close>), and when the stabilization window is over once the candidates were found; the
  claim was listed, refers to this pool, and is the claim of a node that was listed under the
  pool's label, is not cordoned, and whose pods, listed in this run, were all non-evictable.
\<close>

theorem scale_down_safe:
  assumes "env_ok E"
  shows "\<exists>evs. trace (snd (poolScale E pl pods nodes s)) = trace s @ evs \<and>
    (deletedClaims evs = [] \<or> (\<exists>c n claims all ps. deletedClaims evs = [c] \<and> createdClaims evs = [] \<and> pods = [] \<and>
      lm_minNodes (ps_limits (pl_spec pl)) \<le> int (length nodes) - 1 \<and>
      windowRemaining pl (now E (snd (getScaleDownCandidates E pl s))) = None \<and>
      EListClaims (om_namespace (pl_meta pl)) (Inr claims) \<in> set evs \<and> c \<in> set claims \<and>
      cs_poolRef (cl_spec c) = pl_name pl \<and> st_nodeName (cl_status c) = nd_name n \<and>
      ECsListNodes (ps_poolLabelKey (pl_spec pl)) (pl_name pl) (Inr all) \<in> set evs \<and> n \<in> set all \<and>
      \<not> nd_unschedulable n \<and> ECsListPods ''spec.nodeName'' (nd_name n) (Inr ps) \<in> set evs \<and>
      list_all (\<lambda>p. \<not> evictable p) ps))"
proof (cases "pods = [] \<and> lm_minNodes (ps_limits (pl_spec pl)) < int (length nodes)")
  case False
  have "emits keepsClaims s (poolScale E pl pods nodes s)"
  proof (cases "pods = []")
    case True
    with False show ?thesis by (simp add: poolScale_def emits_ret)
  next
    case False
    then show ?thesis using reconcileScaleUp_keeps [OF assms, of s pl pods nodes]
      by (auto simp: poolScale_def emits_def tspec_def split: prod.splits outcome.splits)
  qed
  then show ?thesis by (auto simp: emits_def tspec_def keepsClaims_iff)
next
  case True
  obtain r s' where run: "reconcileScaleDown E pl nodes s = (r, s')" by fastforce
  with True have "trace (snd (poolScale E pl pods nodes s)) = trace s'" by (simp add: poolScale_def)
  moreover obtain evs where "trace s' = trace s @ evs" "createdClaims evs = []"
    "deletedClaims evs = [] \<or> (\<exists>c n all. deletedClaims evs = [c] \<and> scaleDownTarget pl n evs c \<and>
       windowRemaining pl (now E (snd (getScaleDownCandidates E pl s))) = None \<and> goodCandidate evs all n \<and>
       ECsListNodes (ps_poolLabelKey (pl_spec pl)) (pl_name pl) (Inr all) \<in> set evs)"
    using reconcileScaleDown_log [OF assms, of s pl nodes] unfolding run tspec_def by auto
  ultimately show ?thesis using True
    unfolding scaleDownTarget_def goodCandidate_def emptyOfWorkload_def
    by simp (elim disjE exE conjE, blast+)
qed

definition idleClaim :: claim where
  "idleClaim = (sampleClaim ''n1'')\<lparr>cl_status := sampleStatus\<lparr>st_nodeName := ''n1''\<rparr>\<rparr>"

abbreviation scaleDownRun :: "reconcile_result outcome \<times> sample st" where
  "scaleDownRun \<equiv> poolScale sampleEnv samplePool [] [sampleNode ''n1'']
     (startState (idleWorld\<lparr>sw_claims := [idleClaim], sw_pools := [samplePool]\<rparr>))"

lemma scaleDownRun_deletes: "map cl_name (deletedClaims (trace (snd scaleDownRun))) = [''n1'']"
  by code_simp

theorem scale_down_safe_witness:
  "env_ok sampleEnv \<and> map cl_name (deletedClaims (trace (snd scaleDownRun))) = [''n1''] \<and>
   createdClaims (trace (snd scaleDownRun)) = []"
proof -
  have start: "trace (startState (idleWorld\<lparr>sw_claims := [idleClaim], sw_pools := [samplePool]\<rparr>)) = []"
    by (simp add: startState_def)
  obtain evs where "trace (snd scaleDownRun) = evs" "deletedClaims evs = [] \<or> createdClaims evs = []"
    using scale_down_safe [OF sampleEnv_ok, of samplePool "[]" "[sampleNode ''n1'']"
        "startState (idleWorld\<lparr>sw_claims := [idleClaim], sw_pools := [samplePool]\<rparr>)"]
    unfolding start by auto
  with scaleDownRun_deletes sampleEnv_ok show ?thesis by auto
qed

text \<open>
  C33. One removal per window: with a stabilization window configured, after a scale-down or a
  scale-up was recorded at \<open>ts\<close>, a scale-down attempt whose clock reads less than the window
  later only reads, and asks to come back exactly when the window ends.
\<close>

theorem stabilization_window_defers:
  assumes "ps_scaleDown (pl_spec pl) = Some policy" "sp_stabilizationWindow policy = Some window"
    and "in64 window" "pl_status pl \<in> {pl_status (markScaledDown E ts msg t p), pl_status (markScaledUp E ts q msg t p)}"
    and "lm_minNodes (ps_limits (pl_spec pl)) < int (length nodes)"
    and "getScaleDownCandidates E pl s = (Inr cands, s1)" "cands \<noteq> []"
    and "ts \<le> now E s1" "now E s1 < ts + window"
  shows "reconcileScaleDown E pl nodes s = ((ts + window - now E s1, None), s1) \<and>
    (\<exists>evs. trace s1 = trace s @ evs \<and> list_all isRead evs)"
proof -
  have last: "pst_lastScaleActivity (pl_status pl) = Some ts"
    using assms(4) by (auto simp: markScaledDown_def markScaledUp_def poolCondition_def markActivity_def setNextSequence_def)
  have "timeSub (now E s1) ts = now E s1 - ts"
    using assms(3,8,9) by (simp add: timeSub_def in64_def)
  moreover from this have "sub64 window (now E s1 - ts) = ts + window - now E s1"
    using assms(3,8,9) by (simp add: sub64_def in64_def)
  ultimately have "windowRemaining pl (now E s1) = Some (ts + window - now E s1)"
    using assms(1,2,9) last by (simp add: windowRemaining_def Let_def)
  moreover have "\<exists>evs. trace s1 = trace s @ evs \<and> list_all isRead evs"
    using getScaleDownCandidates_reads [of s E pl] assms(6) by (simp add: emits_def tspec_def)
  ultimately show ?thesis using assms(5-7) by (simp add: reconcileScaleDown_def)
qed

definition windowPool :: pool where
  "windowPool = samplePool\<lparr>pl_spec := (pl_spec samplePool)\<lparr>ps_scaleDown := Some \<lparr>sp_stabilizationWindow = Some (10 * minute)\<rparr>\<rparr>,
     pl_status := pl_status (markScaledDown sampleEnv 0 ''m'' 0 samplePool)\<rparr>"

lemma windowPool_candidates:
  "fst (getScaleDownCandidates sampleEnv windowPool (startState idleWorld)) = Inr [sampleNode ''n1'']"
  "now sampleEnv (snd (getScaleDownCandidates sampleEnv windowPool (startState idleWorld))) = 0"
  by code_simp+

theorem stabilization_window_defers_witness:
  "fst (reconcileScaleDown sampleEnv windowPool [sampleNode ''n1''] (startState idleWorld)) = (10 * minute, None)"
proof -
  obtain s1 where c: "getScaleDownCandidates sampleEnv windowPool (startState idleWorld) = (Inr [sampleNode ''n1''], s1)"
    "now sampleEnv s1 = 0"
    using windowPool_candidates by (metis prod.collapse)
  have "reconcileScaleDown sampleEnv windowPool [sampleNode ''n1''] (startState idleWorld) =
      ((0 + 10 * minute - now sampleEnv s1, None), s1) \<and>
      (\<exists>evs. trace s1 = trace (startState idleWorld) @ evs \<and> list_all isRead evs)"
    by (rule stabilization_window_defers [OF _ _ _ _ _ c(1), where msg = "''m''" and t = 0
            and p = samplePool and q = 0 and policy = "\<lparr>sp_stabilizationWindow = Some (10 * minute)\<rparr>"])
      (simp_all add: windowPool_def samplePool_def c(2) in64_def minute_def second_def)
  then show ?thesis by (simp add: c(2))
qed

section \<open>Finalization\<close>













end
