(* ===== verification/Claim_Lease.thy ===== *)
theory Claim_Lease
  imports Status_Update
begin

text \<open>
  The launch lease of a claim, from \<open>internal/controller/nodeclaim_controller.go\<close>: its age and
  expiry, taking and dropping it, and the heartbeat goroutine. The goroutine runs against the API
  server only, so for the reconciler that started it, it is part of the world; its own steps are
  \<open>heartbeatTick\<close> and \<open>runLeaseHeartbeat\<close>, the latter driven by the outcomes of its
  \<open>select\<close> (\<open>True\<close> for a tick, \<open>False\<close> for cancellation). A tick never writes: see
  \<open>heartbeat_never_renews\<close> in \<open>Claim_Memory\<close>.
\<close>

section \<open>The code\<close>

definition leasePhaseLaunching :: string where "leasePhaseLaunching = ''Launching''"
definition launchLeaseTimeout :: duration where "launchLeaseTimeout = 10 * minute"
definition leaseHeartbeatInterval :: duration where "leaseHeartbeatInterval = 10 * second"
definition minLeaseRetryDelay :: duration where "minLeaseRetryDelay = 2 * second"

definition getLeaseHolderID :: "'w env \<Rightarrow> 'w st \<Rightarrow> string \<times> 'w st" where
  "getLeaseHolderID E s =
     (if holderID s \<noteq> [] then (holderID s, s)
      else if osPodName E \<noteq> [] then (osPodName E, s\<lparr>holderID := osPodName E\<rparr>)
      else (case osHostname E of
        Some host \<Rightarrow> (host, s\<lparr>holderID := host\<rparr>)
      | None \<Rightarrow> (''kubenodesmith-controller'', s\<lparr>holderID := ''kubenodesmith-controller''\<rparr>)))"

definition leaseReferenceTime :: "claim_lease \<Rightarrow> time" where
  "leaseReferenceTime l = (if timeIsZero (ls_lastHeartbeat l) then ls_started l else ls_lastHeartbeat l)"

definition leaseExpired :: "time \<Rightarrow> claim_lease option \<Rightarrow> bool" where
  "leaseExpired t lease = (case lease of
     None \<Rightarrow> True
   | Some l \<Rightarrow> (if ls_timeoutSeconds l \<le> 0 then True
       else mul64 (ls_timeoutSeconds l) second < timeSub t (leaseReferenceTime l)))"

definition leaseRemaining :: "time \<Rightarrow> claim_lease option \<Rightarrow> duration" where
  "leaseRemaining t lease = (case lease of
     None \<Rightarrow> 0
   | Some l \<Rightarrow> (if ls_timeoutSeconds l \<le> 0 then 0
       else timeSub (leaseReferenceTime l + mul64 (ls_timeoutSeconds l) second) t))"

definition leaseSeconds :: "duration \<Rightarrow> int" where
  "leaseSeconds timeout = (if timeout div second \<le> 0 then launchLeaseTimeout div second else timeout div second)"

definition setLease :: "string \<Rightarrow> string \<Rightarrow> time \<Rightarrow> int \<Rightarrow> time \<Rightarrow> claim \<Rightarrow> claim" where
  "setLease holder phase started seconds t c = c\<lparr>cl_status := (cl_status c)\<lparr>st_lease := Some
     \<lparr>ls_holder = holder, ls_phase = phase, ls_started = started, ls_lastHeartbeat = started,
       ls_timeoutSeconds = seconds\<rparr>\<rparr>\<rparr>"

definition acquireLease ::
  "'w env \<Rightarrow> claim \<Rightarrow> string \<Rightarrow> duration \<Rightarrow> 'w st \<Rightarrow> (goerr option \<times> claim) \<times> 'w st" where
  "acquireLease E c phase timeout s = (case getLeaseHolderID E s of
     (holder, s1) \<Rightarrow>
       (case updateClaimStatus E c (setLease holder phase (now E s1) (leaseSeconds timeout)) s1 of
         ((Some e, c1), s2) \<Rightarrow> ((Some e, c1), s2)
       | ((None, c1), s2) \<Rightarrow>
           (case logOnly (EHeartbeatStart (metaKey (cl_meta c)) phase (timeout div 3)) s2 of
             (_, s3) \<Rightarrow> ((None, c1), s3))))"

definition dropLease :: "string \<Rightarrow> time \<Rightarrow> claim \<Rightarrow> claim" where
  "dropLease phase t c = (case st_lease (cl_status c) of
     Some l \<Rightarrow> (if ls_phase l = phase then c\<lparr>cl_status := (cl_status c)\<lparr>st_lease := None\<rparr>\<rparr> else c)
   | None \<Rightarrow> c)"

definition releaseLease ::
  "'w env \<Rightarrow> claim \<Rightarrow> string \<Rightarrow> 'w st \<Rightarrow> (goerr option \<times> claim) \<times> 'w st" where
  "releaseLease E c phase s = updateClaimStatus E c (dropLease phase) s"

definition beatLease :: "string \<Rightarrow> time \<Rightarrow> claim \<Rightarrow> claim" where
  "beatLease phase t c = (case st_lease (cl_status c) of
     Some l \<Rightarrow> (if ls_phase l = phase
         then c\<lparr>cl_status := (cl_status c)\<lparr>st_lease := Some (l\<lparr>ls_lastHeartbeat := t\<rparr>)\<rparr>\<rparr> else c)
   | None \<Rightarrow> c)"

text \<open>The change in memory: the status that was copied before it sees it too.\<close>

definition beatInPlace :: "string \<Rightarrow> time \<Rightarrow> claim \<Rightarrow> claim_status \<times> claim" where
  "beatInPlace phase t c = (cl_status (beatLease phase t c), beatLease phase t c)"

definition heartbeatTick :: "'w env \<Rightarrow> nskey \<Rightarrow> string \<Rightarrow> 'w st \<Rightarrow> 'w st" where
  "heartbeatTick E key phase s = snd (updateStatusByKey E key (beatInPlace phase) s)"

definition heartbeatPeriod :: "duration \<Rightarrow> duration" where
  "heartbeatPeriod interval = (if interval \<le> 0 then leaseHeartbeatInterval else interval)"

fun runLeaseHeartbeat :: "'w env \<Rightarrow> nskey \<Rightarrow> string \<Rightarrow> bool list \<Rightarrow> 'w st \<Rightarrow> 'w st" where
  "runLeaseHeartbeat E key phase [] s = s"
| "runLeaseHeartbeat E key phase (False # sel) s = s"
| "runLeaseHeartbeat E key phase (True # sel) s =
     runLeaseHeartbeat E key phase sel (heartbeatTick E key phase s)"

lemmas lease_consts = leasePhaseLaunching_def launchLeaseTimeout_def leaseHeartbeatInterval_def
  minLeaseRetryDelay_def second_def minute_def millisecond_def

section \<open>Facts\<close>

lemma getLeaseHolderID_frame [simp]:
  "trace (snd (getLeaseHolderID E s)) = trace s" "world (snd (getLeaseHolderID E s)) = world s"
  by (auto simp: getLeaseHolderID_def split: option.split)

lemma getLeaseHolderID_cached:
  "getLeaseHolderID E s = (h, s') \<Longrightarrow> osHostname E \<noteq> Some [] \<Longrightarrow>
   h \<noteq> [] \<and> holderID s' = h \<and> getLeaseHolderID E s' = (h, s')"
  by (auto simp: getLeaseHolderID_def split: if_splits option.splits)

lemma emits_holder [emits_intros]: "emits P s (getLeaseHolderID E s)"
  by (simp add: emits_def tspec_def)

lemma setLease_frame [simp]:
  "cl_meta (setLease h p b n t c) = cl_meta c" "cl_spec (setLease h p b n t c) = cl_spec c"
  "st_conditions (cl_status (setLease h p b n t c)) = st_conditions (cl_status c)"
  "st_providerID (cl_status (setLease h p b n t c)) = st_providerID (cl_status c)"
  "st_nodeName (cl_status (setLease h p b n t c)) = st_nodeName (cl_status c)"
  "st_launchAttempts (cl_status (setLease h p b n t c)) = st_launchAttempts (cl_status c)"
  by (simp_all add: setLease_def)

lemma dropLease_frame [simp]:
  "cl_meta (dropLease p t c) = cl_meta c" "cl_spec (dropLease p t c) = cl_spec c"
  "st_conditions (cl_status (dropLease p t c)) = st_conditions (cl_status c)"
  "st_providerID (cl_status (dropLease p t c)) = st_providerID (cl_status c)"
  "st_nodeName (cl_status (dropLease p t c)) = st_nodeName (cl_status c)"
  "st_launchAttempts (cl_status (dropLease p t c)) = st_launchAttempts (cl_status c)"
  by (auto simp: dropLease_def split: option.split)

lemma beatLease_frame [simp]:
  "cl_meta (beatLease p t c) = cl_meta c" "cl_spec (beatLease p t c) = cl_spec c"
  "st_conditions (cl_status (beatLease p t c)) = st_conditions (cl_status c)"
  "st_providerID (cl_status (beatLease p t c)) = st_providerID (cl_status c)"
  "st_nodeName (cl_status (beatLease p t c)) = st_nodeName (cl_status c)"
  "st_launchAttempts (cl_status (beatLease p t c)) = st_launchAttempts (cl_status c)"
  by (auto simp: beatLease_def split: option.split)

end
