(* ===== verification/Claim_Controller.thy ===== *)
theory Claim_Controller
  imports Claim_Lease
begin

text \<open>
  \<open>NodeClaimReconciler\<close> of \<open>internal/controller/nodeclaim_controller.go\<close>: the lifecycle of
  a claim (launch, registration, initialization), recycling of unhealthy nodes and finalization.
  A phase returns Go's \<open>(*ctrl.Result, error)\<close> as an optional requeue delay and an optional
  error, together with the claim it was given a pointer to; a nil dereference is \<open>Panic\<close>.
\<close>

section \<open>Constants\<close>

definition registrationTimeout :: duration where "registrationTimeout = 15 * minute"
definition maxLaunchAttempts :: int where "maxLaunchAttempts = 3"
definition immediateRequeueDelay :: duration where "immediateRequeueDelay = millisecond"
definition requeueRegistration :: duration where "requeueRegistration = 30 * second"
definition requeueInitialization :: duration where "requeueInitialization = 10 * second"
definition requeueOnError :: duration where "requeueOnError = minute"
definition requeueFinalization :: duration where "requeueFinalization = 5 * second"
definition readinessDegradeTimeout :: duration where "readinessDegradeTimeout = 10 * minute"
definition readyHealthCheckInterval :: duration where "readyHealthCheckInterval = 2 * minute"

definition nodeclaimLabel :: string where "nodeclaimLabel = ''kubenodesmith.io/nodeclaim''"

lemmas claim_consts = registrationTimeout_def maxLaunchAttempts_def immediateRequeueDelay_def
  requeueRegistration_def requeueInitialization_def requeueOnError_def requeueFinalization_def
  readinessDegradeTimeout_def readyHealthCheckInterval_def

type_synonym phase_result = "(duration option \<times> goerr option) outcome"

abbreviation nextPhase :: phase_result where "nextPhase \<equiv> Ret (None, None)"
abbreviation stopWith :: "duration \<Rightarrow> phase_result" where "stopWith d \<equiv> Ret (Some d, None)"
abbreviation failWith :: "duration \<Rightarrow> goerr \<Rightarrow> phase_result" where "failWith d e \<equiv> Ret (Some d, Some e)"

section \<open>Conditions\<close>

definition setCondition ::
  "'w env \<Rightarrow> string \<Rightarrow> cond_status \<Rightarrow> string \<Rightarrow> string \<Rightarrow> time \<Rightarrow> claim \<Rightarrow> claim" where
  "setCondition E ty status reason msg t c = c\<lparr>cl_status := (cl_status c)\<lparr>st_conditions :=
     libSet E t (st_conditions (cl_status c))
       \<lparr>cond_type = ty, cond_status = status, cond_reason = reason, cond_message = msg,
        cond_generation = om_generation (cl_meta c), cond_transition = zeroTime\<rparr>\<rparr>\<rparr>"

definition removeCondition :: "'w env \<Rightarrow> string \<Rightarrow> claim \<Rightarrow> claim" where
  "removeCondition E ty c = c\<lparr>cl_status := (cl_status c)\<lparr>st_conditions :=
     libRemove E (st_conditions (cl_status c)) ty\<rparr>\<rparr>"

definition findCondition :: "'w env \<Rightarrow> claim \<Rightarrow> string \<Rightarrow> condition option" where
  "findCondition E c ty = libFind E (st_conditions (cl_status c)) ty"

definition setProviderID :: "string \<Rightarrow> claim \<Rightarrow> claim" where
  "setProviderID i c = c\<lparr>cl_status := (cl_status c)\<lparr>st_providerID := i\<rparr>\<rparr>"

definition setNodeName :: "string \<Rightarrow> claim \<Rightarrow> claim" where
  "setNodeName n c = c\<lparr>cl_status := (cl_status c)\<lparr>st_nodeName := n\<rparr>\<rparr>"

definition setLaunchAttempts :: "int \<Rightarrow> claim \<Rightarrow> claim" where
  "setLaunchAttempts n c = c\<lparr>cl_status := (cl_status c)\<lparr>st_launchAttempts := n\<rparr>\<rparr>"

section \<open>Provider and pool lookup\<close>

definition keyString :: "nskey \<Rightarrow> string" where
  "keyString k = fst k @ ''/'' @ snd k"

definition getPoolForClaim :: "'w env \<Rightarrow> claim \<Rightarrow> 'w st \<Rightarrow> (goerr + pool) \<times> 'w st" where
  "getPoolForClaim E c s =
     (let key = (om_namespace (cl_meta c), cs_poolRef (cl_spec c)) in
      case getPool E key s of
        (Inl e, s1) \<Rightarrow> (Inl (wrapf (''get pool '' @ keyString key @ '': '') e), s1)
      | (Inr pl, s1) \<Rightarrow> (Inr pl, s1))"

definition buildProvider ::
  "'w provider_builder \<Rightarrow> string \<Rightarrow> provider_obj \<Rightarrow> 'w st \<Rightarrow> (goerr + 'w provider) \<times> 'w st" where
  "buildProvider b ty po = call (b po) (\<lambda>r. EBuildProvider ty po (case r of Inl e \<Rightarrow> Some e | Inr _ \<Rightarrow> None))"

definition getProviderForClaim :: "'w env \<Rightarrow> claim \<Rightarrow> 'w st \<Rightarrow> (goerr + 'w provider) \<times> 'w st" where
  "getProviderForClaim E c s =
     (let poolKey = (om_namespace (cl_meta c), cs_poolRef (cl_spec c)) in
      case getPool E poolKey s of
        (Inl e, s1) \<Rightarrow> (Inl (wrapf (''get pool '' @ keyString poolKey @ '': '') e), s1)
      | (Inr pl, s1) \<Rightarrow>
          (if ps_providerRef (pl_spec pl) = []
           then (Inl (errorf (''pool '' @ pl_name pl @ '' has empty providerRef'')), s1)
           else (let providerKey = (om_namespace (cl_meta c), ps_providerRef (pl_spec pl)) in
             case getProviderObj E providerKey s1 of
               (Inl e, s2) \<Rightarrow> (Inl (wrapf (''get provider '' @ keyString providerKey @ '': '') e), s2)
             | (Inr po, s2) \<Rightarrow>
                 (let ty = toLower (trimSpace (pv_type (po_spec po))) in
                  if ty = []
                  then (Inl (errorf (''provider '' @ om_name (po_meta po) @ '' has empty type'')), s2)
                  else if providerFactories E = []
                  then (Inl (errorf ''no provider factories configured''), s2)
                  else (case map_of (providerFactories E) ty of
                    None \<Rightarrow> (Inl (errorf (''unsupported provider type '' @ quoteStr ty)), s2)
                  | Some builder \<Rightarrow> (case buildProvider builder ty po s2 of
                      (Inl e, s3) \<Rightarrow>
                        (Inl (wrapf (''initialize provider '' @ om_name (po_meta po) @ '': '') e), s3)
                    | (Inr prov, s3) \<Rightarrow> (Inr prov, s3)))))))"

section \<open>Launch\<close>

text \<open>Respecting an in-progress launch lease; \<open>None\<close> means go on.\<close>

definition launchLeaseCheck ::
  "'w env \<Rightarrow> claim \<Rightarrow> 'w st \<Rightarrow> (phase_result option \<times> claim) \<times> 'w st" where
  "launchLeaseCheck E c s = (case st_lease (cl_status c) of
     None \<Rightarrow> ((None, c), s)
   | Some l \<Rightarrow>
      (if ls_phase l \<noteq> leasePhaseLaunching then ((None, c), s)
       else if leaseExpired (now E s) (Some l) then
         (case releaseLease E c leasePhaseLaunching s of
           ((Some e, c1), s1) \<Rightarrow> ((Some (failWith requeueOnError e), c1), s1)
         | ((None, c1), s1) \<Rightarrow> ((None, c1), s1))
       else (case getLeaseHolderID E s of (me, s1) \<Rightarrow>
         (let remaining = leaseRemaining (now E s1) (Some l) in
          if ls_holder l \<noteq> me
          then ((Some (stopWith (if remaining < minLeaseRetryDelay then minLeaseRetryDelay else remaining)), c), s1)
          else ((Some (stopWith (if remaining < leaseHeartbeatInterval then leaseHeartbeatInterval else remaining)), c), s1)))))"

text \<open>The attempts are used up: mark the claim failed.\<close>

definition attemptsExceededMessage :: "'w env \<Rightarrow> claim \<Rightarrow> string" where
  "attemptsExceededMessage E c =
     (let message = ''Exceeded maximum launch attempts ('' @ fmtD maxLaunchAttempts @ '')'' in
      case findCondition E c conditionTypeLaunched of
        None \<Rightarrow> message
      | Some cond \<Rightarrow> (if trimSpace (cond_message cond) \<noteq> []
          then message @ ''; last launch error: '' @ cond_message cond else message))"

definition markAttemptsExceeded :: "'w env \<Rightarrow> string \<Rightarrow> time \<Rightarrow> claim \<Rightarrow> claim" where
  "markAttemptsExceeded E msg t c =
     setCondition E conditionTypeLaunched CFalse ''LaunchAttemptsExceeded'' msg t
       (setCondition E conditionTypeFailed CTrue ''LaunchAttemptsExceeded'' msg t c)"

definition launchGiveUp :: "'w env \<Rightarrow> claim \<Rightarrow> 'w st \<Rightarrow> (phase_result \<times> claim) \<times> 'w st" where
  "launchGiveUp E c s =
     (case updateClaimStatus E c (markAttemptsExceeded E (attemptsExceededMessage E c)) s of
       ((Some e, c1), s1) \<Rightarrow> ((failWith 0 e, c1), s1)
     | ((None, c1), s1) \<Rightarrow> ((stopWith 0, c1), s1))"

definition markProviderError :: "'w env \<Rightarrow> goerr \<Rightarrow> time \<Rightarrow> claim \<Rightarrow> claim" where
  "markProviderError E e t c = setCondition E conditionTypeLaunched CFalse ''ProviderError''
     (''Failed to get provider: '' @ err_msg e) t c"

definition markProvisioningFailed :: "'w env \<Rightarrow> int \<Rightarrow> goerr \<Rightarrow> time \<Rightarrow> claim \<Rightarrow> claim" where
  "markProvisioningFailed E attempt e t c =
     setCondition E conditionTypeLaunched CFalse ''ProvisioningFailed''
       (''Failed to provision machine: '' @ err_msg e) t (setLaunchAttempts attempt c)"

definition markLaunched :: "'w env \<Rightarrow> int \<Rightarrow> string \<Rightarrow> time \<Rightarrow> claim \<Rightarrow> claim" where
  "markLaunched E attempt providerID t c =
     setCondition E conditionTypeLaunched CTrue ''Launched'' (''Machine provisioned: '' @ providerID) t
       (setLaunchAttempts attempt (setProviderID providerID c))"

text \<open>Provision the machine and record the outcome.\<close>

definition launchProvision ::
  "'w env \<Rightarrow> claim \<Rightarrow> claim_requirements \<Rightarrow> 'w provider \<Rightarrow> 'w st \<Rightarrow> (phase_result \<times> claim) \<times> 'w st" where
  "launchProvision E c rq prov s =
     (let nextAttempt = add64 (st_launchAttempts (cl_status c)) 1;
          machineSpec = \<lparr>ms_machineName = cl_name c, ms_cpuCores = rq_cpuCores rq, ms_memoryMiB = rq_memoryMiB rq\<rparr>;
          c1 = setLaunchAttempts nextAttempt c in
      case provisionMachine prov machineSpec s of
        (Inl e, s1) \<Rightarrow> (case updateClaimStatus E c1 (markProvisioningFailed E nextAttempt e) s1 of
            ((_, c2), s2) \<Rightarrow> ((failWith requeueOnError e, c2), s2))
      | (Inr m, s1) \<Rightarrow>
          (let c2 = setProviderID (mc_providerID m) c1 in
           case updateClaimStatus E c2 (markLaunched E nextAttempt (mc_providerID m)) s1 of
             ((Some e, c3), s2) \<Rightarrow> ((failWith 0 e, c3), s2)
           | ((None, c3), s2) \<Rightarrow>
               (case recordEvent (cl_name c3) eventNormal ''Launched'' ''Machine provisioned'' s2 of
                 (_, s3) \<Rightarrow> ((nextPhase, c3), s3))))"

text \<open>The part of \<open>reconcileLaunch\<close> that runs under the lease.\<close>

definition launchBody :: "'w env \<Rightarrow> claim \<Rightarrow> 'w st \<Rightarrow> (phase_result \<times> claim) \<times> 'w st" where
  "launchBody E c s =
     (if maxLaunchAttempts \<le> st_launchAttempts (cl_status c) then launchGiveUp E c s
      else (case getNode E (cl_name c) s of
        (Inr existing, s1) \<Rightarrow> ((stopWith requeueInitialization, c), s1)
      | (Inl e, s1) \<Rightarrow>
          (if \<not> IsNotFound e then ((failWith requeueOnError e, c), s1)
           else (case cs_requirements (cl_spec c) of
             None \<Rightarrow> ((Panic ''nil pointer dereference'', c), s1)
           | Some rq \<Rightarrow> (case getProviderForClaim E c s1 of
               (Inl pe, s2) \<Rightarrow> (case updateClaimStatus E c (markProviderError E pe) s2 of
                   ((_, c1), s3) \<Rightarrow> ((failWith requeueOnError pe, c1), s3))
             | (Inr prov, s2) \<Rightarrow> launchProvision E c rq prov s2)))))"

text \<open>
  The body and then the deferred function, which runs on every exit, a panic included: stop the
  heartbeat, release the lease and ignore a failure to do so.
\<close>

definition launchLocked :: "'w env \<Rightarrow> claim \<Rightarrow> 'w st \<Rightarrow> (phase_result \<times> claim) \<times> 'w st" where
  "launchLocked E c s = (case launchBody E c s of
     ((res, c1), s1) \<Rightarrow> (case logOnly EHeartbeatStop s1 of
       (_, s2) \<Rightarrow> (case releaseLease E c1 leasePhaseLaunching s2 of
         ((_, c2), s3) \<Rightarrow> ((res, c2), s3))))"

definition reconcileLaunch :: "'w env \<Rightarrow> claim \<Rightarrow> 'w st \<Rightarrow> (phase_result \<times> claim) \<times> 'w st" where
  "reconcileLaunch E c s =
     (if st_providerID (cl_status c) \<noteq> [] then ((nextPhase, c), s)
      else (case launchLeaseCheck E c s of
        ((Some res, c1), s1) \<Rightarrow> ((res, c1), s1)
      | ((None, c1), s1) \<Rightarrow> (case acquireLease E c1 leasePhaseLaunching launchLeaseTimeout s1 of
          ((Some e, c2), s2) \<Rightarrow> ((failWith requeueOnError e, c2), s2)
        | ((None, c2), s2) \<Rightarrow> launchLocked E c2 s2)))"

section \<open>Registration\<close>

definition nodeMatchesClaim :: "node \<Rightarrow> claim \<Rightarrow> bool" where
  "nodeMatchesClaim n c \<longleftrightarrow> map_of (om_labels (nd_meta n)) nodeclaimLabel = Some (cl_name c)"

definition poolLabelKeyOrDefault :: "pool \<Rightarrow> string" where
  "poolLabelKeyOrDefault pl =
     (if trimSpace (ps_poolLabelKey (pl_spec pl)) = [] then ''topology.kubenodesmith.io/pool''
      else ps_poolLabelKey (pl_spec pl))"

definition putIfNot :: "string \<Rightarrow> string \<Rightarrow> gomap \<times> bool \<Rightarrow> gomap \<times> bool" where
  "putIfNot k v acc = (case acc of (labels, changed) \<Rightarrow>
     if mapGet k labels \<noteq> v then (mapPut k v labels, True) else (labels, changed))"

fun putTemplate :: "gomap \<Rightarrow> gomap \<times> bool \<Rightarrow> gomap \<times> bool" where
  "putTemplate [] acc = acc"
| "putTemplate ((k, v) # kvs) (labels, changed) =
     putTemplate kvs (if map_of labels k \<noteq> Some v then (mapPut k v labels, True) else (labels, changed))"

definition desiredLabels :: "node \<Rightarrow> pool \<Rightarrow> claim \<Rightarrow> gomap \<times> bool" where
  "desiredLabels n pl c =
     putTemplate (ps_templateLabels (pl_spec pl))
       (putIfNot nodeclaimLabel (cl_name c)
         (putIfNot (poolLabelKeyOrDefault pl) (pl_name pl) (om_labels (nd_meta n), False)))"

definition ensureNodeLabels :: "'w env \<Rightarrow> node \<Rightarrow> pool \<Rightarrow> claim \<Rightarrow> 'w st \<Rightarrow> goerr option \<times> 'w st" where
  "ensureNodeLabels E n pl c s = (case desiredLabels n pl c of
     (labels, changed) \<Rightarrow>
       (if \<not> changed then (None, s)
        else patchNode E (n\<lparr>nd_meta := (nd_meta n)\<lparr>om_labels := labels\<rparr>\<rparr>) n s))"

definition markRegistered :: "'w env \<Rightarrow> string \<Rightarrow> time \<Rightarrow> claim \<Rightarrow> claim" where
  "markRegistered E nodeName t c =
     setCondition E conditionTypeRegistered CTrue ''Registered'' (''Node '' @ nodeName @ '' joined cluster'') t
       (removeCondition E conditionTypeFailed (setLaunchAttempts 0 (setNodeName nodeName c)))"

definition registerNode :: "'w env \<Rightarrow> claim \<Rightarrow> node \<Rightarrow> 'w st \<Rightarrow> (phase_result \<times> claim) \<times> 'w st" where
  "registerNode E c n s = (case getPoolForClaim E c s of
     (Inl e, s1) \<Rightarrow> ((failWith requeueRegistration e, c), s1)
   | (Inr pl, s1) \<Rightarrow> (case ensureNodeLabels E n pl c s1 of
       (Some e, s2) \<Rightarrow> ((failWith requeueRegistration e, c), s2)
     | (None, s2) \<Rightarrow>
         (let c1 = removeCondition E conditionTypeFailed (setLaunchAttempts 0 (setNodeName (nd_name n) c)) in
          case updateClaimStatus E c1 (markRegistered E (nd_name n)) s2 of
            ((Some e, c2), s3) \<Rightarrow> ((failWith 0 e, c2), s3)
          | ((None, c2), s3) \<Rightarrow>
              (case recordEvent (cl_name c2) eventNormal ''Registered'' (''Node '' @ nd_name n @ '' joined cluster'') s3 of
                (_, s4) \<Rightarrow> ((nextPhase, c2), s4)))))"

definition machineOf :: "claim \<Rightarrow> machine" where
  "machineOf c = \<lparr>mc_providerID = st_providerID (cl_status c), mc_kubeNodeName = st_nodeName (cl_status c)\<rparr>"

definition timeoutMessage :: "int \<Rightarrow> string" where
  "timeoutMessage attempts =
     (if maxLaunchAttempts \<le> attempts
      then ''Node did not register within 15m0s after '' @ fmtD attempts @ '' attempts; giving up''
      else ''Node did not register within 15m0s (attempt '' @ fmtD attempts @ ''/'' @ fmtD maxLaunchAttempts @ ''); retrying'')"

definition markRegistrationTimeout :: "'w env \<Rightarrow> int \<Rightarrow> time \<Rightarrow> claim \<Rightarrow> claim" where
  "markRegistrationTimeout E attempts t c =
     (let c1 = setCondition E conditionTypeRegistered CFalse ''Timeout'' (timeoutMessage attempts) t (setProviderID [] c) in
      if maxLaunchAttempts \<le> attempts
      then setCondition E conditionTypeFailed CTrue ''RegistrationTimeoutExceeded'' (timeoutMessage attempts) t
             (setCondition E conditionTypeLaunched CFalse ''RegistrationTimeoutExceeded'' (timeoutMessage attempts) t c1)
      else setCondition E conditionTypeLaunched CFalse ''RegistrationTimeout''
             (''Cleared provider ID to retry launch ('' @ fmtD (add64 attempts 1) @ ''/'' @ fmtD maxLaunchAttempts @ '')'') t c1)"

text \<open>Deprovisioning after a registration timeout: every failure is logged and ignored.\<close>

definition timeoutDeprovision :: "'w env \<Rightarrow> claim \<Rightarrow> 'w st \<Rightarrow> unit \<times> 'w st" where
  "timeoutDeprovision E c s = (case getProviderForClaim E c s of
     (Inl _, s1) \<Rightarrow> ((), s1)
   | (Inr prov, s1) \<Rightarrow> (case deprovisionMachine prov (machineOf c) s1 of
       (Some _, s2) \<Rightarrow> ((), s2)
     | (None, s2) \<Rightarrow> recordEvent (cl_name c) eventWarning ''MachineDeprovisioned''
         ''Machine deprovisioned due to registration timeout'' s2))"

definition registrationTimedOut :: "'w env \<Rightarrow> claim \<Rightarrow> 'w st \<Rightarrow> (phase_result \<times> claim) \<times> 'w st" where
  "registrationTimedOut E c s = (case timeoutDeprovision E c s of
     (_, s1) \<Rightarrow>
       (let c1 = setProviderID [] c;
            attempts = (if st_launchAttempts (cl_status c1) = 0 then 1 else st_launchAttempts (cl_status c1)) in
        case updateClaimStatus E c1 (markRegistrationTimeout E attempts) s1 of
          ((Some e, c2), s2) \<Rightarrow> ((failWith 0 e, c2), s2)
        | ((None, c2), s2) \<Rightarrow>
            (if maxLaunchAttempts \<le> attempts
             then (case recordEvent (cl_name c2) eventWarning ''RegistrationFailed'' (timeoutMessage attempts) s2 of
                 (_, s3) \<Rightarrow> ((stopWith 0, c2), s3))
             else (case recordEvent (cl_name c2) eventWarning ''RegistrationTimeout'' (timeoutMessage attempts) s2 of
                 (_, s3) \<Rightarrow> ((stopWith immediateRequeueDelay, c2), s3)))))"

definition reconcileRegistration :: "'w env \<Rightarrow> claim \<Rightarrow> 'w st \<Rightarrow> (phase_result \<times> claim) \<times> 'w st" where
  "reconcileRegistration E c s =
     (if st_providerID (cl_status c) = [] then ((nextPhase, c), s)
      else if st_nodeName (cl_status c) \<noteq> [] then ((nextPhase, c), s)
      else (case listNodes E s of
        (Inl e, s1) \<Rightarrow> ((stopWith requeueRegistration, c), s1)
      | (Inr nodes, s1) \<Rightarrow>
          (case find (\<lambda>n. (nd_name n = cl_name c \<or> nodeMatchesClaim n c) \<and>
              timePtrIsZero (om_deletion (nd_meta n))) nodes of
            Some n \<Rightarrow> registerNode E c n s1
          | None \<Rightarrow> (case findCondition E c conditionTypeLaunched of
              None \<Rightarrow> ((stopWith requeueRegistration, c), s1)
            | Some launched \<Rightarrow>
                (if registrationTimeout < timeSub (now E s1) (cond_transition launched)
                 then registrationTimedOut E c s1
                 else ((stopWith requeueRegistration, c), s1))))))"

section \<open>Recycling\<close>

definition recycleMessageFailed :: "string \<Rightarrow> string" where
  "recycleMessageFailed msg = msg @ ''; maximum launch attempts reached ('' @ fmtD maxLaunchAttempts @ '')''"

definition markRecycled :: "'w env \<Rightarrow> int \<Rightarrow> string \<Rightarrow> time \<Rightarrow> claim \<Rightarrow> claim" where
  "markRecycled E attempts msg t c =
     (let c1 = setLaunchAttempts attempts (setNodeName [] (setProviderID [] c));
          c2 = setCondition E conditionTypeLaunched CFalse ''RecycleNotReady'' msg t c1;
          c3 = setCondition E conditionTypeRegistered CFalse ''RecycleNotReady'' msg t c2;
          c4 = setCondition E conditionTypeInitialized CFalse ''RecycleNotReady'' msg t c3;
          c5 = setCondition E conditionTypeReady CFalse ''RecycleNotReady'' msg t c4 in
      if maxLaunchAttempts \<le> attempts
      then setCondition E conditionTypeFailed CTrue ''RecycleNotReady'' (recycleMessageFailed msg) t c5
      else removeCondition E conditionTypeFailed c5)"

definition recycleDeprovision :: "'w env \<Rightarrow> claim \<Rightarrow> 'w st \<Rightarrow> unit \<times> 'w st" where
  "recycleDeprovision E c s =
     (if st_providerID (cl_status c) = [] then ((), s)
      else (case getProviderForClaim E c s of
        (Inl _, s1) \<Rightarrow> ((), s1)
      | (Inr prov, s1) \<Rightarrow> (case deprovisionMachine prov (machineOf c) s1 of
          (Some e, s2) \<Rightarrow> recordEvent (cl_name c) eventWarning ''DeprovisioningFailed''
            (''Failed to deprovision machine '' @ st_providerID (cl_status c) @ '' during recycle: '' @ err_msg e) s2
        | (None, s2) \<Rightarrow> recordEvent (cl_name c) eventNormal ''MachineDeprovisioned''
            (''Machine '' @ st_providerID (cl_status c) @ '' deprovisioned during recycle'') s2)))"

definition recycleRest :: "'w env \<Rightarrow> claim \<Rightarrow> string \<Rightarrow> 'w st \<Rightarrow> (phase_result \<times> claim) \<times> 'w st" where
  "recycleRest E c msg s = (case recycleDeprovision E c s of
     (_, s1) \<Rightarrow>
       (let nextAttempts = add64 (st_launchAttempts (cl_status c)) 1 in
        case updateClaimStatus E c (markRecycled E nextAttempts msg) s1 of
          ((Some e, c1), s2) \<Rightarrow> ((failWith 0 e, c1), s2)
        | ((None, c1), s2) \<Rightarrow>
            (if maxLaunchAttempts \<le> nextAttempts then ((stopWith 0, c1), s2)
             else (case recordEvent (cl_name c1) eventWarning ''RecycleNotReady'' msg s2 of
               (_, s3) \<Rightarrow> ((stopWith immediateRequeueDelay, c1), s3)))))"

definition recycleUnhealthyNode ::
  "'w env \<Rightarrow> claim \<Rightarrow> node option \<Rightarrow> string \<Rightarrow> 'w st \<Rightarrow> (phase_result \<times> claim) \<times> 'w st" where
  "recycleUnhealthyNode E c node msg s = (case node of
     None \<Rightarrow> recycleRest E c msg s
   | Some n \<Rightarrow> (case deleteNode E n s of
       (Some e, s1) \<Rightarrow> (if \<not> IsNotFound e then ((failWith requeueOnError e, c), s1) else recycleRest E c msg s1)
     | (None, s1) \<Rightarrow> recycleRest E c msg s1))"

section \<open>Initialization\<close>

definition nodeReady :: "node \<Rightarrow> bool" where
  "nodeReady n = list_ex (\<lambda>k. nc_type k = ''Ready'' \<and> nc_status k = CTrue) (nd_conditions n)"

definition notReadyDuration :: "time \<Rightarrow> node \<Rightarrow> duration" where
  "notReadyDuration t n = (case find (\<lambda>k. nc_type k = ''Ready'') (nd_conditions n) of
     None \<Rightarrow> 0
   | Some k \<Rightarrow> (if timeIsZero (nc_transition k) then 0 else timeSub t (nc_transition k)))"

definition markReady :: "'w env \<Rightarrow> time \<Rightarrow> claim \<Rightarrow> claim" where
  "markReady E t c =
     setCondition E conditionTypeReady CTrue ''Ready'' ''Claim is fully operational'' t
       (setCondition E conditionTypeInitialized CTrue ''Initialized'' ''Node is ready'' t c)"

definition reconcileInitialization :: "'w env \<Rightarrow> claim \<Rightarrow> 'w st \<Rightarrow> (phase_result \<times> claim) \<times> 'w st" where
  "reconcileInitialization E c s =
     (if st_nodeName (cl_status c) = [] then ((nextPhase, c), s)
      else (case getNode E (st_nodeName (cl_status c)) s of
        (Inl e, s1) \<Rightarrow>
          (if IsNotFound e then recycleUnhealthyNode E c None ''Node object missing; recycling claim'' s1
           else ((stopWith requeueInitialization, c), s1))
      | (Inr n, s1) \<Rightarrow>
          (if \<not> nodeReady n then
             (if readinessDegradeTimeout < notReadyDuration (now E s1) n
              then recycleUnhealthyNode E c (Some n)
                (''Node '' @ nd_name n @ '' NotReady for 10m0s; recycling'') s1
              else ((stopWith requeueInitialization, c), s1))
           else (case updateClaimStatus E c (markReady E) s1 of
             ((Some e, c1), s2) \<Rightarrow> ((failWith 0 e, c1), s2)
           | ((None, c1), s2) \<Rightarrow>
               (case recordEvent (cl_name c1) eventNormal ''Ready''
                   (''Claim is ready, node '' @ nd_name n @ '' is operational'') s2 of
                 (_, s3) \<Rightarrow> ((nextPhase, c1), s3))))))"

section \<open>Finalization\<close>

definition finalizeDeprovision :: "'w env \<Rightarrow> claim \<Rightarrow> 'w st \<Rightarrow> unit \<times> 'w st" where
  "finalizeDeprovision E c s =
     (if st_providerID (cl_status c) = [] then ((), s)
      else (case getProviderForClaim E c s of
        (Inl _, s1) \<Rightarrow> recordEvent (cl_name c) eventWarning ''DeprovisioningFailed''
          (''Cannot deprovision machine '' @ st_providerID (cl_status c) @
           '': provider unavailable. Manual cleanup may be required for pool '' @ cs_poolRef (cl_spec c)) s1
      | (Inr prov, s1) \<Rightarrow> (case deprovisionMachine prov (machineOf c) s1 of
          (Some e, s2) \<Rightarrow> recordEvent (cl_name c) eventWarning ''DeprovisioningFailed''
            (''Failed to deprovision machine '' @ st_providerID (cl_status c) @ '': '' @ err_msg e @
             ''. Manual cleanup may be required'') s2
        | (None, s2) \<Rightarrow> recordEvent (cl_name c) eventNormal ''MachineDeprovisioned''
            (''Machine '' @ st_providerID (cl_status c) @ '' deprovisioned'') s2)))"

definition finalizeRest :: "'w env \<Rightarrow> claim \<Rightarrow> 'w st \<Rightarrow> (duration \<times> goerr option) \<times> 'w st" where
  "finalizeRest E c s = (case finalizeDeprovision E c s of
     (_, s1) \<Rightarrow>
       (case updateClaim E (c\<lparr>cl_meta := libRemoveFinalizer E (cl_meta c) finalizerNodeSmithClaim\<rparr>) s1 of
         (Inl e, s2) \<Rightarrow> ((0, Some e), s2)
       | (Inr _, s2) \<Rightarrow> ((0, None), s2)))"

definition finalize :: "'w env \<Rightarrow> claim \<Rightarrow> 'w st \<Rightarrow> (duration \<times> goerr option) \<times> 'w st" where
  "finalize E c s =
     (if \<not> libContainsFinalizer E (cl_meta c) finalizerNodeSmithClaim then ((0, None), s)
      else if st_nodeName (cl_status c) = [] then finalizeRest E c s
      else (case getNode E (st_nodeName (cl_status c)) s of
        (Inr n, s1) \<Rightarrow> (case deleteNode E n s1 of
            (Some e, s2) \<Rightarrow>
              (if \<not> IsNotFound e then ((requeueFinalization, Some e), s2)
               else (case recordEvent (cl_name c) eventNormal ''NodeDeleted'' (''Node '' @ nd_name n @ '' deleted'') s2 of
                 (_, s3) \<Rightarrow> ((requeueFinalization, None), s3)))
          | (None, s2) \<Rightarrow>
              (case recordEvent (cl_name c) eventNormal ''NodeDeleted'' (''Node '' @ nd_name n @ '' deleted'') s2 of
                (_, s3) \<Rightarrow> ((requeueFinalization, None), s3)))
      | (Inl e, s1) \<Rightarrow>
          (if \<not> IsNotFound e then ((requeueFinalization, Some e), s1) else finalizeRest E c s1)))"

section \<open>Reconcile\<close>

text \<open>
  \<open>if result, err := phase(); result != nil || err != nil { return *result, err }\<close>: an error
  without a result would dereference nil.
\<close>

definition afterPhase ::
  "(phase_result \<times> claim) \<times> 'w st \<Rightarrow>
   (claim \<Rightarrow> 'w st \<Rightarrow> (duration \<times> goerr option) outcome \<times> 'w st) \<Rightarrow> (duration \<times> goerr option) outcome \<times> 'w st" where
  "afterPhase x k = (case x of ((res, c), s) \<Rightarrow> (case res of
     Panic m \<Rightarrow> (Panic m, s)
   | Ret (Some d, e) \<Rightarrow> (Ret (d, e), s)
   | Ret (None, Some e) \<Rightarrow> (Panic ''nil pointer dereference'', s)
   | Ret (None, None) \<Rightarrow> k c s))"

definition claimFailed :: "'w env \<Rightarrow> claim \<Rightarrow> bool" where
  "claimFailed E c = (case findCondition E c conditionTypeFailed of
     None \<Rightarrow> False | Some k \<Rightarrow> cond_status k = CTrue)"

text \<open>The lifecycle phases in order.\<close>

definition claimPhases :: "'w env \<Rightarrow> claim \<Rightarrow> 'w st \<Rightarrow> (duration \<times> goerr option) outcome \<times> 'w st" where
  "claimPhases E c s =
     afterPhase (reconcileLaunch E c s) (\<lambda>c1 s1.
     afterPhase (reconcileRegistration E c1 s1) (\<lambda>c2 s2.
     afterPhase (reconcileInitialization E c2 s2) (\<lambda>c3 s3.
       (Ret (readyHealthCheckInterval, None), s3))))"

definition reconcileClaim :: "'w env \<Rightarrow> nskey \<Rightarrow> 'w st \<Rightarrow> (duration \<times> goerr option) outcome \<times> 'w st" where
  "reconcileClaim E key s = (case getClaim E key s of
     (Inl e, s1) \<Rightarrow> (Ret (0, ignoreNotFound e), s1)
   | (Inr c, s1) \<Rightarrow>
       (if \<not> timePtrIsZero (om_deletion (cl_meta c))
        then (case finalize E c s1 of (r, s2) \<Rightarrow> (Ret r, s2))
        else if \<not> libContainsFinalizer E (cl_meta c) finalizerNodeSmithClaim
        then (case updateClaim E (c\<lparr>cl_meta := libAddFinalizer E (cl_meta c) finalizerNodeSmithClaim\<rparr>) s1 of
            (Inl e, s2) \<Rightarrow> (Ret (0, Some e), s2)
          | (Inr _, s2) \<Rightarrow> (Ret (immediateRequeueDelay, None), s2))
        else if claimFailed E c then (Ret (0, None), s1)
        else claimPhases E c s1))"

end
