(* ===== verification/Provider_Contract.thy ===== *)
theory Provider_Contract
  imports Claim_Controller
begin

text \<open>
  What the claim controller relies on in a machine provider (\<open>internal/provider/provider.go\<close>):
  the controller never keeps the node name of the machine that \<open>ProvisionMachine\<close> returns, it
  only looks for a node with the claim's name later. That works for a provider whose machines join
  under the machine name they were asked for, and whose provider id is never empty, since an empty one
  in the status means that no machine was launched.
\<close>

section \<open>What a registration writes\<close>

text \<open>The calls whose failure ends a registration.\<close>

fun failedCall :: "ext_call \<Rightarrow> bool" where
  "failedCall (EGetPool k (Inl e)) = True"
| "failedCall (EPatchNode n b (Some e)) = True"
| "failedCall (EGetClaim k (Inl e)) = True"
| "failedCall (EStatusClaim c (Inl e)) = True"
| "failedCall _ = False"

fun isClaimStatusWrite :: "ext_call \<Rightarrow> bool" where
  "isClaimStatusWrite (EStatusClaim c r) = True"
| "isClaimStatusWrite _ = False"

lemma isClaimStatusWrite_iff: "isClaimStatusWrite e \<longleftrightarrow> (\<exists>d r. e = EStatusClaim d r)"
  by (cases e) auto

definition registeredAs :: "'w env \<Rightarrow> string \<Rightarrow> claim \<Rightarrow> bool" where
  "registeredAs E name d \<longleftrightarrow> st_nodeName (cl_status d) = name \<and> st_launchAttempts (cl_status d) = 0 \<and>
     (\<exists>k. findCondition E d conditionTypeRegistered = Some k \<and> cond_status k = CTrue) \<and> \<not> claimFailed E d"

lemma conditionTypes_differ: "conditionTypeRegistered \<noteq> conditionTypeFailed"
  by code_simp

lemma registeredAs_mark:
  assumes "conditions_ok E"
  shows "registeredAs E name (markRegistered E name t l)"
  using assms conditionTypes_differ
  by (simp add: registeredAs_def markRegistered_def claimFailed_def findCondition_def setCondition_def removeCondition_def
      setLaunchAttempts_def setNodeName_def find_laws)

text \<open>The run of a registration: what it writes, and when it succeeds.\<close>

definition registrationRun :: "'w env \<Rightarrow> string \<Rightarrow> phase_result \<Rightarrow> ext_call list \<Rightarrow> bool" where
  "registrationRun E name res evs \<longleftrightarrow>
     (\<forall>d r. EStatusClaim d r \<in> set evs \<longrightarrow> registeredAs E name d) \<and>
     (res = nextPhase \<and> (\<exists>st. list_ex (answered (\<lambda>st. st_nodeName st = name) st) evs) \<or>
      (\<exists>d e. res = failWith d e) \<and> list_ex failedCall evs)"

lemma updateClaimStatus_registers:
  assumes "env_ok E"
  shows "tspec s (updateClaimStatus E c (markRegistered E name) s) (\<lambda>(r, c') evs.
    list_all (\<lambda>e. case e of EStatusClaim d x \<Rightarrow> registeredAs E name d | _ \<Rightarrow> True) evs \<and>
    (case r of Some e \<Rightarrow> list_ex failedCall evs | None \<Rightarrow> (\<exists>st. list_ex (answered (\<lambda>st. st_nodeName st = name) st) evs)))"
proof -
  let ?f = "claimStatusAttempt E (metaKey (cl_meta c)) (markRegistered E name)"
  have eq: "\<And>x y. libEqClaim E x y \<longleftrightarrow> x = y" using assms by (simp add: env_ok_def deepequal_ok_def)
  have m: "registeredAs E name (markRegistered E name t l)" for t l by (rule registeredAs_mark) (use assms in blast)
  then have n: "st_nodeName (cl_status (markRegistered E name t l)) = name" for t l by (simp add: registeredAs_def)
  define Q where "Q r evs \<longleftrightarrow> list_all (\<lambda>e. case e of EStatusClaim d x \<Rightarrow> registeredAs E name d | _ \<Rightarrow> True) evs \<and>
    (case r of Inl e \<Rightarrow> list_ex failedCall evs | Inr st \<Rightarrow> list_ex (answered (\<lambda>st. st_nodeName st = name) st) evs)"
    for r :: "goerr + claim_status" and evs
  have "tspec s (?f s) Q" for s
    unfolding claimStatusAttempt_def Let_def eq
    by (intro tspec_intros) (auto simp: Q_def m n)
  then have "tspec s (retryClaim E ?f s) Q"
    by (intro retry_run_tspec [OF retryClaim_run [OF assms]]) (auto simp: Q_def split: sum.splits)
  then show ?thesis unfolding updateClaimStatus_def
    by (rule tspec_bind) (auto simp: Q_def split: sum.splits intro!: tspec_ret)
qed

lemma registrationRun_before:
  assumes "registrationRun E name res evs" and "\<And>d r. EStatusClaim d r \<notin> set xs"
  shows "registrationRun E name res (xs @ evs)"
  using assms by (auto simp: registrationRun_def)

lemma registerNode_run:
  assumes "env_ok E"
  shows "tspec s (registerNode E c n s) (\<lambda>(res, c') evs. registrationRun E (nd_name n) res evs)"
proof -
  have pool: "tspec s (getPoolForClaim E c s) (\<lambda>r evs. list_all (\<lambda>e. \<not> isClaimStatusWrite e) evs \<and> (\<forall>e. r = Inl e \<longrightarrow> list_ex failedCall evs))"
    unfolding getPoolForClaim_def Let_def by (intro tspec_intros) auto
  have labels: "tspec s1 (ensureNodeLabels E n pl c s1) (\<lambda>r evs. list_all (\<lambda>e. \<not> isClaimStatusWrite e) evs \<and> (\<forall>e. r = Some e \<longrightarrow> list_ex failedCall evs))"
    for pl s1
    unfolding ensureNodeLabels_def by (auto intro!: tspec_intros tspec_call split: prod.split)
  show ?thesis
    unfolding registerNode_def Let_def
    apply (rule tspec_bind [OF pool], rule tspec_sum)
    subgoal by (intro tspec_ret) (auto simp: registrationRun_def list_all_iff)
    apply (rule tspec_bind [OF labels], rule tspec_option)
     defer
    subgoal by (intro tspec_ret) (auto simp: registrationRun_def list_all_iff)
    apply (rule tspec_bind [OF updateClaimStatus_registers [OF assms]], rule tspec_pair, rule tspec_option)
    subgoal by (intro tspec_intros) (auto simp: registrationRun_def list_all_iff)
    subgoal by (intro tspec_ret) (auto simp: registrationRun_def list_all_iff)
    done
qed

section \<open>The contract\<close>

locale machine_provider =
  fixes prov :: "'w provider"
  assumes node_named: "fst (pr_provision prov spec w) = Inr m \<Longrightarrow> mc_kubeNodeName m = ms_machineName spec"
    and id_present: "fst (pr_provision prov spec w) = Inr m \<Longrightarrow> mc_providerID m \<noteq> []"
begin

lemma joined_registers:
  assumes "env_ok E" and "fst (pr_provision prov spec w) = Inr m" and "ms_machineName spec = cl_name c"
    and "st_providerID (cl_status c) = mc_providerID m" and "st_nodeName (cl_status c) = []"
    and "listNodes E s = (Inr nodes, s1)" and "n \<in> set nodes" and "nd_name n = mc_kubeNodeName m"
    and "timePtrIsZero (om_deletion (nd_meta n))"
  shows "\<exists>n' \<in> set nodes. (nd_name n' = cl_name c \<or> nodeMatchesClaim n' c) \<and> timePtrIsZero (om_deletion (nd_meta n')) \<and>
    (\<exists>evs. trace (snd (reconcileRegistration E c s)) = trace s1 @ evs \<and>
      registrationRun E (nd_name n') (fst (fst (reconcileRegistration E c s))) evs)"
proof -
  let ?P = "\<lambda>n. (nd_name n = cl_name c \<or> nodeMatchesClaim n c) \<and> timePtrIsZero (om_deletion (nd_meta n))"
  have "?P n" using assms(3,8,9) node_named [OF assms(2)] by simp
  with assms(7) obtain n' where n': "find ?P nodes = Some n'"
    by (cases "find ?P nodes") (auto simp: find_None_iff)
  then have "n' \<in> set nodes" "?P n'" using find_Some_set [OF n'] by simp_all
  moreover have "reconcileRegistration E c s = registerNode E c n' s1"
    using assms(4-6) id_present [OF assms(2)] n' by (simp add: reconcileRegistration_def)
  ultimately show ?thesis
    using registerNode_run [OF assms(1), of s1 c n'] by (auto simp: tspec_def split: prod.splits)
qed

lemma launched_not_relaunched:
  assumes "fst (pr_provision prov spec w) = Inr m" and "st_providerID (cl_status c) = mc_providerID m"
  shows "reconcileLaunch E c s = ((nextPhase, c), s)"
  using id_present [OF assms(1)] assms(2) by (simp add: reconcileLaunch_def)

end

end
