(* ===== verification/Claim_Lifecycle.thy ===== *)
theory Claim_Lifecycle
  imports Provider_Contract
begin

text \<open>
  What a reconcile may write into a claim's status. \<open>life_step\<close> lists the changes of the
  lifecycle, each with what the reconcile must have been told before: an event of the log that it
  has written so far. \<open>writesOk\<close> says that every status write of a log is such a change, applied to
  the claim that was read immediately before. Nothing is assumed of the API server here: its
  answers may be stale, wrong or missing.
\<close>

section \<open>The core of a claim\<close>

text \<open>The status without the lease, which the heartbeat is there to change at any time.\<close>

definition core :: "claim \<Rightarrow> claim_status" where
  "core c = (cl_status c)\<lparr>st_lease := None\<rparr>"

lemma core_sel [simp]:
  "st_conditions (core c) = st_conditions (cl_status c)" "st_providerID (core c) = st_providerID (cl_status c)"
  "st_nodeName (core c) = st_nodeName (cl_status c)" "st_launchAttempts (core c) = st_launchAttempts (cl_status c)"
  by (simp_all add: core_def)

lemma core_fields:
  assumes "core c = core d"
  shows "st_conditions (cl_status c) = st_conditions (cl_status d)" "st_providerID (cl_status c) = st_providerID (cl_status d)"
    "st_nodeName (cl_status c) = st_nodeName (cl_status d)" "st_launchAttempts (cl_status c) = st_launchAttempts (cl_status d)"
  using assms by (metis core_sel)+

lemma core_lease [simp]:
  "core (setLease h p b n t c) = core c" "core (dropLease p t c) = core c" "core (beatLease p t c) = core c"
  by (simp_all add: core_def setLease_def dropLease_def beatLease_def split: option.split)

lemma core_status: "cl_status c = cl_status d \<Longrightarrow> core c = core d"
  by (simp add: core_def)

section \<open>What a change does\<close>

definition condTrue :: "'w env \<Rightarrow> claim \<Rightarrow> string \<Rightarrow> bool" where
  "condTrue E c ty \<longleftrightarrow> (case findCondition E c ty of None \<Rightarrow> False | Some k \<Rightarrow> cond_status k = CTrue)"

lemma mark_fields [simp]:
  "cl_meta (setCondition E ty st re msg t c) = cl_meta c" "cl_meta (removeCondition E ty c) = cl_meta c"
  "cl_meta (setProviderID i c) = cl_meta c" "cl_meta (setNodeName n c) = cl_meta c" "cl_meta (setLaunchAttempts k c) = cl_meta c"
  "st_providerID (cl_status (setCondition E ty st re msg t c)) = st_providerID (cl_status c)"
  "st_nodeName (cl_status (setCondition E ty st re msg t c)) = st_nodeName (cl_status c)"
  "st_launchAttempts (cl_status (setCondition E ty st re msg t c)) = st_launchAttempts (cl_status c)"
  "st_providerID (cl_status (removeCondition E ty c)) = st_providerID (cl_status c)"
  "st_nodeName (cl_status (removeCondition E ty c)) = st_nodeName (cl_status c)"
  "st_launchAttempts (cl_status (removeCondition E ty c)) = st_launchAttempts (cl_status c)"
  "st_providerID (cl_status (setProviderID i c)) = i" "st_nodeName (cl_status (setProviderID i c)) = st_nodeName (cl_status c)"
  "st_launchAttempts (cl_status (setProviderID i c)) = st_launchAttempts (cl_status c)"
  "st_providerID (cl_status (setNodeName n c)) = st_providerID (cl_status c)" "st_nodeName (cl_status (setNodeName n c)) = n"
  "st_launchAttempts (cl_status (setNodeName n c)) = st_launchAttempts (cl_status c)"
  "st_providerID (cl_status (setLaunchAttempts k c)) = st_providerID (cl_status c)"
  "st_nodeName (cl_status (setLaunchAttempts k c)) = st_nodeName (cl_status c)"
  "st_launchAttempts (cl_status (setLaunchAttempts k c)) = k"
  by (simp_all add: setCondition_def removeCondition_def setProviderID_def setNodeName_def setLaunchAttempts_def)

lemma condTrue_mark:
  assumes "conditions_ok E"
  shows "condTrue E (setCondition E ty st re msg t c) ty' = (if ty = ty' then st = CTrue else condTrue E c ty')"
    "condTrue E (removeCondition E ty c) ty' = (ty \<noteq> ty' \<and> condTrue E c ty')"
    "condTrue E (setProviderID i c) ty' = condTrue E c ty'" "condTrue E (setNodeName n c) ty' = condTrue E c ty'"
    "condTrue E (setLaunchAttempts k c) ty' = condTrue E c ty'"
  using assms by (cases "ty = ty'"; simp add: condTrue_def findCondition_def setCondition_def removeCondition_def setProviderID_def
      setNodeName_def setLaunchAttempts_def find_laws)+

lemma cond_types [simp]:
  "conditionTypeLaunched \<noteq> conditionTypeFailed" "conditionTypeRegistered \<noteq> conditionTypeFailed"
  "conditionTypeInitialized \<noteq> conditionTypeFailed" "conditionTypeReady \<noteq> conditionTypeFailed"
  "conditionTypeLaunched \<noteq> conditionTypeReady" "conditionTypeRegistered \<noteq> conditionTypeReady"
  "conditionTypeInitialized \<noteq> conditionTypeReady" "conditionTypeFailed \<noteq> conditionTypeReady"
  by code_simp+

lemmas mark_defs = markAttemptsExceeded_def markProviderError_def markProvisioningFailed_def markLaunched_def
  markRegistered_def markRegistrationTimeout_def markReady_def markRecycled_def Let_def

text \<open>What each change does to the fields that the invariant speaks of.\<close>

lemma mark_providerID [simp]:
  "st_providerID (cl_status (markAttemptsExceeded E msg t c)) = st_providerID (cl_status c)"
  "st_providerID (cl_status (markProviderError E e t c)) = st_providerID (cl_status c)"
  "st_providerID (cl_status (markProvisioningFailed E a e t c)) = st_providerID (cl_status c)"
  "st_providerID (cl_status (markLaunched E a p t c)) = p"
  "st_providerID (cl_status (markRegistered E n t c)) = st_providerID (cl_status c)"
  "st_providerID (cl_status (markRegistrationTimeout E a t c)) = []"
  "st_providerID (cl_status (markReady E t c)) = st_providerID (cl_status c)"
  "st_providerID (cl_status (markRecycled E a msg t c)) = []"
  by (simp_all add: mark_defs)

lemma mark_nodeName [simp]:
  "st_nodeName (cl_status (markAttemptsExceeded E msg t c)) = st_nodeName (cl_status c)"
  "st_nodeName (cl_status (markProviderError E e t c)) = st_nodeName (cl_status c)"
  "st_nodeName (cl_status (markProvisioningFailed E a e t c)) = st_nodeName (cl_status c)"
  "st_nodeName (cl_status (markLaunched E a p t c)) = st_nodeName (cl_status c)"
  "st_nodeName (cl_status (markRegistered E n t c)) = n"
  "st_nodeName (cl_status (markRegistrationTimeout E a t c)) = st_nodeName (cl_status c)"
  "st_nodeName (cl_status (markReady E t c)) = st_nodeName (cl_status c)"
  "st_nodeName (cl_status (markRecycled E a msg t c)) = []"
  by (simp_all add: mark_defs)

lemma mark_attempts [simp]:
  "st_launchAttempts (cl_status (markAttemptsExceeded E msg t c)) = st_launchAttempts (cl_status c)"
  "st_launchAttempts (cl_status (markProviderError E e t c)) = st_launchAttempts (cl_status c)"
  "st_launchAttempts (cl_status (markProvisioningFailed E a e t c)) = a"
  "st_launchAttempts (cl_status (markLaunched E a p t c)) = a"
  "st_launchAttempts (cl_status (markRegistered E n t c)) = 0"
  "st_launchAttempts (cl_status (markRegistrationTimeout E a t c)) = st_launchAttempts (cl_status c)"
  "st_launchAttempts (cl_status (markReady E t c)) = st_launchAttempts (cl_status c)"
  "st_launchAttempts (cl_status (markRecycled E a msg t c)) = a"
  by (simp_all add: mark_defs)

lemma mark_failed:
  assumes "conditions_ok E"
  shows "condTrue E (markAttemptsExceeded E msg t c) conditionTypeFailed"
    "condTrue E (markProviderError E e t c) conditionTypeFailed = condTrue E c conditionTypeFailed"
    "condTrue E (markProvisioningFailed E a e t c) conditionTypeFailed = condTrue E c conditionTypeFailed"
    "condTrue E (markLaunched E a p t c) conditionTypeFailed = condTrue E c conditionTypeFailed"
    "\<not> condTrue E (markRegistered E n t c) conditionTypeFailed"
    "condTrue E (markRegistrationTimeout E a t c) conditionTypeFailed =
       (maxLaunchAttempts \<le> a \<or> condTrue E c conditionTypeFailed)"
    "condTrue E (markReady E t c) conditionTypeFailed = condTrue E c conditionTypeFailed"
    "condTrue E (markRecycled E a msg t c) conditionTypeFailed = (maxLaunchAttempts \<le> a)"
  by (simp_all add: mark_defs condTrue_mark [OF assms])

lemma mark_ready:
  assumes "conditions_ok E"
  shows "condTrue E (markAttemptsExceeded E msg t c) conditionTypeReady = condTrue E c conditionTypeReady"
    "condTrue E (markProviderError E e t c) conditionTypeReady = condTrue E c conditionTypeReady"
    "condTrue E (markProvisioningFailed E a e t c) conditionTypeReady = condTrue E c conditionTypeReady"
    "condTrue E (markLaunched E a p t c) conditionTypeReady = condTrue E c conditionTypeReady"
    "condTrue E (markRegistered E n t c) conditionTypeReady = condTrue E c conditionTypeReady"
    "condTrue E (markRegistrationTimeout E a t c) conditionTypeReady = condTrue E c conditionTypeReady"
    "condTrue E (markReady E t c) conditionTypeReady"
    "\<not> condTrue E (markRecycled E a msg t c) conditionTypeReady"
  by (simp_all add: mark_defs condTrue_mark [OF assms])

lemma add64_small: "0 \<le> x \<Longrightarrow> x \<le> maxLaunchAttempts \<Longrightarrow> add64 x 1 = x + 1"
  by (simp add: add64_def i64_def maxLaunchAttempts_def)

section \<open>The changes of the lifecycle\<close>

text \<open>The statuses that an answer of the API server tells, and those a log has told.\<close>

fun told :: "claim_status \<Rightarrow> ext_call \<Rightarrow> bool" where
  "told st (EGetClaim k (Inr c)) = (st = cl_status c)"
| "told st (EStatusClaim d (Inr c)) = (st = cl_status c)"
| "told st _ = False"

definition knows :: "ext_call list \<Rightarrow> claim_status \<Rightarrow> bool" where
  "knows pre st \<longleftrightarrow> (\<exists>e \<in> set pre. told st e)"

definition nodeOf :: "claim \<Rightarrow> node \<Rightarrow> bool" where
  "nodeOf c n \<longleftrightarrow> (nd_name n = cl_name c \<or> nodeMatchesClaim n c) \<and> timePtrIsZero (om_deletion (nd_meta n))"

text \<open>A change belongs to one of the three stages that \<open>Reconcile\<close> runs in order.\<close>

datatype stage = InLaunch | InRegister | InInit

text \<open>
  \<open>life_step E c0 pre G l d\<close>: after the calls \<open>pre\<close> a reconcile that has read \<open>c0\<close> may, in stage
  \<open>G\<close>, change the claim \<open>l\<close> to \<open>d\<close>.
\<close>

inductive life_step :: "'w env \<Rightarrow> claim \<Rightarrow> ext_call list \<Rightarrow> stage \<Rightarrow> claim \<Rightarrow> claim \<Rightarrow> bool"
  for E :: "'w env" and c0 :: claim and pre :: "ext_call list" where
  lease_only: "core d = core l \<Longrightarrow> cl_meta d = cl_meta l \<Longrightarrow> cl_spec d = cl_spec l \<Longrightarrow> life_step E c0 pre InLaunch l d"
| give_up: "st_providerID (cl_status c0) = [] \<Longrightarrow> knows pre st \<Longrightarrow> maxLaunchAttempts \<le> st_launchAttempts st \<Longrightarrow>
    life_step E c0 pre InLaunch l (markAttemptsExceeded E msg t l)"
| provider_error: "st_providerID (cl_status c0) = [] \<Longrightarrow> knows pre st \<Longrightarrow> st_launchAttempts st < maxLaunchAttempts \<Longrightarrow>
    life_step E c0 pre InLaunch l (markProviderError E e t l)"
| provision_failed: "st_providerID (cl_status c0) = [] \<Longrightarrow> knows pre st \<Longrightarrow> st_launchAttempts st < maxLaunchAttempts \<Longrightarrow>
    EProvision ms (Inl e) \<in> set pre \<Longrightarrow> ms_machineName ms = cl_name c0 \<Longrightarrow>
    life_step E c0 pre InLaunch l (markProvisioningFailed E (add64 (st_launchAttempts st) 1) e t l)"
| launched: "st_providerID (cl_status c0) = [] \<Longrightarrow> knows pre st \<Longrightarrow> st_launchAttempts st < maxLaunchAttempts \<Longrightarrow>
    EProvision ms (Inr m) \<in> set pre \<Longrightarrow> ms_machineName ms = cl_name c0 \<Longrightarrow>
    life_step E c0 pre InLaunch l (markLaunched E (add64 (st_launchAttempts st) 1) (mc_providerID m) t l)"
| registered: "knows pre st \<Longrightarrow> st_providerID st \<noteq> [] \<Longrightarrow> st_nodeName st = [] \<Longrightarrow>
    EListNodes (Inr ns) \<in> set pre \<Longrightarrow> n \<in> set ns \<Longrightarrow> nodeOf c0 n \<Longrightarrow>
    life_step E c0 pre InRegister l (markRegistered E (nd_name n) t l)"
| timed_out: "knows pre st \<Longrightarrow> st_providerID st \<noteq> [] \<Longrightarrow> st_nodeName st = [] \<Longrightarrow>
    EListNodes (Inr ns) \<in> set pre \<Longrightarrow> list_all (\<lambda>n. \<not> nodeOf c0 n) ns \<Longrightarrow>
    life_step E c0 pre InRegister l (markRegistrationTimeout E
      (if st_launchAttempts st = 0 then 1 else st_launchAttempts st) t l)"
| ready: "knows pre st \<Longrightarrow> st_nodeName st \<noteq> [] \<Longrightarrow> EGetNode (st_nodeName st) (Inr n) \<in> set pre \<Longrightarrow> nodeReady n \<Longrightarrow>
    life_step E c0 pre InInit l (markReady E t l)"
| recycled: "knows pre st \<Longrightarrow> st_nodeName st \<noteq> [] \<Longrightarrow> EGetNode (st_nodeName st) r \<in> set pre \<Longrightarrow>
    (case r of Inl e \<Rightarrow> IsNotFound e | Inr n \<Rightarrow> \<not> nodeReady n \<and> (\<exists>u. readinessDegradeTimeout < notReadyDuration u n)) \<Longrightarrow>
    life_step E c0 pre InInit l (markRecycled E (add64 (st_launchAttempts st) 1) msg t l)"

text \<open>A write is justified when it changes, by a lifecycle change, the status that was read just before.\<close>

definition justified :: "'w env \<Rightarrow> claim \<Rightarrow> stage \<Rightarrow> ext_call list \<Rightarrow> claim \<Rightarrow> bool" where
  "justified E c0 G pre d \<longleftrightarrow> (\<exists>xs l. pre = xs @ [EGetClaim (metaKey (cl_meta c0)) (Inr l)] \<and>
     cl_status d \<noteq> cl_status l \<and> life_step E c0 pre G l d)"

fun writesOk :: "(ext_call list \<Rightarrow> claim \<Rightarrow> bool) \<Rightarrow> ext_call list \<Rightarrow> ext_call list \<Rightarrow> bool" where
  "writesOk P pre [] = True"
| "writesOk P pre (e # evs) =
     ((case e of EStatusClaim d r \<Rightarrow> P pre d | _ \<Rightarrow> True) \<and> writesOk P (pre @ [e]) evs)"

lemma writesOk_append: "writesOk P pre (xs @ ys) \<longleftrightarrow> writesOk P pre xs \<and> writesOk P (pre @ xs) ys"
  by (induction P pre xs rule: writesOk.induct) auto

lemma writesOk_silent: "list_all (\<lambda>e. \<not> isClaimStatusWrite e) evs \<Longrightarrow> writesOk P pre evs"
proof (induction P pre evs rule: writesOk.induct)
  case (2 P pre e evs)
  then show ?case by (cases e) auto
qed simp

lemma knows_append [simp]: "knows (xs @ ys) st \<longleftrightarrow> knows xs st \<or> knows ys st"
  by (auto simp: knows_def)

lemma knows_single [simp]: "knows [] st \<longleftrightarrow> False" "knows (e # es) st \<longleftrightarrow> told st e \<or> knows es st"
  by (auto simp: knows_def)

section \<open>Runs whose writes are justified\<close>

text \<open>
  \<open>just E c0 G pre s x Q\<close>: the status writes of the run \<open>x\<close>, which started in \<open>s\<close> after the
  calls \<open>pre\<close>, are justified, and \<open>Q\<close> holds of its result and of all calls by then.
\<close>

definition just :: "'w env \<Rightarrow> claim \<Rightarrow> stage \<Rightarrow> ext_call list \<Rightarrow> 'w st \<Rightarrow> 'a \<times> 'w st \<Rightarrow> ('a \<Rightarrow> ext_call list \<Rightarrow> bool) \<Rightarrow> bool" where
  "just E c0 G pre s x Q \<longleftrightarrow> tspec s x (\<lambda>r evs. writesOk (justified E c0 G) pre evs \<and> Q r (pre @ evs))"

named_theorems just_intros

lemma just_ret [just_intros]: "Q r pre \<Longrightarrow> just E c0 G pre s (r, s) Q"
  by (simp add: just_def tspec_ret)

lemma just_bind:
  assumes "just E c0 G pre s x R"
    and "\<And>r s1 evs. R r (pre @ evs) \<Longrightarrow> just E c0 G (pre @ evs) s1 (g r s1) Q"
  shows "just E c0 G pre s (case x of (r, s1) \<Rightarrow> g r s1) Q"
  unfolding just_def
  by (rule tspec_bind [OF assms(1) [unfolded just_def]])
    (auto simp: writesOk_append intro!: tspec_mono [OF assms(2) [unfolded just_def]])

lemma just_call [just_intros]:
  assumes "\<And>r. \<not> isClaimStatusWrite (ev r)" and "\<And>r s1. just E c0 G (pre @ [ev r]) s1 (g r s1) Q"
  shows "just E c0 G pre s (case call f ev s of (r, s1) \<Rightarrow> g r s1) Q"
proof -
  have w: "writesOk P pre [ev r]" for P r using assms(1) by (intro writesOk_silent) simp
  show ?thesis
    unfolding just_def
    by (rule tspec_bind_call, rule tspec_mono [OF assms(2) [unfolded just_def]])
      (use w writesOk_append [of _ pre "[ev _]"] in auto)
qed

lemma just_quiet:
  assumes "emits (\<lambda>e. \<not> isClaimStatusWrite e) s x" and "\<And>r s1 evs. just E c0 G (pre @ evs) s1 (g r s1) Q"
  shows "just E c0 G pre s (case x of (r, s1) \<Rightarrow> g r s1) Q"
proof (rule just_bind)
  show "just E c0 G pre s x (\<lambda>_ _. True)"
    unfolding just_def by (rule emits_tspec [OF assms(1)]) (simp add: writesOk_silent)
qed (rule assms(2))

lemma just_sum [just_intros]:
  "(\<And>e. x = Inl e \<Longrightarrow> just E c0 G pre s (f e) Q) \<Longrightarrow> (\<And>v. x = Inr v \<Longrightarrow> just E c0 G pre s (g v) Q) \<Longrightarrow>
   just E c0 G pre s (case x of Inl e \<Rightarrow> f e | Inr v \<Rightarrow> g v) Q"
  by (cases x) simp_all

lemma just_option [just_intros]:
  "(x = None \<Longrightarrow> just E c0 G pre s f Q) \<Longrightarrow> (\<And>v. x = Some v \<Longrightarrow> just E c0 G pre s (g v) Q) \<Longrightarrow>
   just E c0 G pre s (case x of None \<Rightarrow> f | Some v \<Rightarrow> g v) Q"
  by (cases x) simp_all

lemma just_if [just_intros]:
  "(b \<Longrightarrow> just E c0 G pre s f Q) \<Longrightarrow> (\<not> b \<Longrightarrow> just E c0 G pre s g Q) \<Longrightarrow> just E c0 G pre s (if b then f else g) Q"
  by simp

lemma just_let [just_intros]: "just E c0 G pre s (f v) Q \<Longrightarrow> just E c0 G pre s (let x = v in f x) Q"
  by simp

lemma just_pair: "(\<And>a b. x = (a, b) \<Longrightarrow> just E c0 G pre s (f a b) Q) \<Longrightarrow> just E c0 G pre s (case x of (a, b) \<Rightarrow> f a b) Q"
  by (cases x) simp

lemma just_holder [just_intros]:
  assumes "\<And>h s1. just E c0 G pre s1 (g h s1) Q"
  shows "just E c0 G pre s (case getLeaseHolderID E s of (h, s1) \<Rightarrow> g h s1) Q"
proof -
  obtain h s1 where h: "getLeaseHolderID E s = (h, s1)" by fastforce
  then have "trace s1 = trace s" using getLeaseHolderID_frame(1) [of E s] by simp
  then show ?thesis using assms [of s1 h] h by (simp add: just_def tspec_def)
qed

section \<open>Status updates\<close>

text \<open>A change that is justified from now on, whatever claim it is applied to.\<close>

definition may :: "'w env \<Rightarrow> claim \<Rightarrow> stage \<Rightarrow> ext_call list \<Rightarrow> (time \<Rightarrow> claim \<Rightarrow> claim) \<Rightarrow> bool" where
  "may E c0 G pre m \<longleftrightarrow> (\<forall>xs t l. life_step E c0 (pre @ xs) G l (m t l))"

lemma mayD: "may E c0 G pre m \<Longrightarrow> life_step E c0 (pre @ xs) G l (m t l)"
  by (simp add: may_def)

lemma may_attempt:
  assumes "deepequal_ok E" and "may E c0 G pre m"
  shows "tspec s (claimStatusAttempt E (metaKey (cl_meta c0)) m s) (\<lambda>r evs.
    (\<forall>xs. writesOk (justified E c0 G) (pre @ xs) evs) \<and> (case r of Inl e \<Rightarrow> True | Inr st \<Rightarrow> knows evs st))"
proof -
  have eq: "libEqClaim E x y \<longleftrightarrow> x = y" for x y using assms(1) by (simp add: deepequal_ok_def)
  have "life_step E c0 (pre @ xs @ [e]) G l (m t l)" for xs e t l by (rule mayD [OF assms(2)])
  then have j: "justified E c0 G (pre @ xs @ [EGetClaim (metaKey (cl_meta c0)) (Inr l)]) (m t l)"
    if "cl_status l \<noteq> cl_status (m t l)" for xs l t
    unfolding justified_def using that by (intro exI [of _ "pre @ xs"] exI [of _ l]) simp
  show ?thesis
    unfolding claimStatusAttempt_def Let_def eq
    by (intro tspec_intros) (auto simp: j)
qed

lemma may_update:
  assumes "env_ok E" and "cl_meta c = cl_meta c0" and "may E c0 G pre m"
  shows "just E c0 G pre s (updateClaimStatus E c m s) (\<lambda>(r, d) pre'. cl_meta d = cl_meta c0 \<and>
    (case r of Some e \<Rightarrow> d = c | None \<Rightarrow> knows pre' (cl_status d)))"
proof -
  have "tspec s (retryClaim E (claimStatusAttempt E (metaKey (cl_meta c0)) m) s) (\<lambda>r evs.
    (\<forall>xs. writesOk (justified E c0 G) (pre @ xs) evs) \<and> (case r of Inl e \<Rightarrow> True | Inr st \<Rightarrow> knows evs st))"
    by (rule retry_run_tspec [OF retryClaim_run [OF assms(1)] may_attempt [OF _ assms(3)]])
      (use assms(1) in \<open>auto simp: writesOk_append split: sum.splits\<close>)
  then show ?thesis
    unfolding just_def updateClaimStatus_def assms(2)
    by (rule tspec_bind) (auto simp: assms(2) split: sum.splits intro!: tspec_ret dest: spec [of _ "[]"])
qed

text \<open>A status update within a phase, by what it returns.\<close>

definition ours :: "claim \<Rightarrow> ext_call list \<Rightarrow> claim \<Rightarrow> bool" where
  "ours c0 pre c \<longleftrightarrow> cl_meta c = cl_meta c0 \<and> knows pre (cl_status c)"

lemma just_update:
  assumes "env_ok E" and "cl_meta c = cl_meta c0" and "may E c0 G pre m"
    and "\<And>e s1 evs. just E c0 G (pre @ evs) s1 (f e c s1) Q"
    and "\<And>d s1 evs. ours c0 (pre @ evs) d \<Longrightarrow> just E c0 G (pre @ evs) s1 (g d s1) Q"
  shows "just E c0 G pre s (case updateClaimStatus E c m s of ((r, d), s1) \<Rightarrow>
      (case r of None \<Rightarrow> g d s1 | Some e \<Rightarrow> f e d s1)) Q"
  by (rule just_bind [OF may_update [OF assms(1-3)]])
    (use assms(4,5) in \<open>auto simp: ours_def split: option.split prod.splits\<close>)

lemma just_update_any:
  assumes "env_ok E" and "cl_meta c = cl_meta c0" and "may E c0 G pre m"
    and "\<And>r d s1 evs. cl_meta d = cl_meta c0 \<Longrightarrow> d = c \<or> ours c0 (pre @ evs) d \<Longrightarrow> just E c0 G (pre @ evs) s1 (g r d s1) Q"
  shows "just E c0 G pre s (case updateClaimStatus E c m s of ((r, d), s1) \<Rightarrow> g r d s1) Q"
  by (rule just_bind [OF may_update [OF assms(1-3)]])
    (use assms(4) in \<open>auto simp: ours_def split: option.splits prod.splits\<close>)

section \<open>The phases\<close>

lemma ours_append [simp]: "ours c0 pre c \<Longrightarrow> ours c0 (pre @ evs) c"
  by (simp add: ours_def)

lemma ours_meta: "ours c0 pre c \<Longrightarrow> cl_meta c = cl_meta c0"
  by (simp add: ours_def)

text \<open>What a phase leaves behind: a copy that the next phase may go by.\<close>

definition passed :: "claim \<Rightarrow> phase_result \<times> claim \<Rightarrow> ext_call list \<Rightarrow> bool" where
  "passed c0 x pre \<longleftrightarrow> cl_meta (snd x) = cl_meta c0 \<and> (fst x = nextPhase \<longrightarrow> ours c0 pre (snd x))"

lemma passed_stop [simp]:
  "passed c0 (stopWith d, c) pre \<longleftrightarrow> cl_meta c = cl_meta c0" "passed c0 (failWith d e, c) pre \<longleftrightarrow> cl_meta c = cl_meta c0"
  "passed c0 (Panic m, c) pre \<longleftrightarrow> cl_meta c = cl_meta c0" "passed c0 (nextPhase, c) pre \<longleftrightarrow> ours c0 pre c"
  by (auto simp: passed_def ours_def)

lemma may_lease: "may E c0 InLaunch pre (setLease h p b n)" "may E c0 InLaunch pre (dropLease p)"
  by (auto simp: may_def intro!: lease_only)

lemma may_launch:
  assumes "st_providerID (cl_status c0) = []" and "knows pre st"
  shows "maxLaunchAttempts \<le> st_launchAttempts st \<Longrightarrow> may E c0 InLaunch pre (markAttemptsExceeded E msg)"
    and "st_launchAttempts st < maxLaunchAttempts \<Longrightarrow> may E c0 InLaunch pre (markProviderError E e)"
    and "st_launchAttempts st < maxLaunchAttempts \<Longrightarrow> EProvision ms (Inl e') \<in> set pre \<Longrightarrow> ms_machineName ms = cl_name c0 \<Longrightarrow>
      may E c0 InLaunch pre (markProvisioningFailed E (add64 (st_launchAttempts st) 1) e')"
    and "st_launchAttempts st < maxLaunchAttempts \<Longrightarrow> EProvision ms (Inr m) \<in> set pre \<Longrightarrow> ms_machineName ms = cl_name c0 \<Longrightarrow>
      may E c0 InLaunch pre (markLaunched E (add64 (st_launchAttempts st) 1) (mc_providerID m))"
  using assms unfolding may_def by (auto intro: give_up provider_error provision_failed launched)

lemma may_register:
  assumes "knows pre st" and "st_providerID st \<noteq> []" and "st_nodeName st = []" and "EListNodes (Inr ns) \<in> set pre"
  shows "n \<in> set ns \<Longrightarrow> nodeOf c0 n \<Longrightarrow> may E c0 InRegister pre (markRegistered E (nd_name n))"
    and "list_all (\<lambda>n. \<not> nodeOf c0 n) ns \<Longrightarrow> may E c0 InRegister pre (markRegistrationTimeout E
      (if st_launchAttempts st = 0 then 1 else st_launchAttempts st))"
  using assms unfolding may_def by (auto intro: registered timed_out simp del: if_split split del: if_split)

lemma may_init:
  assumes "knows pre st" and "st_nodeName st \<noteq> []" and "EGetNode (st_nodeName st) r \<in> set pre"
  shows "r = Inr n \<Longrightarrow> nodeReady n \<Longrightarrow> may E c0 InInit pre (markReady E)"
    and "(case r of Inl e \<Rightarrow> IsNotFound e | Inr n \<Rightarrow> \<not> nodeReady n \<and> (\<exists>u. readinessDegradeTimeout < notReadyDuration u n)) \<Longrightarrow>
      may E c0 InInit pre (markRecycled E (add64 (st_launchAttempts st) 1) msg)"
  using assms unfolding may_def by (auto intro: ready recycled [of "pre @ _" st r])

lemma quiet_claimStatus [emits_intros]:
  "emits (\<lambda>e. \<not> isClaimStatusWrite e) s (getProviderForClaim E c s)"
  "emits (\<lambda>e. \<not> isClaimStatusWrite e) s (getPoolForClaim E c s)"
  "emits (\<lambda>e. \<not> isClaimStatusWrite e) s (ensureNodeLabels E n pl c s)"
  "emits (\<lambda>e. \<not> isClaimStatusWrite e) s (timeoutDeprovision E c s)"
  "emits (\<lambda>e. \<not> isClaimStatusWrite e) s (recycleDeprovision E c s)"
  "emits (\<lambda>e. \<not> isClaimStatusWrite e) s (finalizeDeprovision E c s)"
proof -
  show *: "emits (\<lambda>e. \<not> isClaimStatusWrite e) s (getProviderForClaim E c s)" for s
    unfolding getProviderForClaim_def Let_def buildProvider_def by (intro emits_intros) simp_all
  show "emits (\<lambda>e. \<not> isClaimStatusWrite e) s (getPoolForClaim E c s)"
    unfolding getPoolForClaim_def Let_def by (intro emits_intros) simp_all
  show "emits (\<lambda>e. \<not> isClaimStatusWrite e) s (ensureNodeLabels E n pl c s)"
    unfolding ensureNodeLabels_def by (intro emits_intros) simp_all
  show "emits (\<lambda>e. \<not> isClaimStatusWrite e) s (timeoutDeprovision E c s)"
    unfolding timeoutDeprovision_def by (intro emits_intros *) simp_all
  show "emits (\<lambda>e. \<not> isClaimStatusWrite e) s (recycleDeprovision E c s)"
    unfolding recycleDeprovision_def by (intro emits_intros *) simp_all
  show "emits (\<lambda>e. \<not> isClaimStatusWrite e) s (finalizeDeprovision E c s)"
    unfolding finalizeDeprovision_def by (intro emits_intros *) simp_all
qed

lemma finalize_quiet_status: "emits (\<lambda>e. \<not> isClaimStatusWrite e) s (finalize E c s)"
  unfolding finalize_def finalizeRest_def by (intro emits_intros) simp_all

subsection \<open>Launch\<close>

lemma launchGiveUp_just:
  assumes "env_ok E" and "ours c0 pre c" and "st_providerID (cl_status c0) = []"
    and "maxLaunchAttempts \<le> st_launchAttempts (cl_status c)"
  shows "just E c0 InLaunch pre s (launchGiveUp E c s) (passed c0)"
  unfolding launchGiveUp_def
  by (rule just_update [OF assms(1) _ may_launch(1) [OF assms(3) _ assms(4)]])
    (use assms(2) in \<open>auto simp: ours_def intro!: just_ret\<close>)

lemma launchProvision_just:
  assumes "env_ok E" and "ours c0 pre c" and "st_providerID (cl_status c0) = []"
    and "st_launchAttempts (cl_status c) < maxLaunchAttempts"
  shows "just E c0 InLaunch pre s (launchProvision E c rq prov s) (passed c0)"
proof -
  have c: "cl_meta c = cl_meta c0" "knows pre (cl_status c)" using assms(2) by (simp_all add: ours_def)
  show ?thesis
    unfolding launchProvision_def Let_def
    apply (rule just_call, simp, rule just_sum)
    subgoal for r s1 e
      by (rule just_update_any [OF assms(1) _ may_launch(3) [OF assms(3) _ assms(4)]]) (use c in \<open>auto intro!: just_ret\<close>)
    subgoal for r s1 m
      by (rule just_update [OF assms(1) _ may_launch(4) [OF assms(3) _ assms(4)]]) (use c in \<open>auto simp: ours_def intro!: just_intros\<close>)
    done
qed

lemma launchBody_just:
  assumes "env_ok E" and "ours c0 pre c" and "st_providerID (cl_status c0) = []"
  shows "just E c0 InLaunch pre s (launchBody E c s) (passed c0)"
proof -
  have c: "cl_meta c = cl_meta c0" "knows pre (cl_status c)" using assms(2) by (simp_all add: ours_def)
  have pe: "just E c0 InLaunch (pre @ evs) s1 (case updateClaimStatus E c (markProviderError E e) s1 of
      ((_, c1), s3) \<Rightarrow> ((failWith requeueOnError e, c1), s3)) (passed c0)"
    if "st_launchAttempts (cl_status c) < maxLaunchAttempts" for evs s1 e
    by (rule just_update_any [OF assms(1) c(1) may_launch(2) [OF assms(3) _ that]]) (use c in \<open>auto intro!: just_ret\<close>)
  show ?thesis
    unfolding launchBody_def
    apply (intro just_intros launchGiveUp_just [OF assms])
    subgoal by simp
    subgoal by simp
    subgoal by (simp add: c)
    subgoal by (simp add: c)
    subgoal for r s1 e rq
      by (rule just_quiet [OF quiet_claimStatus(1)], rule just_sum)
        (use pe launchProvision_just [OF assms(1) _ assms(3)] assms(2) in \<open>auto simp: not_le\<close>)
    subgoal by (simp add: c)
    done
qed

lemma release_just:
  assumes "env_ok E" and "cl_meta c = cl_meta c0"
    and "\<And>r d s1 evs. cl_meta d = cl_meta c0 \<Longrightarrow> (ours c0 pre c \<Longrightarrow> ours c0 (pre @ evs) d) \<Longrightarrow>
      just E c0 InLaunch (pre @ evs) s1 (g r d s1) Q"
  shows "just E c0 InLaunch pre s (case releaseLease E c ph s of ((r, d), s1) \<Rightarrow> g r d s1) Q"
  unfolding releaseLease_def
  by (rule just_update_any [OF assms(1,2) may_lease(2)]) (use assms(3) in auto)

lemma launchLocked_just:
  assumes "env_ok E" and "ours c0 pre c" and "st_providerID (cl_status c0) = []"
  shows "just E c0 InLaunch pre s (launchLocked E c s) (passed c0)"
  unfolding launchLocked_def
  apply (rule just_bind [OF launchBody_just [OF assms]], rule just_pair, rule just_call, simp)
  subgoal for x s1 evs res c1 r s2
    by (rule release_just [OF assms(1)]) (auto simp: passed_def ours_def intro!: just_ret)
  done

lemma launchLeaseCheck_just:
  assumes "env_ok E" and "ours c0 pre c"
  shows "just E c0 InLaunch pre s (launchLeaseCheck E c s)
    (\<lambda>(r, d) pre'. cl_meta d = cl_meta c0 \<and> (case r of None \<Rightarrow> ours c0 pre' d | Some res \<Rightarrow> res \<noteq> nextPhase))"
  unfolding launchLeaseCheck_def releaseLease_def Let_def
  by (intro just_intros just_update [OF assms(1) ours_meta [OF assms(2)] may_lease(2)])
    (use assms(2) in \<open>auto simp: ours_def\<close>)

lemma acquireLease_just:
  assumes "env_ok E" and "cl_meta c = cl_meta c0"
  shows "just E c0 InLaunch pre s (acquireLease E c ph timeout s)
    (\<lambda>(r, d) pre'. cl_meta d = cl_meta c0 \<and> (r = None \<longrightarrow> ours c0 pre' d))"
  unfolding acquireLease_def
  by (intro just_intros just_update [OF assms may_lease(1)]) (auto simp: ours_def assms(2) intro!: just_intros)

lemma reconcileLaunch_just:
  assumes "env_ok E" and "ours c0 pre c0"
  shows "just E c0 InLaunch pre s (reconcileLaunch E c0 s) (passed c0)"
  unfolding reconcileLaunch_def
  apply (rule just_if)
  subgoal using assms(2) by (simp add: just_ret)
  apply (rule just_bind [OF launchLeaseCheck_just [OF assms]], rule just_pair, rule just_option)
  subgoal for x s1 evs r c1
    by (rule just_bind [OF acquireLease_just [OF assms(1)]], simp, rule just_pair, rule just_option)
      (auto intro!: launchLocked_just [OF assms(1)] just_ret simp del: append_assoc)
  subgoal by (auto simp: passed_def intro!: just_ret)
  done

subsection \<open>Registration\<close>

lemma registerNode_just:
  assumes "env_ok E" and "ours c0 pre c" and "st_providerID (cl_status c) \<noteq> []" and "st_nodeName (cl_status c) = []"
    and "EListNodes (Inr ns) \<in> set pre" and "n \<in> set ns" and "nodeOf c0 n"
  shows "just E c0 InRegister pre s (registerNode E c n s) (passed c0)"
proof -
  have c: "cl_meta c = cl_meta c0" "knows pre (cl_status c)" using assms(2) by (simp_all add: ours_def)
  have may: "may E c0 InRegister (pre @ xs) (markRegistered E (nd_name n))" for xs
    by (rule may_register(1) [OF _ assms(3,4) _ assms(6,7)]) (use c assms(5) in simp_all)
  show ?thesis
    unfolding registerNode_def Let_def
    apply (rule just_quiet [OF quiet_claimStatus(2)], rule just_sum, rule just_ret, simp add: c)
    apply (rule just_quiet [OF quiet_claimStatus(3)], rule just_option)
    subgoal using may by (intro just_update [OF assms(1)]) (auto simp: c ours_def intro!: just_intros)
    subgoal by (simp add: c just_ret)
    done
qed

lemma registrationTimedOut_just:
  assumes "env_ok E" and "ours c0 pre c" and "st_providerID (cl_status c) \<noteq> []" and "st_nodeName (cl_status c) = []"
    and "EListNodes (Inr ns) \<in> set pre" and "list_all (\<lambda>n. \<not> nodeOf c0 n) ns"
  shows "just E c0 InRegister pre s (registrationTimedOut E c s) (passed c0)"
proof -
  have c: "cl_meta c = cl_meta c0" "knows pre (cl_status c)" using assms(2) by (simp_all add: ours_def)
  have may: "may E c0 InRegister (pre @ xs) (markRegistrationTimeout E
      (if st_launchAttempts (cl_status (setProviderID [] c)) = 0 then 1 else st_launchAttempts (cl_status (setProviderID [] c))))" for xs
    using may_register(2) [of "pre @ xs" "cl_status c" ns c0 E] assms(3-6) c by (simp cong: if_cong split del: if_split)
  show ?thesis
    unfolding registrationTimedOut_def Let_def
    by (rule just_quiet [OF quiet_claimStatus(4)], rule just_update [OF assms(1) _ may])
      (auto simp: c ours_def intro!: just_intros)
qed

lemma reconcileRegistration_just:
  assumes "env_ok E" and "ours c0 pre c"
  shows "just E c0 InRegister pre s (reconcileRegistration E c s) (passed c0)"
proof -
  have c: "cl_meta c = cl_meta c0" using assms(2) by (simp add: ours_def)
  then have P: "(nd_name n = cl_name c \<or> nodeMatchesClaim n c) \<and> timePtrIsZero (om_deletion (nd_meta n)) \<longleftrightarrow> nodeOf c0 n" for n
    by (simp add: nodeOf_def nodeMatchesClaim_def)
  show ?thesis
    unfolding reconcileRegistration_def P
    by (intro just_intros registerNode_just [OF assms(1)] registrationTimedOut_just [OF assms(1)])
      (use assms(2) c in \<open>auto dest: find_Some_set simp: find_None_iff list_all_iff\<close>)
qed

subsection \<open>Initialization\<close>

lemma recycleRest_just:
  assumes "env_ok E" and "ours c0 pre c" and "st_nodeName (cl_status c) \<noteq> []"
    and "EGetNode (st_nodeName (cl_status c)) r \<in> set pre"
    and "case r of Inl e \<Rightarrow> IsNotFound e | Inr n \<Rightarrow> \<not> nodeReady n \<and> (\<exists>u. readinessDegradeTimeout < notReadyDuration u n)"
  shows "just E c0 InInit pre s (recycleRest E c msg s) (passed c0)"
proof -
  have c: "cl_meta c = cl_meta c0" "knows pre (cl_status c)" using assms(2) by (simp_all add: ours_def)
  have may: "may E c0 InInit (pre @ xs) (markRecycled E (add64 (st_launchAttempts (cl_status c)) 1) msg)" for xs
    by (rule may_init(2) [OF _ assms(3) _ assms(5)]) (use c assms(4) in simp_all)
  show ?thesis
    unfolding recycleRest_def Let_def
    by (rule just_quiet [OF quiet_claimStatus(5)], rule just_update [OF assms(1) c(1) may]) (auto simp: c ours_def intro!: just_intros)
qed

lemma reconcileInitialization_just:
  assumes "env_ok E" and "ours c0 pre c"
  shows "just E c0 InInit pre s (reconcileInitialization E c s) (passed c0)"
proof -
  have c: "cl_meta c = cl_meta c0" "knows pre (cl_status c)" using assms(2) by (simp_all add: ours_def)
  show ?thesis
    unfolding reconcileInitialization_def recycleUnhealthyNode_def option.case
    by (intro just_intros recycleRest_just [OF assms(1)] just_update [OF assms(1) c(1)] may_init(1))
      (use assms(2) c in \<open>auto simp: ours_def intro: exI\<close>)
qed

section \<open>A reconcile\<close>

text \<open>The status writes of a reconcile, after its first read, stage by stage.\<close>

definition stagedWrites :: "'w env \<Rightarrow> nskey \<Rightarrow> claim \<Rightarrow> ext_call list \<Rightarrow> bool" where
  "stagedWrites E key c0 evs \<longleftrightarrow> (\<exists>evL evR evI. evs = EGetClaim key (Inr c0) # evL @ evR @ evI \<and>
     writesOk (justified E c0 InLaunch) [EGetClaim key (Inr c0)] evL \<and>
     writesOk (justified E c0 InRegister) (EGetClaim key (Inr c0) # evL) evR \<and>
     writesOk (justified E c0 InInit) (EGetClaim key (Inr c0) # evL @ evR) evI)"

lemma after_just:
  assumes "just E c0 G pre s x (passed c0)"
    and "\<And>c s1 evs. ours c0 (pre @ evs) c \<Longrightarrow> tspec s1 (k c s1) (\<lambda>_. R (pre @ evs))" and "\<And>pre. R pre []"
  shows "tspec s (afterPhase x k) (\<lambda>_ evs. \<exists>e1 e2. evs = e1 @ e2 \<and> writesOk (justified E c0 G) pre e1 \<and> R (pre @ e1) e2)"
proof -
  obtain res c s1 where x: "x = ((res, c), s1)" by (metis prod.collapse)
  then obtain e1 where e1: "trace s1 = trace s @ e1" "writesOk (justified E c0 G) pre e1" "passed c0 (res, c) (pre @ e1)"
    using assms(1) by (auto simp: just_def tspec_def)
  have stop: "tspec s (r, s1) (\<lambda>_ evs. \<exists>e1 e2. evs = e1 @ e2 \<and> writesOk (justified E c0 G) pre e1 \<and> R (pre @ e1) e2)"
    for r :: "(duration \<times> goerr option) outcome"
    using e1 assms(3) unfolding tspec_def by (intro exI [of _ e1] conjI exI [of _ "[]"]; simp)
  show ?thesis
  proof (cases "res = nextPhase")
    case True
    then have "ours c0 (pre @ e1) c" using e1(3) by simp
    from assms(2) [OF this] obtain e2 where "trace (snd (k c s1)) = trace s1 @ e2" "R (pre @ e1) e2"
      by (auto simp: tspec_def)
    then show ?thesis using e1(1,2) True by (auto simp: afterPhase_def x tspec_def)
  next
    case False
    then show ?thesis using stop by (auto simp: afterPhase_def x split: outcome.split option.split)
  qed
qed

lemma claimPhases_staged:
  assumes "env_ok E" and "ours c0 pre c0"
  shows "tspec s (claimPhases E c0 s) (\<lambda>_ evs. \<exists>evL evR evI. evs = evL @ evR @ evI \<and>
    writesOk (justified E c0 InLaunch) pre evL \<and> writesOk (justified E c0 InRegister) (pre @ evL) evR \<and>
    writesOk (justified E c0 InInit) (pre @ evL @ evR) evI)"
proof -
  let ?I = "\<lambda>pre evs. \<exists>evI x. evs = evI @ x \<and> writesOk (justified E c0 InInit) pre evI \<and> x = []"
  let ?R = "\<lambda>pre evs. \<exists>evR e. evs = evR @ e \<and> writesOk (justified E c0 InRegister) pre evR \<and> ?I (pre @ evR) e"
  have I: "tspec s2 (afterPhase (reconcileInitialization E c2 s2) (\<lambda>c3 s3. (Ret (readyHealthCheckInterval, None), s3))) (\<lambda>_. ?I pre2)"
    if "ours c0 pre2 c2" for pre2 c2 s2
    by (rule after_just [OF reconcileInitialization_just [OF assms(1) that]]) (auto intro: tspec_ret)
  have R: "tspec s1 (afterPhase (reconcileRegistration E c1 s1) (\<lambda>c2 s2.
      afterPhase (reconcileInitialization E c2 s2) (\<lambda>c3 s3. (Ret (readyHealthCheckInterval, None), s3)))) (\<lambda>_. ?R pre1)"
    if "ours c0 pre1 c1" for pre1 c1 s1
    by (rule after_just [OF reconcileRegistration_just [OF assms(1) that], where R = ?I]) (rule I, assumption, simp)
  have "tspec s (claimPhases E c0 s) (\<lambda>_ evs. \<exists>evL e. evs = evL @ e \<and> writesOk (justified E c0 InLaunch) pre evL \<and> ?R (pre @ evL) e)"
    unfolding claimPhases_def
    by (rule after_just [OF reconcileLaunch_just [OF assms], where R = ?R]) (rule R, assumption, auto)
  then show ?thesis by (rule tspec_mono) auto
qed

text \<open>What the first read must say for a status to be written at all.\<close>

definition inLife :: "'w env \<Rightarrow> claim \<Rightarrow> bool" where
  "inLife E c \<longleftrightarrow> timePtrIsZero (om_deletion (cl_meta c)) \<and>
     libContainsFinalizer E (cl_meta c) finalizerNodeSmithClaim \<and> \<not> claimFailed E c"

lemma reconcileClaim_staged:
  assumes "env_ok E"
  shows "tspec s (reconcileClaim E key s) (\<lambda>_ evs.
    list_all (\<lambda>e. \<not> isClaimStatusWrite e) evs \<or> (\<exists>c0. inLife E c0 \<and> stagedWrites E key c0 evs))"
proof -
  have quiet: "tspec s1 x (\<lambda>_ evs. list_all (\<lambda>e. \<not> isClaimStatusWrite e) evs \<or> A evs)"
    if "emits (\<lambda>e. \<not> isClaimStatusWrite e) s1 x" for s1 :: "'a st" and x :: "(duration \<times> goerr option) outcome \<times> 'a st" and A
    by (rule emits_tspec [OF that]) simp
  have fin: "emits (\<lambda>e. \<not> isClaimStatusWrite e) s1 (case finalize E c s1 of (r, s2) \<Rightarrow> (Ret r, s2))" for c s1
    by (intro emits_bind finalize_quiet_status emits_ret)
  have add: "emits (\<lambda>e. \<not> isClaimStatusWrite e) s1 (case updateClaim E d s1 of
            (Inl e, s2) \<Rightarrow> (Ret (0, Some e), s2)
          | (Inr _, s2) \<Rightarrow> (Ret (immediateRequeueDelay, None), s2))" for d s1
    by (intro emits_intros) simp
  have run: "tspec s1 (claimPhases E c0 s1) (\<lambda>_ evs. list_all (\<lambda>e. \<not> isClaimStatusWrite e) evs \<or>
      (\<exists>c0'. inLife E c0' \<and> stagedWrites E key c0' (EGetClaim key r # evs)))"
    if "r = Inr c0" "inLife E c0" for c0 s1 and r :: "goerr + claim"
    by (rule tspec_mono [OF claimPhases_staged [OF assms, of c0 "[EGetClaim key (Inr c0)]"]])
      (use that in \<open>auto simp: ours_def stagedWrites_def\<close>)
  show ?thesis
    unfolding reconcileClaim_def
    apply (rule tspec_bind_call, unfold list.pred_inject(2) isClaimStatusWrite.simps not_False_eq_True simp_thms)
    by (rule tspec_sum; (intro tspec_if)?)
      ((rule tspec_ret quiet [OF fin] quiet [OF add], simp) | (rule run, assumption, simp add: inLife_def))+
qed

end
