(* ===== verification/Claim_Safety.thy ===== *)
theory Claim_Safety
  imports Claim_Controller
begin

text \<open>
  What a reconcile of a claim does to the outside world, read off its call log: when it may
  provision a machine, how deletion is ordered, that a heartbeat it starts is stopped, and when it
  can panic. Every theorem holds for every answer the API server and the provider may give.
\<close>

section \<open>Kinds of calls\<close>

fun isProvision :: "ext_call \<Rightarrow> bool" where
  "isProvision (EProvision _ _) = True"
| "isProvision _ = False"

fun isHeartbeat :: "ext_call \<Rightarrow> bool" where
  "isHeartbeat (EHeartbeatStart _ _ _) = True"
| "isHeartbeat EHeartbeatStop = True"
| "isHeartbeat _ = False"

abbreviation noProvision :: "ext_call list \<Rightarrow> bool" where
  "noProvision \<equiv> list_all (\<lambda>e. \<not> isProvision e)"

text \<open>The calls of a run that is neither launching nor beating.\<close>

abbreviation quiet :: "ext_call \<Rightarrow> bool" where
  "quiet e \<equiv> \<not> isProvision e \<and> \<not> isHeartbeat e"

lemma claimWrote_quiet: "claimWrote c m e \<Longrightarrow> quiet e"
  by (cases e) auto

lemma updateClaimStatus_quiet [emits_intros]: "env_ok E \<Longrightarrow> emits quiet s (updateClaimStatus E c m s)"
  by (erule claim_status.write_emits) (rule claimWrote_quiet)

lemma releaseLease_quiet [emits_intros]: "env_ok E \<Longrightarrow> emits quiet s (releaseLease E c p s)"
  by (simp add: releaseLease_def updateClaimStatus_quiet)

lemma getProviderForClaim_quiet [emits_intros]: "emits quiet s (getProviderForClaim E c s)"
  unfolding getProviderForClaim_def Let_def buildProvider_def by (intro emits_intros) simp_all

lemma launchGiveUp_quiet [emits_intros]: "env_ok E \<Longrightarrow> emits quiet s (launchGiveUp E c s)"
  unfolding launchGiveUp_def by (intro emits_intros)

lemma launchLeaseCheck_quiet [emits_intros]: "env_ok E \<Longrightarrow> emits quiet s (launchLeaseCheck E c s)"
  unfolding launchLeaseCheck_def Let_def by (intro emits_intros)

lemma getPoolForClaim_quiet [emits_intros]: "emits quiet s (getPoolForClaim E c s)"
  unfolding getPoolForClaim_def Let_def by (intro emits_intros) simp_all

lemma ensureNodeLabels_quiet [emits_intros]: "emits quiet s (ensureNodeLabels E n pl c s)"
  unfolding ensureNodeLabels_def by (intro emits_intros) simp_all

lemma registerNode_quiet [emits_intros]: "env_ok E \<Longrightarrow> emits quiet s (registerNode E c n s)"
  unfolding registerNode_def Let_def by (intro emits_intros) simp_all

lemma timeoutDeprovision_quiet [emits_intros]: "emits quiet s (timeoutDeprovision E c s)"
  unfolding timeoutDeprovision_def by (intro emits_intros) simp_all

lemma registrationTimedOut_quiet [emits_intros]: "env_ok E \<Longrightarrow> emits quiet s (registrationTimedOut E c s)"
  unfolding registrationTimedOut_def Let_def by (intro emits_intros) simp_all

lemma reconcileRegistration_quiet [emits_intros]: "env_ok E \<Longrightarrow> emits quiet s (reconcileRegistration E c s)"
  unfolding reconcileRegistration_def by (intro emits_intros) simp_all

lemma recycleDeprovision_quiet [emits_intros]: "emits quiet s (recycleDeprovision E c s)"
  unfolding recycleDeprovision_def by (intro emits_intros) simp_all

lemma recycleRest_quiet [emits_intros]: "env_ok E \<Longrightarrow> emits quiet s (recycleRest E c msg s)"
  unfolding recycleRest_def Let_def by (intro emits_intros) simp_all

lemma recycleUnhealthyNode_quiet [emits_intros]: "env_ok E \<Longrightarrow> emits quiet s (recycleUnhealthyNode E c n msg s)"
  unfolding recycleUnhealthyNode_def by (intro emits_intros) simp_all

lemma reconcileInitialization_quiet [emits_intros]: "env_ok E \<Longrightarrow> emits quiet s (reconcileInitialization E c s)"
  unfolding reconcileInitialization_def by (intro emits_intros) simp_all

lemma finalizeDeprovision_quiet [emits_intros]: "emits quiet s (finalizeDeprovision E c s)"
  unfolding finalizeDeprovision_def by (intro emits_intros) simp_all

lemma finalizeRest_quiet [emits_intros]: "emits quiet s (finalizeRest E c s)"
  unfolding finalizeRest_def by (intro emits_intros) simp_all

lemma finalize_quiet [emits_intros]: "emits quiet s (finalize E c s)"
  unfolding finalize_def by (intro emits_intros) simp_all

section \<open>The log of a launch\<close>

definition machineSpecOf :: "claim \<Rightarrow> claim_requirements \<Rightarrow> machine_spec" where
  "machineSpecOf c rq =
     \<lparr>ms_machineName = cl_name c, ms_cpuCores = rq_cpuCores rq, ms_memoryMiB = rq_memoryMiB rq\<rparr>"

lemma launchProvision_log:
  assumes "env_ok E"
  shows "tspec s (launchProvision E c rq prov s) (\<lambda>_ evs.
    \<exists>a rest. evs = EProvision (machineSpecOf c rq) a # rest \<and> list_all quiet rest)"
  unfolding launchProvision_def Let_def machineSpecOf_def
  apply (rule tspec_bind_call)
  apply (rule emits_tspec [where P = quiet])
  using assms by (auto intro!: emits_intros)

text \<open>
  \<open>oneProvision G evs\<close>: the log has exactly one \<open>ProvisionMachine\<close>, and \<open>G\<close> holds of
  the calls before it and of its machine spec.
\<close>

definition oneProvision :: "(ext_call list \<Rightarrow> machine_spec \<Rightarrow> bool) \<Rightarrow> ext_call list \<Rightarrow> bool" where
  "oneProvision G evs \<longleftrightarrow> (\<exists>pre ms a post. evs = pre @ EProvision ms a # post \<and> noProvision pre \<and>
     noProvision post \<and> G pre ms)"

lemma oneProvisionI:
  "noProvision pre \<Longrightarrow> noProvision post \<Longrightarrow> G pre ms \<Longrightarrow> oneProvision G (pre @ EProvision ms a # post)"
  unfolding oneProvision_def by blast

lemma oneProvision_before:
  assumes "oneProvision G evs" "noProvision xs" "\<And>pre ms. G pre ms \<Longrightarrow> G' (xs @ pre) ms"
  shows "oneProvision G' (xs @ evs)"
proof -
  obtain pre ms a post where e: "evs = pre @ EProvision ms a # post" "noProvision pre" "noProvision post" "G pre ms"
    using assms(1) unfolding oneProvision_def by blast
  then have "oneProvision G' ((xs @ pre) @ EProvision ms a # post)"
    using assms(2,3) by (intro oneProvisionI) simp_all
  with e(1) show ?thesis by simp
qed

lemma oneProvision_after:
  assumes "oneProvision G evs" "noProvision xs"
  shows "oneProvision G (evs @ xs)"
proof -
  obtain pre ms a post where e: "evs = pre @ EProvision ms a # post" "noProvision pre" "noProvision post" "G pre ms"
    using assms(1) unfolding oneProvision_def by blast
  then have "oneProvision G (pre @ EProvision ms a # (post @ xs))"
    using assms(2) by (intro oneProvisionI) simp_all
  with e(1) show ?thesis by simp
qed

lemma noProvision_split: "\<not> noProvision (p @ EProvision m b # q)"
  by simp

lemma oneProvision_unique:
  assumes "oneProvision G (p @ EProvision m b # q)"
  shows "G p m \<and> noProvision p \<and> noProvision q"
proof -
  obtain pre ms a post where e: "p @ EProvision m b # q = pre @ EProvision ms a # post"
    "noProvision pre" "noProvision post" "G pre ms"
    using assms unfolding oneProvision_def by blast
  then show ?thesis by (auto simp: append_eq_append_conv2 append_eq_Cons_conv Cons_eq_append_conv)
qed

text \<open>What precedes the machine of a claim in the log of its launch, once the lease is held.\<close>

definition launchChecks :: "claim \<Rightarrow> ext_call list \<Rightarrow> machine_spec \<Rightarrow> bool" where
  "launchChecks c pre ms \<longleftrightarrow> (\<exists>e. EGetNode (cl_name c) (Inl e) \<in> set pre \<and> IsNotFound e) \<and>
     (\<exists>rq. cs_requirements (cl_spec c) = Some rq \<and> ms = machineSpecOf c rq)"

lemma quiet_noProvision: "list_all quiet evs \<Longrightarrow> noProvision evs"
  by (simp add: list_all_iff)

lemma launchBody_log:
  assumes "env_ok E"
  shows "tspec s (launchBody E c s) (\<lambda>_ evs. noProvision evs \<or>
    st_launchAttempts (cl_status c) < maxLaunchAttempts \<and> oneProvision (launchChecks c) evs)"
proof (cases "maxLaunchAttempts \<le> st_launchAttempts (cl_status c)")
  case True
  then show ?thesis using assms
    by (auto simp: launchBody_def quiet_noProvision intro!: emits_tspec [OF launchGiveUp_quiet])
next
  case False
  have prov: "tspec s2 (launchProvision E c rq prov s2) (\<lambda>_ evs'.
      oneProvision (launchChecks c) (EGetNode (cl_name c) (Inl e) # evs @ evs'))"
    if "IsNotFound e" "list_all quiet evs" "cs_requirements (cl_spec c) = Some rq" for e evs rq prov s2
    using launchProvision_log [OF assms]
  proof (rule tspec_mono)
    fix r evs' assume "\<exists>a rest. evs' = EProvision (machineSpecOf c rq) a # rest \<and> list_all quiet rest"
    then obtain a rest where evs': "evs' = EProvision (machineSpecOf c rq) a # rest" "list_all quiet rest" by blast
    have "oneProvision (launchChecks c)
        ((EGetNode (cl_name c) (Inl e) # evs) @ EProvision (machineSpecOf c rq) a # rest)"
      using that evs'(2) by (intro oneProvisionI) (auto simp: launchChecks_def quiet_noProvision)
    with evs' show "oneProvision (launchChecks c) (EGetNode (cl_name c) (Inl e) # evs @ evs')" by simp
  qed
  show ?thesis
    unfolding launchBody_def
    apply (simp only: False if_False)
    apply (rule tspec_bind_call)
    apply (split sum.split, intro conjI allI impI)
     apply (split if_split, intro conjI impI)
      apply (rule tspec_ret, simp)
     apply (split option.split, intro conjI allI impI)
      apply (rule tspec_ret, simp)
     apply (rule tspec_bind [OF getProviderForClaim_quiet [unfolded emits_def]])
     apply (split sum.split, intro conjI allI impI)
      apply (rule emits_tspec [where P = quiet])
       using assms apply (auto intro!: emits_intros) [1]
      apply (simp add: quiet_noProvision)
     apply (rule tspec_mono, rule prov, simp, simp, simp) using False apply simp
    apply (rule tspec_ret, simp)
    done
qed

lemma launchBody_beats:
  assumes "env_ok E"
  shows "emits (\<lambda>e. \<not> isHeartbeat e) s (launchBody E c s)"
proof -
  have "emits (\<lambda>e. \<not> isHeartbeat e) s (launchProvision E c rq prov s)" for rq prov s
    unfolding emits_def by (rule tspec_mono [OF launchProvision_log [OF assms]]) (auto simp: list_all_iff)
  then show ?thesis unfolding launchBody_def
    by (intro emits_intros emits_mono [OF launchGiveUp_quiet] emits_mono [OF getProviderForClaim_quiet]
        emits_mono [OF updateClaimStatus_quiet]) (simp_all add: assms)
qed

definition launchLeased :: "claim_status \<Rightarrow> bool" where
  "launchLeased st = (case st_lease st of None \<Rightarrow> False | Some l \<Rightarrow> ls_phase l = leasePhaseLaunching)"

lemma claimWrote_all_quiet: "list_all (claimWrote c m) evs \<Longrightarrow> list_all quiet evs"
  by (auto simp: list_all_iff dest: claimWrote_quiet)

lemma acquireLease_log:
  assumes "env_ok E"
  shows "tspec s (acquireLease E c leasePhaseLaunching d s) (\<lambda>(r, c') evs. case r of
      Some e \<Rightarrow> c' = c \<and> list_all quiet evs
    | None \<Rightarrow> (\<exists>st xs. c' = c\<lparr>cl_status := st\<rparr> \<and>
        evs = xs @ [EHeartbeatStart (metaKey (cl_meta c)) leasePhaseLaunching (d div 3)] \<and>
        list_all quiet xs \<and> list_ex (answered launchLeased st) xs))"
proof -
  have leased: "launchLeased (cl_status (setLease h leasePhaseLaunching b n t c))" for h b n t c
    by (simp add: launchLeased_def setLease_def)
  show ?thesis unfolding acquireLease_def
    apply (rule tspec_bind [where R = "\<lambda>_ evs. evs = []"])
     apply (simp add: tspec_def)
    apply (rule tspec_bind, rule updateClaimStatus_answered [where P = launchLeased, OF assms leased])
    apply (auto split: prod.splits option.splits simp: tspec_def call_def dest: claimWrote_all_quiet)
    done
qed

text \<open>The whole launch: it provisions at most once, under the lease, within the attempts.\<close>

definition launchGuard :: "claim \<Rightarrow> ext_call list \<Rightarrow> machine_spec \<Rightarrow> bool" where
  "launchGuard c pre ms \<longleftrightarrow> launchChecks c pre ms \<and> st_providerID (cl_status c) = [] \<and>
     (\<exists>st. list_ex (answered launchLeased st) pre \<and> st_launchAttempts st < maxLaunchAttempts)"

lemma launchLeaseCheck_claim:
  assumes "launchLeaseCheck E c s = ((r, c'), s')"
  shows "\<exists>st. c' = c\<lparr>cl_status := st\<rparr>"
proof -
  have "\<exists>st. c' = c\<lparr>cl_status := st\<rparr>" if "releaseLease E c p s = ((r, c'), s')" for r p
    using that unfolding releaseLease_def by (cases rule: claim_status.write_cases) (auto intro: exI [where x = "cl_status c"])
  with assms show ?thesis
    by (auto simp: launchLeaseCheck_def Let_def split: option.splits if_splits prod.splits
        intro: exI [where x = "cl_status c"])
qed

lemma launchChecks_status [simp]: "launchChecks (c\<lparr>cl_status := st\<rparr>) = launchChecks c"
  by (intro ext) (simp add: launchChecks_def machineSpecOf_def)

lemma launchLocked_log:
  assumes "env_ok E"
  shows "tspec s (launchLocked E c s) (\<lambda>_ evs. noProvision evs \<or>
    st_launchAttempts (cl_status c) < maxLaunchAttempts \<and> oneProvision (launchChecks c) evs)"
proof -
  have tail: "tspec s1 (case logOnly EHeartbeatStop s1 of (_, s2) \<Rightarrow>
      (case releaseLease E c1 leasePhaseLaunching s2 of ((_, c2), s3) \<Rightarrow> ((res, c2), s3)))
      (\<lambda>_. noProvision)" for s1 c1 and res :: phase_result
    unfolding emits_def [symmetric]
    by (intro emits_intros emits_mono [OF releaseLease_quiet]) (simp_all add: assms)
  show ?thesis unfolding launchLocked_def
    by (rule tspec_bind [OF launchBody_log [OF assms]], split prod.split, intro allI impI)
      (rule tspec_mono [OF tail], auto intro: oneProvision_after)
qed

lemma reconcileLaunch_log:
  assumes "env_ok E"
  shows "tspec s (reconcileLaunch E c s) (\<lambda>_ evs. noProvision evs \<or> oneProvision (launchGuard c) evs)"
proof (cases "st_providerID (cl_status c) = []")
  case False
  then show ?thesis by (simp add: reconcileLaunch_def tspec_ret)
next
  case True
  have body: "tspec s2 (launchLocked E (c\<lparr>cl_status := st0, cl_status := st\<rparr>) s2) (\<lambda>_ evs.
      noProvision (ws @ (xs @ [EHeartbeatStart k l p]) @ evs) \<or>
      oneProvision (launchGuard c) (ws @ (xs @ [EHeartbeatStart k l p]) @ evs))"
    if "list_all quiet ws" "list_all quiet xs" "list_ex (answered launchLeased st) xs" for ws xs k l p st0 st s2
  proof (rule tspec_mono [OF launchLocked_log [OF assms]], elim disjE conjE)
    fix evs assume "noProvision evs"
    then show "noProvision (ws @ (xs @ [EHeartbeatStart k l p]) @ evs) \<or>
        oneProvision (launchGuard c) (ws @ (xs @ [EHeartbeatStart k l p]) @ evs)"
      using that by (simp add: quiet_noProvision)
  next
    fix evs
    assume "st_launchAttempts (cl_status (c\<lparr>cl_status := st0, cl_status := st\<rparr>)) < maxLaunchAttempts"
      and "oneProvision (launchChecks (c\<lparr>cl_status := st0, cl_status := st\<rparr>)) evs"
    then have "oneProvision (launchGuard c) ((ws @ xs @ [EHeartbeatStart k l p]) @ evs)"
      using that True by (intro oneProvision_before [where G = "launchChecks c"])
        (auto simp: launchGuard_def launchChecks_def quiet_noProvision)
    then show "noProvision (ws @ (xs @ [EHeartbeatStart k l p]) @ evs) \<or>
        oneProvision (launchGuard c) (ws @ (xs @ [EHeartbeatStart k l p]) @ evs)" by simp
  qed
  show ?thesis
    unfolding reconcileLaunch_def
    apply (simp only: True not_True_eq_False simp_thms if_False)
    apply (rule tspec_bind [OF launchLeaseCheck_quiet [OF assms, unfolded emits_def]])
    apply (split prod.split, intro allI impI, hypsubst, drule launchLeaseCheck_claim, elim exE)
    apply (split option.split, intro conjI allI impI, hypsubst)
     apply (rule tspec_bind [OF acquireLease_log [OF assms]])
     apply (split prod.split, intro allI impI, hypsubst)
     apply (simp only: prod.case)
     apply (split option.split, intro conjI allI impI, hypsubst)
      apply (simp only: option.case, elim exE conjE, hypsubst)
      apply (rule body; assumption)
     apply (rule tspec_ret, simp add: quiet_noProvision)
    apply (rule tspec_ret, simp add: quiet_noProvision)
    done
qed

section \<open>Heartbeats\<close>

lemma quiet_heartbeats: "list_all quiet evs \<Longrightarrow> filter isHeartbeat evs = []"
  by (induction evs) auto

lemma silent_heartbeats: "list_all (\<lambda>e. \<not> isHeartbeat e) evs \<Longrightarrow> filter isHeartbeat evs = []"
  by (induction evs) auto

lemma launchLocked_heartbeats:
  assumes "env_ok E"
  shows "tspec s (launchLocked E c s) (\<lambda>_ evs. filter isHeartbeat evs = [EHeartbeatStop])"
  unfolding launchLocked_def
  apply (rule tspec_bind [OF launchBody_beats [OF assms, unfolded emits_def]])
  apply (split prod.split, intro allI impI)
  apply (rule tspec_bind_call)
  apply (rule tspec_bind [OF releaseLease_quiet [OF assms, unfolded emits_def]])
  apply (auto intro!: tspec_ret simp: quiet_heartbeats silent_heartbeats split: prod.split)
  done

definition launchBeats :: "claim \<Rightarrow> ext_call list" where
  "launchBeats c =
     [EHeartbeatStart (metaKey (cl_meta c)) leasePhaseLaunching (launchLeaseTimeout div 3), EHeartbeatStop]"

lemma reconcileLaunch_heartbeats:
  assumes "env_ok E"
  shows "tspec s (reconcileLaunch E c s) (\<lambda>_ evs. filter isHeartbeat evs \<in> {[], launchBeats c})"
proof -
  show ?thesis unfolding reconcileLaunch_def
    apply (split if_split, intro conjI impI)
     apply (rule tspec_ret, simp)
    apply (rule tspec_bind [OF launchLeaseCheck_quiet [OF assms, unfolded emits_def]])
    apply (split prod.split, intro allI impI, hypsubst, drule launchLeaseCheck_claim, elim exE)
    apply (split option.split, intro conjI allI impI, hypsubst)
     apply (rule tspec_bind [OF acquireLease_log [OF assms]])
     apply (split prod.split, intro allI impI, hypsubst)
     apply (simp only: prod.case)
     apply (split option.split, intro conjI allI impI, hypsubst)
      apply (simp only: option.case, elim exE conjE, hypsubst)
      apply (rule tspec_mono [OF launchLocked_heartbeats [OF assms]])
      apply (simp add: quiet_heartbeats launchBeats_def)
     apply (rule tspec_ret, simp add: quiet_heartbeats)
    apply (rule tspec_ret, simp add: quiet_heartbeats)
    done
qed

section \<open>Sequencing of the phases\<close>

lemma afterPhase_tspec:
  assumes "tspec s x (\<lambda>_. R)" and "\<And>c s1. emits P s1 (k c s1)"
    and "\<And>evs evs'. R evs \<Longrightarrow> list_all P evs' \<Longrightarrow> Q (evs @ evs')"
  shows "tspec s (afterPhase x k) (\<lambda>_. Q)"
proof -
  have now: "R evs \<Longrightarrow> Q evs" for evs using assms(3) [of evs "[]"] by simp
  show ?thesis unfolding afterPhase_def
    apply (rule tspec_bind [OF assms(1)])
    apply (split prod.split, intro allI impI)
    apply (split outcome.split, intro conjI allI impI)
     apply (split prod.split, intro allI impI)
     apply (split option.split, intro conjI allI impI)
      apply (split option.split, intro conjI allI impI)
       apply (rule emits_tspec [OF assms(2)], simp add: assms(3))
      apply (rule tspec_ret, simp add: now)
     apply (rule tspec_ret, simp add: now)
    apply (rule tspec_ret, simp add: now)
    done
qed

lemma emits_afterPhase [emits_intros]:
  assumes "emits P s x" and "\<And>c s1. emits P s1 (k c s1)"
  shows "emits P s (afterPhase x k)"
  using afterPhase_tspec [OF assms(1) [unfolded emits_def] assms(2), of "list_all P"]
  by (simp add: emits_def)

lemma claimPhases_log:
  assumes "env_ok E"
  shows "tspec s (claimPhases E c s) (\<lambda>_ evs. noProvision evs \<or> oneProvision (launchGuard c) evs)"
  unfolding claimPhases_def
  by (rule afterPhase_tspec [OF reconcileLaunch_log [OF assms], where P = quiet])
    (use assms in \<open>auto intro!: emits_intros intro: oneProvision_after simp: quiet_noProvision\<close>)

definition claimGuard :: "'w env \<Rightarrow> nskey \<Rightarrow> ext_call list \<Rightarrow> machine_spec \<Rightarrow> bool" where
  "claimGuard E key pre ms \<longleftrightarrow> (\<exists>c rest. pre = EGetClaim key (Inr c) # rest \<and>
     timePtrIsZero (om_deletion (cl_meta c)) \<and> libContainsFinalizer E (cl_meta c) finalizerNodeSmithClaim \<and>
     \<not> claimFailed E c \<and> launchGuard c rest ms)"

lemma reconcileClaim_log:
  assumes "env_ok E"
  shows "tspec s (reconcileClaim E key s) (\<lambda>_ evs. noProvision evs \<or> oneProvision (claimGuard E key) evs)"
proof -
  define Q where "Q evs \<longleftrightarrow> noProvision evs \<or> oneProvision (claimGuard E key) evs" for evs
  have phases: "tspec s1 (claimPhases E c s1) (\<lambda>_ evs. Q (EGetClaim key (Inr c) # evs))"
    if "timePtrIsZero (om_deletion (cl_meta c))" "libContainsFinalizer E (cl_meta c) finalizerNodeSmithClaim"
      "\<not> claimFailed E c" for c s1
    by (rule tspec_mono [OF claimPhases_log [OF assms]])
      (use that in \<open>auto simp: Q_def claimGuard_def
        intro!: oneProvision_before [where xs = "[EGetClaim key (Inr c)]" and G = "launchGuard c", simplified]\<close>)
  have other: "tspec s1 x (\<lambda>_ evs. Q (EGetClaim key r # evs))" if "emits quiet s1 x"
    for r s1 and x :: "(duration \<times> goerr option) outcome \<times> 'a st"
    by (rule emits_tspec [OF that]) (simp add: Q_def quiet_noProvision)
  have "tspec s (reconcileClaim E key s) (\<lambda>_. Q)" unfolding reconcileClaim_def
    by (rule tspec_bind_call) (auto split: sum.split simp: phases intro!: other emits_intros)
  then show ?thesis by (rule tspec_mono) (simp add: Q_def)
qed

section \<open>Properties\<close>

text \<open>
  C1. A reconcile of a claim calls \<open>ProvisionMachine\<close> at most once, and only for a claim it
  fetched under the requested key that is not being deleted, carries the finalizer, is not marked
  failed and has no provider id; it asks for a machine with the claim's name and requirements;
  before the call a launching lease was stored (or found stored), the API server's answer to that
  shows fewer than three attempts, and a lookup of a node with the claim's name was answered
  NotFound.
\<close>

theorem provision_guarded:
  assumes "env_ok E"
  shows "\<exists>evs. trace (snd (reconcileClaim E key s)) = trace s @ evs \<and>
    (\<forall>pre ms a post. evs = pre @ EProvision ms a # post \<longrightarrow> noProvision pre \<and> noProvision post \<and>
      (\<exists>c rest rq. pre = EGetClaim key (Inr c) # rest \<and> timePtrIsZero (om_deletion (cl_meta c)) \<and>
        finalizerNodeSmithClaim \<in> set (om_finalizers (cl_meta c)) \<and> \<not> claimFailed E c \<and>
        st_providerID (cl_status c) = [] \<and>
        cs_requirements (cl_spec c) = Some rq \<and> ms = machineSpecOf c rq \<and>
        (\<exists>st. list_ex (answered launchLeased st) rest \<and> st_launchAttempts st < maxLaunchAttempts) \<and>
        (\<exists>e. EGetNode (cl_name c) (Inl e) \<in> set rest \<and> IsNotFound e)))"
proof -
  obtain evs where evs: "trace (snd (reconcileClaim E key s)) = trace s @ evs"
    "noProvision evs \<or> oneProvision (claimGuard E key) evs"
    using reconcileClaim_log [OF assms, of s key] by (auto simp: tspec_def)
  have "finalizers_ok E" using assms by blast
  then have fin: "libContainsFinalizer E m f \<longleftrightarrow> f \<in> set (om_finalizers m)" for m f
    by (simp add: finalizers_ok_def)
  show ?thesis
  proof (rule exI [of _ evs], intro conjI allI impI)
    show "trace (snd (reconcileClaim E key s)) = trace s @ evs" by (rule evs(1))
  next
    fix pre ms a post assume "evs = pre @ EProvision ms a # post"
    then have "claimGuard E key pre ms \<and> noProvision pre \<and> noProvision post"
      using evs(2) oneProvision_unique noProvision_split by metis
    then show "noProvision pre" "noProvision post"
      "\<exists>c rest rq. pre = EGetClaim key (Inr c) # rest \<and> timePtrIsZero (om_deletion (cl_meta c)) \<and>
        finalizerNodeSmithClaim \<in> set (om_finalizers (cl_meta c)) \<and> \<not> claimFailed E c \<and>
        st_providerID (cl_status c) = [] \<and>
        cs_requirements (cl_spec c) = Some rq \<and> ms = machineSpecOf c rq \<and>
        (\<exists>st. list_ex (answered launchLeased st) rest \<and> st_launchAttempts st < maxLaunchAttempts) \<and>
        (\<exists>e. EGetNode (cl_name c) (Inl e) \<in> set rest \<and> IsNotFound e)"
      unfolding claimGuard_def launchGuard_def launchChecks_def fin by blast+
  qed
qed

definition claimA :: claim where
  "claimA = (let c = sampleClaim ''c'' in c\<lparr>cl_meta := (cl_meta c)\<lparr>om_finalizers := [finalizerNodeSmithClaim]\<rparr>\<rparr>)"

definition claimWorld :: "claim \<Rightarrow> sample" where
  "claimWorld c = (emptyWorld 0)\<lparr>sw_claims := [c], sw_pools := [samplePool], sw_providers := [sampleProviderObj]\<rparr>"

abbreviation runA :: "(duration \<times> goerr option) outcome \<times> sample st" where
  "runA \<equiv> reconcileClaim sampleEnv (''ns'', ''c'') (startState (claimWorld claimA))"

lemma isProvision_split: "list_ex isProvision xs \<Longrightarrow> \<exists>pre ms a post. xs = pre @ EProvision ms a # post"
  by (auto simp: list_ex_iff in_set_conv_decomp elim!: isProvision.elims(2)) metis

lemma runA_provisions: "list_ex isProvision (trace (snd runA))"
  by code_simp

theorem provision_guarded_witness:
  "env_ok sampleEnv \<and> (\<exists>pre ms a post. trace (snd runA) = pre @ EProvision ms a # post \<and>
     (\<exists>c rest. pre = EGetClaim (''ns'', ''c'') (Inr c) # rest \<and> ms_machineName ms = cl_name c))"
proof -
  obtain pre ms a post where run: "trace (snd runA) = pre @ EProvision ms a # post"
    using isProvision_split [OF runA_provisions] by blast
  have start: "trace (startState (claimWorld claimA)) = []" by (simp add: startState_def)
  show ?thesis
    using provision_guarded [OF sampleEnv_ok, of "(''ns'', ''c'')" "startState (claimWorld claimA)"] run
      sampleEnv_ok
    unfolding start append_Nil machineSpecOf_def by fastforce
qed

text \<open>
  C28. A reconcile leaves no heartbeat goroutine behind: it starts at most one, on the fetched
  claim and with a third of the lease timeout as its interval, and whenever it starts one it
  stops it before it returns, on error paths and panics too.
\<close>

theorem heartbeats_balanced:
  assumes "env_ok E"
  shows "\<exists>evs. trace (snd (reconcileClaim E key s)) = trace s @ evs \<and>
    (filter isHeartbeat evs = [] \<or>
     (\<exists>c rest. evs = EGetClaim key (Inr c) # rest \<and> filter isHeartbeat evs =
       [EHeartbeatStart (metaKey (cl_meta c)) leasePhaseLaunching (200 * second), EHeartbeatStop]))"
proof -
  define Q where "Q evs \<longleftrightarrow> filter isHeartbeat evs = [] \<or>
    (\<exists>c rest. evs = EGetClaim key (Inr c) # rest \<and> filter isHeartbeat evs = launchBeats c)" for evs
  have "tspec s1 (claimPhases E c s1) (\<lambda>_ evs. filter isHeartbeat evs \<in> {[], launchBeats c})" for c s1
    unfolding claimPhases_def
    by (rule afterPhase_tspec [OF reconcileLaunch_heartbeats [OF assms], where P = quiet])
      (use assms in \<open>auto intro!: emits_intros simp: quiet_heartbeats\<close>)
  then have phases: "tspec s1 (claimPhases E c s1) (\<lambda>_ evs. Q (EGetClaim key (Inr c) # evs))" for c s1
    by (rule tspec_mono) (auto simp: Q_def)
  have other: "tspec s1 x (\<lambda>_ evs. Q (EGetClaim key r # evs))" if "emits quiet s1 x"
    for r s1 and x :: "(duration \<times> goerr option) outcome \<times> 'a st"
    by (rule emits_tspec [OF that]) (simp add: Q_def quiet_heartbeats)
  have "tspec s (reconcileClaim E key s) (\<lambda>_. Q)" unfolding reconcileClaim_def
    by (rule tspec_bind_call) (auto split: sum.split simp: phases intro!: other emits_intros)
  then show ?thesis
    by (auto simp: tspec_def Q_def launchBeats_def launchLeaseTimeout_def minute_def second_def)
qed

lemma runA_beats: "filter isHeartbeat (trace (snd runA)) \<noteq> []"
  by code_simp

theorem heartbeats_balanced_witness:
  "env_ok sampleEnv \<and> filter isHeartbeat (trace (snd runA)) \<noteq> [] \<and>
   (\<exists>k. filter isHeartbeat (trace (snd runA)) =
      [EHeartbeatStart k leasePhaseLaunching (200 * second), EHeartbeatStop])"
  using heartbeats_balanced [OF sampleEnv_ok, of "(''ns'', ''c'')" "startState (claimWorld claimA)"]
    runA_beats sampleEnv_ok
  by (auto simp: startState_def)

section \<open>Panics\<close>

fun phaseOK :: "phase_result \<Rightarrow> bool" where
  "phaseOK (Panic _) = False"
| "phaseOK (Ret (Some _, _)) = True"
| "phaseOK (Ret (None, e)) = (e = None)"

lemma launchBody_ok: "launchBody E c s = ((r, c'), s') \<Longrightarrow> phaseOK r \<or> cs_requirements (cl_spec c) = None"
  by (auto simp: launchBody_def launchGiveUp_def launchProvision_def Let_def
      split: if_splits sum.splits option.splits prod.splits)

lemma reconcileLaunch_ok: "reconcileLaunch E c s = ((r, c'), s') \<Longrightarrow> phaseOK r \<or> cs_requirements (cl_spec c) = None"
proof -
  assume run: "reconcileLaunch E c s = ((r, c'), s')"
  have check: "launchLeaseCheck E c s = ((Some q, c1), s1) \<Longrightarrow> phaseOK q" for q c1 s1
    by (auto simp: launchLeaseCheck_def Let_def split: option.splits if_splits prod.splits)
  have spec: "acquireLease E c1 p d s1 = ((q, c2), s2) \<Longrightarrow> cl_spec c2 = cl_spec c1" for c1 p d s1 q c2 s2
    by (auto simp: acquireLease_def updateClaimStatus_def split: option.splits prod.splits sum.splits)
  from run show ?thesis
    unfolding reconcileLaunch_def launchLocked_def
    apply (auto split: if_splits option.splits prod.splits dest: check)
    apply (drule launchBody_ok, drule spec, drule launchLeaseCheck_claim, auto)
    done
qed

lemma reconcileRegistration_ok: "reconcileRegistration E c s = ((r, c'), s') \<Longrightarrow> phaseOK r"
  by (auto simp: reconcileRegistration_def registerNode_def registrationTimedOut_def Let_def
      split: if_splits sum.splits option.splits prod.splits)

lemma recycleUnhealthyNode_ok: "recycleUnhealthyNode E c n msg s = ((r, c'), s') \<Longrightarrow> phaseOK r"
  by (auto simp: recycleUnhealthyNode_def recycleRest_def Let_def
      split: if_splits option.splits prod.splits)

lemma reconcileInitialization_ok: "reconcileInitialization E c s = ((r, c'), s') \<Longrightarrow> phaseOK r"
  by (auto simp: reconcileInitialization_def
      split: if_splits sum.splits option.splits prod.splits dest!: recycleUnhealthyNode_ok)

lemma afterPhase_Panic:
  assumes "fst (afterPhase x k) = Panic m"
  shows "\<not> phaseOK (fst (fst x)) \<or> (\<exists>c s. x = ((nextPhase, c), s) \<and> fst (k c s) = Panic m)"
  using assms by (auto simp: afterPhase_def split: prod.splits outcome.splits option.splits)

lemma reconcile_panics:
  assumes "fst (reconcileClaim E key s) = Panic m"
  shows "\<exists>c s1. getClaim E key s = (Inr c, s1) \<and> cs_requirements (cl_spec c) = None \<and>
    timePtrIsZero (om_deletion (cl_meta c)) \<and> libContainsFinalizer E (cl_meta c) finalizerNodeSmithClaim"
proof -
  have "cs_requirements (cl_spec c) = None" if "fst (claimPhases E c s1) = Panic m" for c s1
    using that unfolding claimPhases_def
    apply -
    apply (drule afterPhase_Panic, elim disjE exE conjE)
     apply (metis reconcileLaunch_ok prod.collapse)
    apply (drule afterPhase_Panic, elim disjE exE conjE)
     apply (metis reconcileRegistration_ok prod.collapse)
    apply (drule afterPhase_Panic, elim disjE exE conjE)
     apply (metis reconcileInitialization_ok prod.collapse)
    apply simp
    done
  then show ?thesis
    using assms unfolding reconcileClaim_def
    by (auto split: prod.splits sum.splits if_splits)
qed

text \<open>
  C15. A reconcile of a claim panics only when the claim it fetched has no \<open>requirements\<close>, is
  not deleted and carries the finalizer: no phase ever returns an error without a result, so the
  dereference \<open>*result\<close> in \<open>Reconcile\<close> is safe, and the dereference of
  \<open>claim.Spec.Requirements\<close> in the launch is the only one that can fail.
\<close>

theorem reconcile_panic_only_nil_requirements:
  assumes "fst (reconcileClaim E key s) = Panic m"
  shows "\<exists>c s1. getClaim E key s = (Inr c, s1) \<and> cs_requirements (cl_spec c) = None \<and>
    timePtrIsZero (om_deletion (cl_meta c)) \<and> libContainsFinalizer E (cl_meta c) finalizerNodeSmithClaim"
  by (rule reconcile_panics [OF assms])

definition claimNoReq :: claim where
  "claimNoReq = (let c = claimA in c\<lparr>cl_spec := (cl_spec c)\<lparr>cs_requirements := None\<rparr>\<rparr>)"

lemma claimNoReq_panics:
  "fst (reconcileClaim sampleEnv (''ns'', ''c'') (startState (claimWorld claimNoReq))) =
     Panic ''nil pointer dereference''"
  by code_simp

theorem reconcile_panic_only_nil_requirements_witness:
  "fst (reconcileClaim sampleEnv (''ns'', ''c'') (startState (claimWorld claimNoReq))) =
     Panic ''nil pointer dereference'' \<and>
   (\<exists>c s1. getClaim sampleEnv (''ns'', ''c'') (startState (claimWorld claimNoReq)) = (Inr c, s1) \<and>
      cs_requirements (cl_spec c) = None)"
  using claimNoReq_panics reconcile_panic_only_nil_requirements [OF claimNoReq_panics] by blast

section \<open>Finalization\<close>

text \<open>Calls made to resolve the provider of a claim.\<close>

fun isLookup :: "ext_call \<Rightarrow> bool" where
  "isLookup (EGetPool _ _) = True"
| "isLookup (EGetProviderObj _ _) = True"
| "isLookup (EBuildProvider _ _ _) = True"
| "isLookup _ = False"

lemma getProviderForClaim_lookups: "emits isLookup s (getProviderForClaim E c s)"
  unfolding getProviderForClaim_def Let_def buildProvider_def by (intro emits_intros) simp_all

text \<open>
  The log of the deprovisioning step: empty without a provider id; otherwise the lookups of the
  provider, then either a warning event or the \<open>DeprovisionMachine\<close> call and an event.
\<close>

definition deprovisionLog :: "claim \<Rightarrow> ext_call list \<Rightarrow> bool" where
  "deprovisionLog c evs \<longleftrightarrow> (if st_providerID (cl_status c) = [] then evs = []
     else (\<exists>xs tl. evs = xs @ tl \<and> list_all isLookup xs \<and>
       ((\<exists>msg. tl = [ERecord (cl_name c) eventWarning ''DeprovisioningFailed'' msg]) \<or>
        (\<exists>a ty rs msg. tl = [EDeprovision (machineOf c) a, ERecord (cl_name c) ty rs msg]))))"

lemma deprovisionLog_warned:
  "st_providerID (cl_status c) \<noteq> [] \<Longrightarrow> list_all isLookup xs \<Longrightarrow>
   deprovisionLog c (xs @ [ERecord (cl_name c) eventWarning ''DeprovisioningFailed'' msg])"
  by (auto simp: deprovisionLog_def)

lemma deprovisionLog_called:
  assumes "st_providerID (cl_status c) \<noteq> []" "list_all isLookup xs"
  shows "deprovisionLog c (xs @ [EDeprovision (machineOf c) a, ERecord (cl_name c) ty rs msg])"
  unfolding deprovisionLog_def if_not_P [OF assms(1)]
  by (rule exI [of _ xs], rule exI, rule conjI [OF refl]) (use assms(2) in blast)

lemma finalizeDeprovision_log: "tspec s (finalizeDeprovision E c s) (\<lambda>_. deprovisionLog c)"
  unfolding finalizeDeprovision_def
  apply (split if_split, intro conjI impI)
   apply (rule tspec_ret, simp add: deprovisionLog_def)
  apply (rule tspec_bind [OF getProviderForClaim_lookups [unfolded emits_def]])
  apply (split sum.split, intro conjI allI impI)
   apply (rule tspec_call, rule deprovisionLog_warned; assumption)
  apply (rule tspec_bind_call)
  apply (split option.split, intro conjI allI impI)
   apply (rule tspec_call, rule deprovisionLog_called; assumption)
  apply (rule tspec_call, rule deprovisionLog_called; assumption)
  done

definition finalizedClaim :: "'w env \<Rightarrow> claim \<Rightarrow> claim" where
  "finalizedClaim E c = c\<lparr>cl_meta := libRemoveFinalizer E (cl_meta c) finalizerNodeSmithClaim\<rparr>"

lemma finalizeRest_log:
  "tspec s (finalizeRest E c s) (\<lambda>_ evs. \<exists>dep a. evs = dep @ [EUpdateClaim (finalizedClaim E c) a] \<and> deprovisionLog c dep)"
  unfolding finalizeRest_def finalizedClaim_def [symmetric]
  by (rule tspec_bind [OF finalizeDeprovision_log], rule tspec_bind_call)
    (auto split: sum.split intro!: tspec_ret)

text \<open>
  C10. Finalization of a deleted claim is ordered: while the node of the claim exists, it is only
  deleted and the claim kept for another round; on any other error of the node lookup nothing is
  done; only once the node is gone (or none was ever recorded) is the machine deprovisioned, at
  most once, and only after that, as the last call, is the claim written with exactly our
  finalizer removed.
\<close>

theorem finalize_order:
  assumes "env_ok E" and "getClaim E key s = (Inr c, s1)" and "\<not> timePtrIsZero (om_deletion (cl_meta c))"
    and "reconcileClaim E key s = (r, s')"
  shows "\<exists>evs. trace s' = trace s1 @ evs \<and>
    (if finalizerNodeSmithClaim \<notin> set (om_finalizers (cl_meta c)) then evs = [] \<and> r = Ret (0, None)
     else let nm = st_nodeName (cl_status c) in
       (\<exists>n a x. nm \<noteq> [] \<and> evs = EGetNode nm (Inr n) # EDeleteNode n a # x \<and>
          list_all (\<lambda>e. \<exists>o1 o2 o3 o4. e = ERecord o1 o2 o3 o4) x \<and> (\<exists>e. r = Ret (requeueFinalization, e))) \<or>
       (\<exists>e. nm \<noteq> [] \<and> evs = [EGetNode nm (Inl e)] \<and> \<not> IsNotFound e \<and> r = Ret (requeueFinalization, Some e)) \<or>
       (\<exists>gone dep u a. evs = gone @ dep @ [EUpdateClaim u a] \<and>
          (if nm = [] then gone = [] else \<exists>e. gone = [EGetNode nm (Inl e)] \<and> IsNotFound e) \<and>
          deprovisionLog c dep \<and> (\<exists>fs. u = c\<lparr>cl_meta := (cl_meta c)\<lparr>om_finalizers := fs\<rparr>\<rparr> \<and>
            set fs = set (om_finalizers (cl_meta c)) - {finalizerNodeSmithClaim})))"
proof -
  have fin: "libContainsFinalizer E m f \<longleftrightarrow> f \<in> set (om_finalizers m)" for m f
    using assms(1) by (auto simp: env_ok_def finalizers_ok_def)
  have upd: "\<exists>fs. finalizedClaim E c = c\<lparr>cl_meta := (cl_meta c)\<lparr>om_finalizers := fs\<rparr>\<rparr> \<and>
      set fs = set (om_finalizers (cl_meta c)) - {finalizerNodeSmithClaim}"
    using assms(1) unfolding env_ok_def finalizers_ok_def finalizedClaim_def by metis
  obtain q where r: "r = Ret q" and run: "finalize E c s1 = (q, s')"
    using assms(2-4) by (auto simp: reconcileClaim_def split: prod.splits)
  have rest: "\<exists>dep a. trace s2 = trace s0 @ dep @ [EUpdateClaim (finalizedClaim E c) a] \<and> deprovisionLog c dep"
    if "finalizeRest E c s0 = (q0, s2)" for s0 q0 s2
    using finalizeRest_log [of s0 E c] that by (auto simp: tspec_def)
  let ?nm = "st_nodeName (cl_status c)"
  consider (none) "finalizerNodeSmithClaim \<notin> set (om_finalizers (cl_meta c))" "q = (0, None)" "s' = s1"
    | (fresh) "finalizerNodeSmithClaim \<in> set (om_finalizers (cl_meta c))" "?nm = []" "finalizeRest E c s1 = (q, s')"
    | (alive) n s2 a where "finalizerNodeSmithClaim \<in> set (om_finalizers (cl_meta c))" "?nm \<noteq> []"
        "getNode E ?nm s1 = (Inr n, s2)"
        "\<exists>x e. trace s' = trace s2 @ EDeleteNode n a # x \<and> list_all (\<lambda>e. \<exists>o1 o2 o3 o4. e = ERecord o1 o2 o3 o4) x \<and>
          q = (requeueFinalization, e)"
    | (error) e where "finalizerNodeSmithClaim \<in> set (om_finalizers (cl_meta c))" "?nm \<noteq> []"
        "getNode E ?nm s1 = (Inl e, s')" "\<not> IsNotFound e" "q = (requeueFinalization, Some e)"
    | (gone) e s2 where "finalizerNodeSmithClaim \<in> set (om_finalizers (cl_meta c))" "?nm \<noteq> []"
        "getNode E ?nm s1 = (Inl e, s2)" "IsNotFound e" "finalizeRest E c s2 = (q, s')"
    using run unfolding finalize_def fin
    by (auto split: if_splits prod.splits sum.splits option.splits simp: call_def)
  then show ?thesis
  proof cases
    case none
    then show ?thesis by (simp add: r)
  next
    case fresh
    with rest [OF fresh(3)] upd show ?thesis unfolding Let_def by (auto intro!: disjI2)
  next
    case alive
    with call_trace [OF alive(3)] show ?thesis unfolding Let_def r by auto
  next
    case error
    with call_trace [OF error(3)] show ?thesis unfolding Let_def r by auto
  next
    case gone
    obtain dep a where "trace s' = trace s2 @ dep @ [EUpdateClaim (finalizedClaim E c) a]" "deprovisionLog c dep"
      using rest [OF gone(5)] by blast
    then have "trace s' = trace s1 @ [EGetNode ?nm (Inl e)] @ dep @ [EUpdateClaim (finalizedClaim E c) a]"
      "if ?nm = [] then [EGetNode ?nm (Inl e)] = [] else \<exists>e'. [EGetNode ?nm (Inl e)] = [EGetNode ?nm (Inl e')] \<and> IsNotFound e'"
      "deprovisionLog c dep"
      using call_trace [OF gone(3)] gone(2,4) by auto
    with gone(1) upd show ?thesis unfolding Let_def by metis
  qed
qed

definition claimDeleted :: claim where
  "claimDeleted = (let c = claimA in c\<lparr>cl_meta := (cl_meta c)\<lparr>om_deletion := Some 0\<rparr>,
     cl_status := (cl_status c)\<lparr>st_providerID := ''vm-c'', st_nodeName := ''c''\<rparr>\<rparr>)"

lemma claimDeleted_runs:
  "fst (getClaim sampleEnv (''ns'', ''c'') (startState (claimWorld claimDeleted))) = Inr claimDeleted"
  "timePtrIsZero (om_deletion (cl_meta claimDeleted)) = False"
  "List.member (om_finalizers (cl_meta claimDeleted)) finalizerNodeSmithClaim"
  "list_ex (\<lambda>e. case e of EDeprovision _ _ \<Rightarrow> True | _ \<Rightarrow> False)
     (trace (snd (reconcileClaim sampleEnv (''ns'', ''c'') (startState (claimWorld claimDeleted)))))"
  by code_simp+

theorem finalize_order_witness:
  "\<exists>s1 evs. getClaim sampleEnv (''ns'', ''c'') (startState (claimWorld claimDeleted)) = (Inr claimDeleted, s1) \<and>
     trace (snd (reconcileClaim sampleEnv (''ns'', ''c'') (startState (claimWorld claimDeleted)))) = trace s1 @ evs \<and>
     (\<exists>e. EGetNode ''c'' e \<in> set evs) \<and>
     list_ex (\<lambda>e. case e of EDeprovision _ _ \<Rightarrow> True | _ \<Rightarrow> False) (trace s1 @ evs)"
proof -
  obtain s1 where get: "getClaim sampleEnv (''ns'', ''c'') (startState (claimWorld claimDeleted)) = (Inr claimDeleted, s1)"
    using claimDeleted_runs(1) by (metis prod.collapse)
  obtain r s' where run: "reconcileClaim sampleEnv (''ns'', ''c'') (startState (claimWorld claimDeleted)) = (r, s')"
    by fastforce
  have nm: "st_nodeName (cl_status claimDeleted) = ''c''" by code_simp
  have mem: "finalizerNodeSmithClaim \<in> set (om_finalizers (cl_meta claimDeleted))"
    using claimDeleted_runs(3) by simp
  have del: "\<not> timePtrIsZero (om_deletion (cl_meta claimDeleted))"
    using claimDeleted_runs(2) by simp
  show ?thesis
    using finalize_order [OF sampleEnv_ok get del run] claimDeleted_runs(4) run mem
    unfolding nm Let_def by (auto simp: get)
qed

section \<open>Giving up\<close>

lemma findCondition_set:
  "conditions_ok E \<Longrightarrow> findCondition E (setCondition E ty st rs msg t c) ty' =
    (if ty' = ty then Some \<lparr>cond_type = ty, cond_status = st, cond_reason = rs, cond_message = msg,
        cond_generation = om_generation (cl_meta c),
        cond_transition = (case findCondition E c ty of
          Some old \<Rightarrow> if cond_status old = st then cond_transition old else t | None \<Rightarrow> t)\<rparr>
     else findCondition E c ty')"
  by (simp add: findCondition_def setCondition_def find_laws split: option.split)

lemma findCondition_remove:
  "conditions_ok E \<Longrightarrow> findCondition E (removeCondition E ty c) ty' = (if ty' = ty then None else findCondition E c ty')"
  by (simp add: findCondition_def removeCondition_def find_laws)

lemma findCondition_frame [simp]:
  "findCondition E (setProviderID i c) ty = findCondition E c ty"
  "findCondition E (setNodeName i c) ty = findCondition E c ty"
  "findCondition E (setLaunchAttempts k c) ty = findCondition E c ty"
  by (simp_all add: findCondition_def setProviderID_def setNodeName_def setLaunchAttempts_def)

lemma condition_types_distinct [simp]:
  "conditionTypeFailed \<noteq> conditionTypeLaunched" "conditionTypeFailed \<noteq> conditionTypeRegistered"
  "conditionTypeFailed \<noteq> conditionTypeInitialized" "conditionTypeFailed \<noteq> conditionTypeReady"
  "conditionTypeInitialized \<noteq> conditionTypeReady" "conditionTypeReady \<noteq> conditionTypeInitialized"
  by (simp_all add: condition_types)

lemma claimFailed_marks:
  assumes "env_ok E"
  shows "claimFailed E (markAttemptsExceeded E msg t c)"
    and "claimFailed E (markRegistrationTimeout E n t c) \<longleftrightarrow> 3 \<le> n \<or> claimFailed E c"
    and "claimFailed E (markRecycled E n msg t c) \<longleftrightarrow> 3 \<le> n"
    and "\<not> claimFailed E (markRegistered E nm t c)"
    and "claimFailed E (markLaunched E n i t c) \<longleftrightarrow> claimFailed E c"
    and "claimFailed E (markProvisioningFailed E n e t c) \<longleftrightarrow> claimFailed E c"
    and "claimFailed E (markProviderError E e t c) \<longleftrightarrow> claimFailed E c"
    and "claimFailed E (markReady E t c) \<longleftrightarrow> claimFailed E c"
  using env_okD(1) [OF assms]
  by (simp_all add: claimFailed_def markAttemptsExceeded_def markRegistrationTimeout_def markRecycled_def
      markRegistered_def markLaunched_def markProvisioningFailed_def markProviderError_def markReady_def
      Let_def findCondition_set findCondition_remove maxLaunchAttempts_def)

text \<open>
  C32. The \<open>Failed\<close> condition after each status change of the lifecycle: giving up a launch
  sets it; a registration timeout and a recycle set it exactly when the attempts have reached
  three (a recycle clears it otherwise, a timeout leaves it); registration clears it; the other
  changes of the launch and initialization leave it.
\<close>

theorem failed_condition_exact:
  assumes "env_ok E"
  shows "claimFailed E (markAttemptsExceeded E msg t c) \<and>
    (claimFailed E (markRegistrationTimeout E n t c) \<longleftrightarrow> 3 \<le> n \<or> claimFailed E c) \<and>
    (claimFailed E (markRecycled E n msg t c) \<longleftrightarrow> 3 \<le> n) \<and>
    \<not> claimFailed E (markRegistered E nm t c) \<and>
    (claimFailed E (markLaunched E n i t c) \<longleftrightarrow> claimFailed E c) \<and>
    (claimFailed E (markProvisioningFailed E n e t c) \<longleftrightarrow> claimFailed E c) \<and>
    (claimFailed E (markProviderError E e t c) \<longleftrightarrow> claimFailed E c) \<and>
    (claimFailed E (markReady E t c) \<longleftrightarrow> claimFailed E c)"
  by (simp add: claimFailed_marks [OF assms])

theorem failed_condition_exact_witness:
  "env_ok sampleEnv \<and> claimFailed sampleEnv (markRecycled sampleEnv 3 ''m'' 0 claimA) \<and>
   \<not> claimFailed sampleEnv (markRecycled sampleEnv 2 ''m'' 0 claimA)"
  using failed_condition_exact [OF sampleEnv_ok, of "''m''" 0 claimA 3]
    failed_condition_exact [OF sampleEnv_ok, of "''m''" 0 claimA 2] sampleEnv_ok by simp

text \<open>The calls of a finalization launch nothing and write no status.\<close>

abbreviation noLaunch :: "ext_call \<Rightarrow> bool" where
  "noLaunch e \<equiv> \<not> isProvision e \<and> (\<forall>d r. e \<noteq> EStatusClaim d r)"

lemma finalize_noLaunch: "emits noLaunch s (finalize E c s)"
proof -
  have "emits noLaunch s (getProviderForClaim E c s)" for s
    unfolding getProviderForClaim_def Let_def buildProvider_def by (intro emits_intros) simp_all
  then have "emits noLaunch s (finalizeDeprovision E c s)" for s
    unfolding finalizeDeprovision_def by (intro emits_intros) simp_all
  then show ?thesis unfolding finalize_def finalizeRest_def by (intro emits_intros) simp_all
qed

text \<open>
  C31. Giving up is final: when the status that a reconcile reads is the one written by an exhausted launch,
  or by a registration timeout or a recycle at three or more attempts, the reconcile launches no machine and writes no
  status. An undeleted claim with its finalizer is left alone: no call after fetching it and no
  requeue; one without the finalizer gets it back and nothing else; a deleted one is finalized.
\<close>

theorem giving_up_is_final:
  assumes "env_ok E" and "getClaim E key s = (Inr c, s1)"
    and "cl_status c \<in> {cl_status (markAttemptsExceeded E msg t c0), cl_status (markRegistrationTimeout E n t c0),
      cl_status (markRecycled E n msg t c0)}" and "3 \<le> n"
  shows "\<exists>evs. trace (snd (reconcileClaim E key s)) = trace s @ EGetClaim key (Inr c) # evs \<and> list_all noLaunch evs \<and>
    (if timePtrIsZero (om_deletion (cl_meta c)) then
       (if finalizerNodeSmithClaim \<in> set (om_finalizers (cl_meta c))
        then reconcileClaim E key s = (Ret (0, None), s1) \<and> evs = []
        else (\<exists>fs a. evs = [EUpdateClaim (c\<lparr>cl_meta := (cl_meta c)\<lparr>om_finalizers := fs\<rparr>\<rparr>) a] \<and>
          set fs = insert finalizerNodeSmithClaim (set (om_finalizers (cl_meta c)))))
     else reconcileClaim E key s = (case finalize E c s1 of (r, s2) \<Rightarrow> (Ret r, s2)))"
proof -
  have status: "claimFailed E c = claimFailed E d" if "cl_status c = cl_status d" for d
    using that by (simp add: claimFailed_def findCondition_def)
  have failed: "claimFailed E c"
    using assms(3,4) by (auto dest!: status simp: claimFailed_marks [OF assms(1)])
  have fin: "libContainsFinalizer E (cl_meta c) finalizerNodeSmithClaim \<longleftrightarrow> finalizerNodeSmithClaim \<in> set (om_finalizers (cl_meta c))"
    using assms(1) by (simp add: env_ok_def finalizers_ok_def)
  note get = assms(2) call_trace [OF assms(2)]
  show ?thesis
  proof (cases "timePtrIsZero (om_deletion (cl_meta c))")
    case False
    then have run: "reconcileClaim E key s = (case finalize E c s1 of (r, s2) \<Rightarrow> (Ret r, s2))"
      using get by (simp add: reconcileClaim_def)
    obtain evs where "trace (snd (finalize E c s1)) = trace s1 @ evs" "list_all noLaunch evs"
      using finalize_noLaunch [of s1 E c] by (auto simp: emits_def tspec_def)
    then show ?thesis using run get(2) False by (auto split: prod.splits)
  next
    case alive: True
    show ?thesis
    proof (cases "finalizerNodeSmithClaim \<in> set (om_finalizers (cl_meta c))")
      case True
      then show ?thesis using alive failed fin get by (simp add: reconcileClaim_def)
    next
      case False
      obtain fs where fs: "libAddFinalizer E (cl_meta c) finalizerNodeSmithClaim = (cl_meta c)\<lparr>om_finalizers := fs\<rparr>"
        "set fs = insert finalizerNodeSmithClaim (set (om_finalizers (cl_meta c)))"
        using assms(1) unfolding env_ok_def finalizers_ok_def by metis
      let ?c = "c\<lparr>cl_meta := (cl_meta c)\<lparr>om_finalizers := fs\<rparr>\<rparr>"
      obtain a s2 where u: "updateClaim E ?c s1 = (a, s2)" by fastforce
      then have "trace (snd (reconcileClaim E key s)) = trace s1 @ [EUpdateClaim ?c a]"
        using alive False fin get(1) fs(1) call_trace [OF u] by (simp add: reconcileClaim_def split: sum.split)
      then show ?thesis using alive False fs(2) get(2) by auto
    qed
  qed
qed

definition claimGivenUp :: claim where
  "claimGivenUp = markRecycled sampleEnv 3 ''m'' 0 claimA"

lemma claimGivenUp_facts:
  "fst (getClaim sampleEnv (''ns'', ''c'') (startState (claimWorld claimGivenUp))) = Inr claimGivenUp"
  "timePtrIsZero (om_deletion (cl_meta claimGivenUp))"
  "List.member (om_finalizers (cl_meta claimGivenUp)) finalizerNodeSmithClaim"
  by code_simp+

theorem giving_up_is_final_witness:
  "\<exists>s1. reconcileClaim sampleEnv (''ns'', ''c'') (startState (claimWorld claimGivenUp)) = (Ret (0, None), s1) \<and>
     trace s1 = [EGetClaim (''ns'', ''c'') (Inr claimGivenUp)]"
proof -
  obtain s1 where get: "getClaim sampleEnv (''ns'', ''c'') (startState (claimWorld claimGivenUp)) = (Inr claimGivenUp, s1)"
    using claimGivenUp_facts(1) by (metis prod.collapse)
  show ?thesis
    using giving_up_is_final [OF sampleEnv_ok get, of "''m''" 0 claimA 3] claimGivenUp_facts(2,3)
    by (auto simp: claimGivenUp_def startState_def)
qed

section \<open>The lease\<close>

text \<open>
  C29. A live launching lease blocks the launch, whoever holds it: the reconcile makes no call and
  changes nothing, and it comes back no earlier than two seconds later and not before the lease's
  deadline as it stands.
\<close>

theorem live_lease_blocks_launch:
  assumes "st_providerID (cl_status c) = []" and "st_lease (cl_status c) = Some l"
    and "ls_phase l = leasePhaseLaunching" and "\<not> leaseExpired (now E s) (Some l)"
    and "ls_timeoutSeconds l < 2 ^ 31" and "leaseReferenceTime l - now E s < 2 ^ 62"
  shows "\<exists>d s'. reconcileLaunch E c s = ((stopWith d, c), s') \<and> trace s' = trace s \<and> world s' = world s \<and>
    2 * second \<le> d \<and> leaseReferenceTime l + ls_timeoutSeconds l * second \<le> now E s + d"
proof -
  obtain me s1 where me: "getLeaseHolderID E s = (me, s1)" by fastforce
  then have frame: "trace s1 = trace s" "world s1 = world s"
    using getLeaseHolderID_frame [of E s] by simp_all
  have pos: "0 < ls_timeoutSeconds l" using assms(4) by (simp add: leaseExpired_def split: if_splits)
  have mul: "mul64 (ls_timeoutSeconds l) second = ls_timeoutSeconds l * second"
    using pos assms(5) by (intro mul64_exact) (simp add: in64_def second_def)
  have bound: "ls_timeoutSeconds l * second < 2 ^ 62"
    using assms(5) by (simp add: second_def)
  then have rem: "leaseReferenceTime l + ls_timeoutSeconds l * second - now E s \<le> leaseRemaining (now E s) (Some l)"
    using assms(6) pos mul by (simp add: leaseRemaining_def timeSub_def)
  show ?thesis
    using assms(1-4) me frame rem
    by (auto simp: reconcileLaunch_def launchLeaseCheck_def Let_def minLeaseRetryDelay_def
        leaseHeartbeatInterval_def second_def)
qed

definition claimLeased :: claim where
  "claimLeased = setLease ''other'' leasePhaseLaunching 0 600 0 claimA"

definition otherLease :: claim_lease where
  "otherLease = \<lparr>ls_holder = ''other'', ls_phase = leasePhaseLaunching, ls_started = 0, ls_lastHeartbeat = 0,
     ls_timeoutSeconds = 600\<rparr>"

lemma claimLeased_facts:
  "st_providerID (cl_status claimLeased) = []" "st_lease (cl_status claimLeased) = Some otherLease"
  "ls_phase otherLease = leasePhaseLaunching" "ls_timeoutSeconds otherLease = 600"
  "leaseReferenceTime otherLease = 0" "now sampleEnv (startState (claimWorld claimLeased)) = 0"
  "\<not> leaseExpired 0 (Some otherLease)" "trace (startState (claimWorld claimLeased)) = []"
  by code_simp+

theorem live_lease_blocks_launch_witness:
  "\<exists>d s'. reconcileLaunch sampleEnv claimLeased (startState (claimWorld claimLeased)) = ((stopWith d, claimLeased), s') \<and>
     600 * second \<le> d \<and> trace s' = []"
  using live_lease_blocks_launch [of claimLeased otherLease sampleEnv "startState (claimWorld claimLeased)"]
    claimLeased_facts(7)
  unfolding claimLeased_facts by auto

end
