(* ===== verification/Claim_History.thy ===== *)
theory Claim_History
  imports Claim_Lifecycle Claim_Safety
begin

text \<open>
  Histories of a claim: the logs of all its reconciles, one after the other. What is assumed of the API
  server is \<open>served\<close>: a status it answers is one that the claim had at the start or that was written
  before, however old. The cached client may serve any former version, and a write that was
  answered by an error may have been stored all the same. The locale \<open>life_invariant\<close> lifts what
  every change of the lifecycle keeps to all statuses that are ever read or written.
\<close>

section \<open>What a claim is to its owner\<close>

definition freshClaim :: "'w env \<Rightarrow> claim \<Rightarrow> bool" where
  "freshClaim E c \<longleftrightarrow> st_providerID (cl_status c) = [] \<and> st_nodeName (cl_status c) = [] \<and> st_launchAttempts (cl_status c) = 0 \<and>
     findCondition E c conditionTypeFailed = None \<and> findCondition E c conditionTypeReady = None"

datatype claim_view = Pending int | Launched int | Registered | Operational | Abandoned

definition viewOf :: "'w env \<Rightarrow> claim \<Rightarrow> claim_view" where
  "viewOf E c =
     (if condTrue E c conditionTypeFailed then Abandoned
      else if st_nodeName (cl_status c) \<noteq> [] then (if condTrue E c conditionTypeReady then Operational else Registered)
      else if st_providerID (cl_status c) \<noteq> [] then Launched (st_launchAttempts (cl_status c))
      else Pending (st_launchAttempts (cl_status c)))"

section \<open>Histories\<close>

text \<open>
  Between two reconciles anything may happen: each starts in a state of its own, also with another
  lease holder id (a restarted manager).
\<close>

inductive claim_log :: "'w env \<Rightarrow> nskey \<Rightarrow> ext_call list \<Rightarrow> bool" for E key where
  log_start: "claim_log E key []"
| log_reconcile: "claim_log E key L \<Longrightarrow> trace (snd (reconcileClaim E key s)) = trace s @ evs \<Longrightarrow>
    claim_log E key (L @ evs)"

text \<open>
  The statuses (but for the lease, which the heartbeat may renew) that the server may hold: \<open>K\<close> at
  first, and then what is written. An answer gives one of them.
\<close>

fun stored :: "claim_status list \<Rightarrow> ext_call list \<Rightarrow> claim_status list" where
  "stored K [] = K"
| "stored K (EStatusClaim d r # evs) = stored (core d # K) evs"
| "stored K (_ # evs) = stored K evs"

fun answeredCores :: "ext_call \<Rightarrow> claim_status list" where
  "answeredCores (EGetClaim k (Inr c)) = [core c]"
| "answeredCores (EStatusClaim d (Inr c)) = [core c]"
| "answeredCores _ = []"

fun served :: "claim_status list \<Rightarrow> ext_call list \<Rightarrow> bool" where
  "served K [] = True"
| "served K (e # evs) = (set (answeredCores e) \<subseteq> set (stored K [e]) \<and> served (stored K [e]) evs)"

text \<open>What the provider and the cluster give has a name: see \<open>machine_provider\<close>.\<close>

fun named :: "ext_call \<Rightarrow> bool" where
  "named (EProvision ms (Inr m)) = (mc_providerID m \<noteq> [])"
| "named (EListNodes (Inr ns)) = list_all (\<lambda>n. nd_name n \<noteq> []) ns"
| "named _ = True"

text \<open>The claims that a call shows, and those of a whole log.\<close>

fun claimsIn :: "ext_call \<Rightarrow> claim list" where
  "claimsIn (EGetClaim k (Inr c)) = [c]"
| "claimsIn (EStatusClaim d (Inr c)) = [d, c]"
| "claimsIn (EStatusClaim d (Inl e)) = [d]"
| "claimsIn _ = []"

lemma stored_append: "stored K (xs @ ys) = stored (stored K xs) ys"
  by (induction K xs rule: stored.induct) auto

lemma stored_single: "stored K (e # evs) = stored (stored K [e]) evs"
  using stored_append [of K "[e]" evs] by simp

lemma served_append: "served K (xs @ ys) \<longleftrightarrow> served K xs \<and> served (stored K xs) ys"
  by (induction K xs rule: served.induct) (auto simp: stored_single [of _ _ "_ # _"] stored_single [symmetric] simp flip: stored_append)

section \<open>What every change keeps\<close>

locale life_invariant =
  fixes I :: "'w env \<Rightarrow> claim \<Rightarrow> bool"
  assumes core_only: "core c = core d \<Longrightarrow> I E c = I E d"
    and step_keeps: "env_ok E \<Longrightarrow> life_step E c0 pre G l d \<Longrightarrow> list_all named pre \<Longrightarrow> I E l \<Longrightarrow>
      (\<And>st. knows pre st \<Longrightarrow> \<exists>c. cl_status c = st \<and> I E c) \<Longrightarrow> I E d"
begin

text \<open>The statuses known so far, and those a server may hold, are good.\<close>

definition goodLog :: "'w env \<Rightarrow> ext_call list \<Rightarrow> bool" where
  "goodLog E evs \<longleftrightarrow> (\<forall>e \<in> set evs. \<forall>c \<in> set (claimsIn e). I E c)"

definition goodCores :: "'w env \<Rightarrow> claim_status list \<Rightarrow> bool" where
  "goodCores E K \<longleftrightarrow> (\<forall>c. core c \<in> set K \<longrightarrow> I E c)"

lemma known_good: "goodLog E pre \<Longrightarrow> knows pre st \<Longrightarrow> \<exists>c. cl_status c = st \<and> I E c"
proof -
  assume "goodLog E pre" and "knows pre st"
  then obtain e where e: "e \<in> set pre" "told st e" by (auto simp: knows_def)
  then show ?thesis using \<open>goodLog E pre\<close> by (induction st e rule: told.induct) (force simp: goodLog_def)+
qed

lemma justified_good:
  assumes "env_ok E" and "justified E c0 G pre d" and "list_all named pre" and "goodLog E pre"
  shows "I E d"
proof -
  obtain xs l where l: "pre = xs @ [EGetClaim (metaKey (cl_meta c0)) (Inr l)]" "life_step E c0 pre G l d"
    using assms(2) by (auto simp: justified_def)
  have "I E l" using assms(4) l(1) by (simp add: goodLog_def)
  then show ?thesis using step_keeps [OF assms(1) l(2) assms(3)] known_good [OF assms(4)] by blast
qed

lemma goodCores_core: "I E d \<Longrightarrow> goodCores E K \<Longrightarrow> goodCores E (core d # K)"
  unfolding goodCores_def using core_only by (metis set_ConsD)

lemma call_good:
  assumes "goodCores E K" and "set (answeredCores e) \<subseteq> set (stored K [e])"
    and "\<And>d r. e = EStatusClaim d r \<Longrightarrow> I E d"
  shows "goodCores E (stored K [e]) \<and> goodLog E [e]"
proof -
  have K: "goodCores E (stored K [e])"
    using assms(1,3) goodCores_core by (cases "(K, [e])" rule: stored.cases) auto
  moreover have "I E c" if "c \<in> set (claimsIn e)" for c
    using that assms(2,3) K by (cases e rule: claimsIn.cases) (auto simp: goodCores_def)
  ultimately show ?thesis by (simp add: goodLog_def)
qed

lemma writes_good:
  assumes "env_ok E"
  shows "writesOk (justified E c0 G) pre evs \<Longrightarrow> goodLog E pre \<Longrightarrow> goodCores E K \<Longrightarrow> served K evs \<Longrightarrow>
    list_all named (pre @ evs) \<Longrightarrow> goodLog E evs \<and> goodCores E (stored K evs)"
proof (induction "justified E c0 G" pre evs arbitrary: K rule: writesOk.induct)
  case (2 pre e evs)
  have "I E d" if "e = EStatusClaim d r" for d r
    using justified_good [OF assms, of c0 G pre d] "2.prems"(1,2,5) that by simp
  then have e: "goodCores E (stored K [e])" "goodLog E [e]" using call_good [of E K e] "2.prems"(3,4) by simp_all
  have "goodLog E evs \<and> goodCores E (stored (stored K [e]) evs)"
    by (rule "2.hyps") (use "2.prems" e in \<open>auto simp: goodLog_def\<close>)
  then show ?case using e by (auto simp: goodLog_def stored_single [of K e evs])
qed (simp add: goodLog_def)

lemma silent_good:
  "list_all (\<lambda>e. \<not> isClaimStatusWrite e) evs \<Longrightarrow> goodCores E K \<Longrightarrow> served K evs \<Longrightarrow>
   goodLog E evs \<and> goodCores E (stored K evs)"
proof (induction evs arbitrary: K)
  case (Cons e evs)
  then have "\<And>d r. e = EStatusClaim d r \<Longrightarrow> I E d" by auto
  then have e: "goodCores E (stored K [e])" "goodLog E [e]" using call_good [of E K e] Cons.prems by auto
  then show ?case using Cons by (auto simp: goodLog_def stored_single [of K e evs])
qed (simp add: goodLog_def)

lemma reconcile_good:
  assumes "env_ok E" and "trace (snd (reconcileClaim E key s)) = trace s @ evs" and "goodCores E K" and "served K evs"
    and "list_all named evs"
  shows "goodLog E evs \<and> goodCores E (stored K evs)"
proof -
  have "list_all (\<lambda>e. \<not> isClaimStatusWrite e) evs \<or> (\<exists>c0. stagedWrites E key c0 evs)"
    using reconcileClaim_staged [OF assms(1), of s key] assms(2) by (auto simp: tspec_def)
  then show ?thesis
  proof
    assume "\<exists>c0. stagedWrites E key c0 evs"
    then obtain c0 evL evR evI where evs: "evs = EGetClaim key (Inr c0) # evL @ evR @ evI"
      "writesOk (justified E c0 InLaunch) [EGetClaim key (Inr c0)] evL"
      "writesOk (justified E c0 InRegister) (EGetClaim key (Inr c0) # evL) evR"
      "writesOk (justified E c0 InInit) (EGetClaim key (Inr c0) # evL @ evR) evI"
      by (auto simp: stagedWrites_def)
    note s = assms(4,5) [unfolded evs(1)]
    have first: "goodLog E [EGetClaim key (Inr c0)]" using s(1) assms(3) by (simp add: goodLog_def goodCores_def)
    have L: "goodLog E evL \<and> goodCores E (stored K evL)"
      by (rule writes_good [OF assms(1) evs(2) first]) (use s assms(3) in \<open>auto simp: served_append\<close>)
    then have R: "goodLog E evR \<and> goodCores E (stored (stored K evL) evR)"
      by (intro writes_good [OF assms(1) evs(3)]) (use s first in \<open>auto simp: served_append goodLog_def\<close>)
    have "goodLog E evI \<and> goodCores E (stored (stored (stored K evL) evR) evI)"
      by (rule writes_good [OF assms(1) evs(4)]) (use s first L R in \<open>auto simp: served_append goodLog_def\<close>)
    then show ?thesis using evs(1) first L R by (auto simp: goodLog_def stored_append)
  qed (rule silent_good [OF _ assms(3,4)])
qed

theorem history_good:
  assumes "env_ok E" and "claim_log E key L" and "served [core c0] L" and "list_all named L" and "I E c0"
  shows "goodLog E L"
proof -
  have "goodLog E L \<and> goodCores E (stored [core c0] L)" using assms(2-4)
  proof (induction rule: claim_log.induct)
    case log_start
    have "goodCores E [core c0]" unfolding goodCores_def using assms(5) core_only by (metis empty_iff empty_set set_ConsD)
    then show ?case by (simp add: goodLog_def)
  next
    case (log_reconcile L s evs)
    then have L: "goodLog E L" "goodCores E (stored [core c0] L)" by (simp_all add: served_append)
    have "goodLog E evs \<and> goodCores E (stored (stored [core c0] L) evs)"
      by (rule reconcile_good [OF assms(1) log_reconcile.hyps(2) L(2)]) (use log_reconcile.prems in \<open>simp_all add: served_append\<close>)
    then show ?case using L by (auto simp: goodLog_def stored_append)
  qed
  then show ?thesis ..
qed

end

section \<open>The launch counter\<close>

definition counterInv :: "'w env \<Rightarrow> claim \<Rightarrow> bool" where
  "counterInv E c \<longleftrightarrow> 0 \<le> st_launchAttempts (cl_status c) \<and>
     (st_launchAttempts (cl_status c) \<le> maxLaunchAttempts \<or> st_launchAttempts (cl_status c) = maxLaunchAttempts + 1 \<and>
        st_providerID (cl_status c) = [] \<and> st_nodeName (cl_status c) = [] \<and> condTrue E c conditionTypeFailed) \<and>
     (st_providerID (cl_status c) \<noteq> [] \<and> st_nodeName (cl_status c) = [] \<longrightarrow> 1 \<le> st_launchAttempts (cl_status c))"

lemma step_counter:
  assumes "env_ok E" and "life_step E c0 pre G l d" and "counterInv E l"
    and known: "\<And>st. knows pre st \<Longrightarrow> \<exists>c. cl_status c = st \<and> counterInv E c" and names: "list_all named pre"
  shows "counterInv E d"
proof -
  have ok: "conditions_ok E" using assms(1) by blast
  have m: "maxLaunchAttempts = 3" by (simp add: maxLaunchAttempts_def)
  have a: "0 \<le> st_launchAttempts st \<and> (st_launchAttempts st \<le> 3 \<or> st_launchAttempts st = 4 \<and> st_nodeName st = [])"
    if "knows pre st" for st
    using known [OF that] by (auto simp: counterInv_def m)
  show ?thesis using assms(2)
  proof (cases rule: life_step.cases)
    case lease_only
    then show ?thesis using assms(3) by (simp add: counterInv_def condTrue_def findCondition_def core_fields [of d l])
  next
    case (provision_failed st ms e t)
    then show ?thesis using assms(3) a [of st] by (auto simp: counterInv_def mark_failed [OF ok] add64_small m)
  next
    case (launched st ms mc t)
    then show ?thesis using assms(3) a [of st] by (auto simp: counterInv_def mark_failed [OF ok] add64_small m)
  next
    case (recycled st r msg t)
    then show ?thesis using assms(3) a [of st] by (auto simp: counterInv_def mark_failed [OF ok] add64_small m)
  next
    case (registered st ns n t)
    then have "nd_name n \<noteq> []" using names by (fastforce simp: list_all_iff)
    then show ?thesis using registered assms(3) by (auto simp: counterInv_def mark_failed [OF ok] m)
  qed (use assms(3) in \<open>auto simp: counterInv_def mark_failed [OF ok] m\<close>)
qed

interpretation counter: life_invariant counterInv
proof unfold_locales
  fix E :: "'a env" and c d
  assume "core c = core d"
  then show "counterInv E c = counterInv E d"
    by (simp add: counterInv_def condTrue_def findCondition_def core_fields [of c d])
qed (rule step_counter)

section \<open>A sample history\<close>

text \<open>A claim is launched, its node joins, and the claim becomes operational; then the node is gone.\<close>

definition launchingState :: "sample st" where
  "launchingState = startState ((emptyWorld 0)\<lparr>sw_claims := [claimA], sw_pools := [samplePool], sw_providers := [sampleProviderObj]\<rparr>)"

definition readyNode :: node where
  "readyNode = (sampleNode ''c'')\<lparr>nd_conditions :=
     [\<lparr>nc_type = ''Ready'', nc_status = CTrue, nc_transition = 0\<rparr>]\<rparr>"

definition withNodes :: "node list \<Rightarrow> sample st \<Rightarrow> sample st" where
  "withNodes ns s = s\<lparr>world := (world s)\<lparr>sw_nodes := ns\<rparr>\<rparr>"

definition stepClaim :: "sample st \<Rightarrow> sample st" where
  "stepClaim s = snd (reconcileClaim sampleEnv (''ns'', ''c'') s)"

abbreviation "launchedState \<equiv> stepClaim launchingState"
abbreviation "operationalState \<equiv> stepClaim (withNodes [readyNode] launchedState)"
abbreviation "recycledState \<equiv> stepClaim (withNodes [] operationalState)"

lemma log_state:
  assumes "env_ok E" and "claim_log E key (trace s)" and "trace s1 = trace s"
  shows "claim_log E key (trace (snd (reconcileClaim E key s1)))"
proof -
  obtain evs where "trace (snd (reconcileClaim E key s1)) = trace s1 @ evs"
    using reconcileClaim_staged [OF assms(1), of s1 key] by (auto simp: tspec_def)
  with log_reconcile [OF assms(2) this] show ?thesis using assms(3) by simp
qed

lemma sample_log: "claim_log sampleEnv (''ns'', ''c'') (trace recycledState)"
proof -
  have "claim_log sampleEnv (''ns'', ''c'') (trace launchingState)"
    by (simp add: launchingState_def startState_def log_start)
  then have "claim_log sampleEnv (''ns'', ''c'') (trace launchedState)"
    unfolding stepClaim_def by (rule log_state [OF sampleEnv_ok]) simp
  then have "claim_log sampleEnv (''ns'', ''c'') (trace operationalState)"
    unfolding stepClaim_def [of "withNodes _ _"] by (rule log_state [OF sampleEnv_ok]) (simp add: withNodes_def)
  then show ?thesis
    unfolding stepClaim_def [of "withNodes [] _"] by (rule log_state [OF sampleEnv_ok]) (simp add: withNodes_def)
qed

lemma sample_served: "served [core claimA] (trace recycledState)"
  by code_simp

lemma sample_named: "list_all named (trace recycledState)"
  by code_simp


section \<open>Properties\<close>

text \<open>
  C3. The launch counter that a claim's status records, in every history of a new claim, under any
  provider and with an API server that may answer any former status: it is never negative and at most
  three, or it is four and the claim is failed, with neither machine nor node; and a status with a
  machine whose node has not joined records at least one launch. Four needs a stale read: a claim that
  is launched over its registration still counts its launches when it is recycled. The counter is of
  recorded launches: one whose status could not be written is not in it.
\<close>

theorem lifecycle_invariant:
  assumes "env_ok E" and "claim_log E key L" and "freshClaim E c0" and "served [core c0] L" and "list_all named L"
    and "e \<in> set L" and "c \<in> set (claimsIn e)"
  shows "0 \<le> st_launchAttempts (cl_status c) \<and>
     (st_launchAttempts (cl_status c) \<le> maxLaunchAttempts \<or> st_launchAttempts (cl_status c) = maxLaunchAttempts + 1 \<and>
        st_providerID (cl_status c) = [] \<and> st_nodeName (cl_status c) = [] \<and> condTrue E c conditionTypeFailed) \<and>
     (st_providerID (cl_status c) \<noteq> [] \<and> st_nodeName (cl_status c) = [] \<longrightarrow> 1 \<le> st_launchAttempts (cl_status c))"
proof -
  have "counterInv E c0" using assms(3) by (simp add: freshClaim_def counterInv_def maxLaunchAttempts_def)
  from counter.history_good [OF assms(1,2,4,5) this] assms(6,7) show ?thesis
    by (auto simp: counter.goodLog_def counterInv_def)
qed

theorem lifecycle_invariant_witness:
  "list_all (\<lambda>e. list_all (\<lambda>c. 0 \<le> st_launchAttempts (cl_status c)) (claimsIn e)) (trace recycledState) \<and>
   list_ex (\<lambda>e. list_ex (\<lambda>c. viewOf sampleEnv c = Operational) (claimsIn e)) (trace recycledState)"
proof
  have "freshClaim sampleEnv claimA" by code_simp
  from lifecycle_invariant [OF sampleEnv_ok sample_log this sample_served sample_named]
  show "list_all (\<lambda>e. list_all (\<lambda>c. 0 \<le> st_launchAttempts (cl_status c)) (claimsIn e)) (trace recycledState)"
    by (simp add: list_all_iff)
qed code_simp



end
