(* ===== verification/Claim_Runs.thy ===== *)
theory Claim_Runs
  imports Claim_History
begin

text \<open>
  What the conditions in a claim's status may say and how they go with the other fields, in every
  history; and what a stale first read does to a launched claim, whose guards are not checked again.
\<close>

section \<open>The conditions\<close>

text \<open>Which status and which reasons a condition of each type may have.\<close>

definition reasonsOf :: "string \<Rightarrow> (cond_status \<times> string) list" where
  "reasonsOf ty =
     (if ty = conditionTypeLaunched then [(CTrue, ''Launched''), (CFalse, ''LaunchAttemptsExceeded''), (CFalse, ''ProviderError''),
        (CFalse, ''ProvisioningFailed''), (CFalse, ''RegistrationTimeout''), (CFalse, ''RegistrationTimeoutExceeded''),
        (CFalse, ''RecycleNotReady'')]
      else if ty = conditionTypeRegistered then [(CTrue, ''Registered''), (CFalse, ''Timeout''), (CFalse, ''RecycleNotReady'')]
      else if ty = conditionTypeInitialized then [(CTrue, ''Initialized''), (CFalse, ''RecycleNotReady'')]
      else if ty = conditionTypeReady then [(CTrue, ''Ready''), (CFalse, ''RecycleNotReady'')]
      else if ty = conditionTypeFailed then [(CTrue, ''LaunchAttemptsExceeded''), (CTrue, ''RegistrationTimeoutExceeded''),
        (CTrue, ''RecycleNotReady'')]
      else [])"

definition typed :: "'w env \<Rightarrow> claim \<Rightarrow> bool" where
  "typed E c \<longleftrightarrow> (\<forall>ty k. findCondition E c ty = Some k \<longrightarrow>
     cond_type k = ty \<and> (cond_status k, cond_reason k) \<in> set (reasonsOf ty))"

text \<open>The schema of \<open>metav1.Condition\<close> for a reason.\<close>

definition charIn :: "string \<Rightarrow> char \<Rightarrow> bool" where
  "charIn ab ch \<longleftrightarrow> (of_char (hd ab) :: nat) \<le> of_char ch \<and> (of_char ch :: nat) \<le> of_char (last ab)"

definition validReason :: "string \<Rightarrow> bool" where
  "validReason s \<longleftrightarrow> s \<noteq> [] \<and> length s \<le> 1024 \<and> (charIn ''AZ'' (hd s) \<or> charIn ''az'' (hd s)) \<and>
     list_all (\<lambda>ch. charIn ''AZ'' ch \<or> charIn ''az'' ch \<or> isDigit ch \<or> ch \<in> set ''_,:'') (tl s) \<and> last s \<notin> set '',:''"

lemma reasons_valid: "(st, re) \<in> set (reasonsOf ty) \<Longrightarrow> validReason re"
proof -
  have "list_all (\<lambda>ty. list_all (validReason \<circ> snd) (reasonsOf ty))
     [conditionTypeLaunched, conditionTypeRegistered, conditionTypeInitialized, conditionTypeReady, conditionTypeFailed]"
    by code_simp
  moreover have "reasonsOf ty \<noteq> [] \<Longrightarrow> ty \<in> {conditionTypeLaunched, conditionTypeRegistered, conditionTypeInitialized,
      conditionTypeReady, conditionTypeFailed}"
    by (auto simp: reasonsOf_def split: if_splits)
  ultimately show "(st, re) \<in> set (reasonsOf ty) \<Longrightarrow> validReason re"
    by (fastforce simp: list_all_iff)
qed

lemma condition_types [simp]:
  "conditionTypeLaunched \<noteq> conditionTypeRegistered" "conditionTypeLaunched \<noteq> conditionTypeInitialized"
  "conditionTypeRegistered \<noteq> conditionTypeInitialized" "conditionTypeRegistered \<noteq> conditionTypeLaunched"
  "conditionTypeInitialized \<noteq> conditionTypeLaunched" "conditionTypeInitialized \<noteq> conditionTypeRegistered"
  "conditionTypeReady \<noteq> conditionTypeLaunched" "conditionTypeReady \<noteq> conditionTypeRegistered"
  "conditionTypeReady \<noteq> conditionTypeInitialized" "conditionTypeFailed \<noteq> conditionTypeLaunched"
  "conditionTypeFailed \<noteq> conditionTypeRegistered" "conditionTypeFailed \<noteq> conditionTypeInitialized"
  by code_simp+

lemma find_setCondition:
  assumes "conditions_ok E" and "findCondition E (setCondition E ty st re msg t c) ty' = Some k"
  shows "if ty' = ty then cond_type k = ty \<and> cond_status k = st \<and> cond_reason k = re else findCondition E c ty' = Some k"
proof (cases "ty' = ty")
  case True
  let ?k = "\<lparr>cond_type = ty, cond_status = st, cond_reason = re, cond_message = msg, cond_generation = om_generation (cl_meta c),
    cond_transition = zeroTime\<rparr>"
  have "\<exists>u. libFind E (libSet E t (st_conditions (cl_status c)) ?k) ty = Some (?k\<lparr>cond_transition := u\<rparr>)"
    by (simp add: find_set [OF assms(1)])
  then show ?thesis using assms(2) True by (auto simp: findCondition_def setCondition_def)
next
  case False
  then show ?thesis using assms(2) find_set_other [OF assms(1)] by (simp add: findCondition_def setCondition_def)
qed

lemma typed_set:
  assumes "conditions_ok E" and "typed E c" and "(st, re) \<in> set (reasonsOf ty)"
  shows "typed E (setCondition E ty st re msg t c)"
  unfolding typed_def
proof (intro allI impI)
  fix ty' k
  assume "findCondition E (setCondition E ty st re msg t c) ty' = Some k"
  from find_setCondition [OF assms(1) this] assms(2,3) show "cond_type k = ty' \<and> (cond_status k, cond_reason k) \<in> set (reasonsOf ty')"
    by (auto simp: typed_def split: if_splits)
qed

lemma typed_fields:
  assumes "typed E c"
  shows "typed E (setProviderID p c)" "typed E (setNodeName n c)" "typed E (setLaunchAttempts a c)"
  using assms by (simp_all add: typed_def findCondition_def setProviderID_def setNodeName_def setLaunchAttempts_def)

lemma typed_remove:
  assumes "conditions_ok E" and "typed E c"
  shows "typed E (removeCondition E ty c)"
  using assms(2) find_remove [OF assms(1)] find_remove_other [OF assms(1)]
  by (auto simp: typed_def findCondition_def removeCondition_def) (metis option.distinct(1))+

lemmas typed_intros = typed_set typed_fields typed_remove

lemma step_typed:
  assumes "env_ok E" and "life_step E c0 pre G l d" and "typed E l"
  shows "typed E d"
proof -
  have ok: "conditions_ok E" using assms(1) by blast
  show ?thesis using assms(2)
  proof (cases rule: life_step.cases)
    case lease_only
    then show ?thesis using assms(3) by (simp add: typed_def findCondition_def core_fields [of d l])
  qed (use assms(3) ok in \<open>auto simp: mark_defs reasonsOf_def intro!: typed_intros\<close>)
qed

text \<open>How the conditions go with the other fields of the status.\<close>

definition agreeing :: "'w env \<Rightarrow> claim \<Rightarrow> bool" where
  "agreeing E c \<longleftrightarrow> (condTrue E c conditionTypeLaunched \<longrightarrow> st_providerID (cl_status c) \<noteq> []) \<and>
     (condTrue E c conditionTypeRegistered \<longrightarrow> st_nodeName (cl_status c) \<noteq> []) \<and>
     (condTrue E c conditionTypeInitialized \<longleftrightarrow> condTrue E c conditionTypeReady)"

lemma step_agreeing:
  assumes "env_ok E" and "life_step E c0 pre G l d" and "agreeing E l" and names: "list_all named pre"
  shows "agreeing E d"
proof -
  have ok: "conditions_ok E" using assms(1) by blast
  show ?thesis using assms(2)
  proof (cases rule: life_step.cases)
    case lease_only
    then show ?thesis using assms(3) by (simp add: agreeing_def condTrue_def findCondition_def core_fields [of d l])
  next
    case (launched st ms m t)
    then have "mc_providerID m \<noteq> []" using names by (fastforce simp: list_all_iff)
    then show ?thesis using launched assms(3) by (auto simp: agreeing_def mark_defs condTrue_mark [OF ok])
  next
    case (registered st ns n t)
    then have "nd_name n \<noteq> []" using names by (fastforce simp: list_all_iff)
    then show ?thesis using registered assms(3) by (auto simp: agreeing_def mark_defs condTrue_mark [OF ok])
  qed (use assms(3) in \<open>auto simp: agreeing_def mark_defs condTrue_mark [OF ok]\<close>)
qed

interpretation conds: life_invariant "\<lambda>E c. typed E c \<and> agreeing E c"
proof unfold_locales
  fix E :: "'a env" and c d
  assume "core c = core d"
  then show "(typed E c \<and> agreeing E c) = (typed E d \<and> agreeing E d)"
    by (simp add: typed_def agreeing_def condTrue_def findCondition_def core_fields [of c d])
next
  fix E :: "'a env" and c0 pre G l d
  assume "env_ok E" and "life_step E c0 pre G l d" and "list_all named pre" and "typed E l \<and> agreeing E l"
  then show "typed E d \<and> agreeing E d" using step_typed step_agreeing by blast
qed

section \<open>A stale first read\<close>

lemma claimFailed_iff: "claimFailed E c \<longleftrightarrow> condTrue E c conditionTypeFailed"
  by (simp add: claimFailed_def condTrue_def)

lemma retry_run_prefix:
  assumes "retry_run fn s x" and "\<And>s. \<exists>evs. trace (snd (fn s)) = trace s @ evs"
  shows "\<exists>evs. trace (snd x) = trace (snd (fn s)) @ evs"
  using assms(1)
proof (induction rule: retry_run.induct)
  case (retry_again s e s1 s2 x)
  moreover obtain evs where "trace (snd (fn s2)) = trace s2 @ evs" using assms(2) by blast
  ultimately show ?case by (auto simp: waited_def)
qed simp

text \<open>The first attempt of an update is in the log, whatever comes of it.\<close>

lemma update_first_attempt:
  assumes "env_ok E" and "fst (getClaim E (metaKey (cl_meta c)) s) = Inr l" and "\<And>t. cl_status (m t l) \<noteq> cl_status l"
  shows "\<exists>t r evs. trace (snd (updateClaimStatus E c m s)) =
    trace s @ EGetClaim (metaKey (cl_meta c)) (Inr l) # EStatusClaim (m t l) r # evs"
proof -
  let ?f = "claimStatusAttempt E (metaKey (cl_meta c)) m"
  obtain s1 where g: "getClaim E (metaKey (cl_meta c)) s = (Inr l, s1)" using assms(2) by (metis prod.collapse)
  obtain r s2 where w: "statusClaim E (m (now E s1) l) s1 = (r, s2)" by fastforce
  have eq: "libEqClaim E x y \<longleftrightarrow> x = y" for x y using assms(1) by (simp add: env_ok_def deepequal_ok_def)
  have "trace (snd (?f s)) = trace s2"
    using g w assms(3) [of "now E s1", symmetric] by (simp add: claimStatusAttempt_def eq split: sum.split)
  also have "\<dots> = trace s @ [EGetClaim (metaKey (cl_meta c)) (Inr l), EStatusClaim (m (now E s1) l) r]"
    using call_trace [OF g] call_trace [OF w] by simp
  finally have first: "trace (snd (?f s)) = \<dots>" .
  have "\<exists>evs. trace (snd (?f s)) = trace s @ evs" for s
    using claimStatusAttempt_calls [OF refl, of c m s E] by (auto simp: emits_def tspec_def)
  then obtain evs where "trace (snd (retryClaim E ?f s)) = trace (snd (?f s)) @ evs"
    using retry_run_prefix [OF retryClaim_run [OF assms(1)]] by blast
  moreover have "trace (snd (updateClaimStatus E c m s)) = trace (snd (retryClaim E ?f s))"
    by (auto simp: updateClaimStatus_def split: prod.split sum.split)
  ultimately show ?thesis using first by auto
qed

lemma launchGiveUp_stops: "fst (fst (launchGiveUp E c s)) \<noteq> nextPhase"
  by (auto simp: launchGiveUp_def split: prod.split option.split)

lemma launchLocked_extends:
  assumes "env_ok E" and "launchBody E c s = ((res, c1), s1)"
  shows "fst (fst (launchLocked E c s)) = res" and "\<exists>evs. trace (snd (launchLocked E c s)) = trace s1 @ evs"
  using updateClaimStatus_quiet [OF assms(1), of "snd (logOnly EHeartbeatStop s1)" c1 "dropLease leasePhaseLaunching"] assms(2)
  by (auto simp: launchLocked_def releaseLease_def call_def emits_def tspec_def split: prod.splits)

section \<open>Properties\<close>

text \<open>
  C6. The conditions of a claim are well typed in every history of a claim that starts without
  conditions, under any provider and with an API server that may answer any former status: a condition found under a
  type has that type, one of the reasons that the code uses for that type and status, and the reason is one that the
  schema of \<open>metav1.Condition\<close> admits; Launched is True only with a machine, Registered only with
  a node, and Initialized exactly when Ready is.
\<close>

theorem conditions_typed:
  assumes "env_ok E" and "claim_log E key L" and "served [core c0] L" and "list_all named L"
    and "\<And>ty. findCondition E c0 ty = None" and "e \<in> set L" and "c \<in> set (claimsIn e)"
  shows "(\<forall>ty k. findCondition E c ty = Some k \<longrightarrow>
      cond_type k = ty \<and> (cond_status k, cond_reason k) \<in> set (reasonsOf ty) \<and> validReason (cond_reason k)) \<and>
    (condTrue E c conditionTypeLaunched \<longrightarrow> st_providerID (cl_status c) \<noteq> []) \<and>
    (condTrue E c conditionTypeRegistered \<longrightarrow> st_nodeName (cl_status c) \<noteq> []) \<and>
    (condTrue E c conditionTypeInitialized \<longleftrightarrow> condTrue E c conditionTypeReady)"
proof -
  have "typed E c0 \<and> agreeing E c0" using assms(5) by (simp add: typed_def agreeing_def condTrue_def)
  from conds.history_good [OF assms(1-4) this] assms(6,7) have "typed E c" "agreeing E c"
    by (auto simp: conds.goodLog_def)
  then show ?thesis using reasons_valid unfolding typed_def agreeing_def by blast
qed

theorem conditions_typed_witness:
  "list_all (\<lambda>e. list_all (\<lambda>c. condTrue sampleEnv c conditionTypeRegistered \<longrightarrow> st_nodeName (cl_status c) \<noteq> [])
     (claimsIn e)) (trace recycledState) \<and>
   list_ex (\<lambda>e. list_ex (\<lambda>c. condTrue sampleEnv c conditionTypeRegistered) (claimsIn e)) (trace recycledState)"
proof
  have "findCondition sampleEnv claimA ty = None" for ty
    by (simp add: findCondition_def claimA_def sampleClaim_def sampleStatus_def sampleEnv_def findCond_def Let_def)
  from conditions_typed [OF sampleEnv_ok sample_log sample_served sample_named this]
  show "list_all (\<lambda>e. list_all (\<lambda>c. condTrue sampleEnv c conditionTypeRegistered \<longrightarrow> st_nodeName (cl_status c) \<noteq> [])
     (claimsIn e)) (trace recycledState)"
    by (simp add: list_all_iff)
qed code_simp

text \<open>
  C7. A stale first read fails a launched claim: when the first read of a reconcile gives a version of the claim without
  machine and lease, and the status that it is told when it takes the lease has a machine and three
  attempts, then the reconcile writes this status back marked Failed, with the machine still in it and
  under the resource version it has just read, so that the server's check for concurrent changes passes. The machine
  id is only looked at before the lease is taken. A claim that is Failed is not looked at again.
\<close>

theorem stale_read_fails_machine:
  assumes "env_ok E" and "getClaim E key s = (Inr c, s0)" and "inLife E c"
    and "st_providerID (cl_status c) = []" and "st_lease (cl_status c) = None"
    and "acquireLease E c leasePhaseLaunching launchLeaseTimeout s0 = ((None, c1), s1)"
    and "maxLaunchAttempts \<le> st_launchAttempts (cl_status c1)" and "st_providerID (cl_status c1) = p" and "p \<noteq> []"
    and "fst (getClaim E (metaKey (cl_meta c)) s1) = Inr l" and "cl_status l = cl_status c1" and "\<not> claimFailed E l"
  shows "\<exists>d r evs. trace (snd (reconcileClaim E key s)) =
      trace s1 @ EGetClaim (metaKey (cl_meta c)) (Inr l) # EStatusClaim d r # evs \<and>
    claimFailed E d \<and> st_providerID (cl_status d) = p \<and> om_rv (cl_meta d) = om_rv (cl_meta l)"
proof -
  have ok: "conditions_ok E" using assms(1) by blast
  let ?m = "markAttemptsExceeded E (attemptsExceededMessage E c1)"
  have meta: "cl_meta c1 = cl_meta c"
    using acquireLease_just [OF assms(1) refl, of c "[]" s0 leasePhaseLaunching launchLeaseTimeout] assms(6)
    by (auto simp: just_def tspec_def)
  have failed: "claimFailed E (?m t l)" for t by (simp add: claimFailed_iff mark_failed [OF ok])
  then have "cl_status (?m t l) \<noteq> cl_status l" for t
    using assms(12) by (metis claimFailed_def findCondition_def)
  then obtain t r evs where u: "trace (snd (updateClaimStatus E c1 ?m s1)) =
      trace s1 @ EGetClaim (metaKey (cl_meta c)) (Inr l) # EStatusClaim (?m t l) r # evs"
    using update_first_attempt [OF assms(1), of c1 s1 l ?m] assms(10) meta by auto
  obtain res c2 s2 where b: "launchBody E c1 s1 = ((res, c2), s2)" by (metis prod.collapse)
  then have g: "launchGiveUp E c1 s1 = ((res, c2), s2)" using assms(7) by (simp add: launchBody_def)
  then have s2: "trace s2 = trace (snd (updateClaimStatus E c1 ?m s1))"
    by (auto simp: launchGiveUp_def split: prod.splits option.splits)
  have "res \<noteq> nextPhase" using launchGiveUp_stops [of E c1 s1] g by simp
  then have "snd (afterPhase (launchLocked E c1 s1) k) = snd (launchLocked E c1 s1)" for k
    using launchLocked_extends(1) [OF assms(1) b] by (auto simp: afterPhase_def split: prod.splits outcome.split option.split)
  moreover have "reconcileLaunch E c s0 = launchLocked E c1 s1"
    using assms(4-6) by (simp add: reconcileLaunch_def launchLeaseCheck_def)
  ultimately have "snd (reconcileClaim E key s) = snd (launchLocked E c1 s1)"
    using assms(2,3) by (simp add: reconcileClaim_def claimPhases_def inLife_def)
  then obtain evs' where "trace (snd (reconcileClaim E key s)) = trace s2 @ evs'"
    using launchLocked_extends(2) [OF assms(1) b] by auto
  then show ?thesis using s2 u failed assms(8,11)
    by (intro exI [of _ "?m t l"] exI [of _ r] exI [of _ "evs @ evs'"]) (simp add: mark_defs)
qed

text \<open>A cache that is one version behind until it is read, over a store that checks resource versions.\<close>

definition laggingEnv :: "sample env" where
  "laggingEnv = sampleEnv\<lparr>
     kGetClaim := (\<lambda>k w. case sw_claims w of [] \<Rightarrow> (Inl (apiErr NotFound), w)
        | c # cs \<Rightarrow> (Inr c, if cs = [] then w else w\<lparr>sw_claims := cs\<rparr>)),
     kStatusClaim := (\<lambda>c w. case sw_claims w of [] \<Rightarrow> (Inl (apiErr NotFound), w)
        | d # ds \<Rightarrow> (let new = c\<lparr>cl_meta := (cl_meta c)\<lparr>om_rv := ''v'' @ om_rv (cl_meta c)\<rparr>\<rparr> in
            if om_rv (cl_meta c) = om_rv (cl_meta (last (d # ds))) then (Inr new, w\<lparr>sw_claims := [new]\<rparr>)
            else (Inl (apiErr Conflict), w)))\<rparr>"

lemma laggingEnv_ok: "env_ok laggingEnv"
  using sampleEnv_ok
  by (simp add: env_ok_def conditions_ok_def finalizers_ok_def deepequal_ok_def ownerref_ok_def retry_ok_def laggingEnv_def)

text \<open>The claim as its third launch left it.\<close>

definition thirdLaunch :: claim where
  "thirdLaunch = claimA\<lparr>cl_meta := (cl_meta claimA)\<lparr>om_rv := ''2''\<rparr>,
     cl_status := (cl_status claimA)\<lparr>st_providerID := ''vm-c'', st_launchAttempts := 3\<rparr>\<rparr>"

definition staleState :: "sample st" where
  "staleState = startState ((emptyWorld 0)\<lparr>sw_claims := [claimA, thirdLaunch]\<rparr>)"

definition staleLease :: "(goerr option \<times> claim) \<times> sample st" where
  "staleLease = acquireLease laggingEnv claimA leasePhaseLaunching launchLeaseTimeout (snd (getClaim laggingEnv (''ns'', ''c'') staleState))"

theorem stale_read_fails_machine_witness:
  "\<exists>d r. EStatusClaim d r \<in> set (trace (snd (reconcileClaim laggingEnv (''ns'', ''c'') staleState))) \<and>
    claimFailed laggingEnv d \<and> st_providerID (cl_status d) = ''vm-c'' \<and> om_rv (cl_meta d) = ''v2''"
proof -
  have lease: "fst (fst staleLease) = None \<and> maxLaunchAttempts \<le> st_launchAttempts (cl_status (snd (fst staleLease))) \<and>
      st_providerID (cl_status (snd (fst staleLease))) = ''vm-c'' \<and>
      (case fst (getClaim laggingEnv (metaKey (cl_meta claimA)) (snd staleLease)) of Inl e \<Rightarrow> False
        | Inr l \<Rightarrow> cl_status l = cl_status (snd (fst staleLease)) \<and> \<not> claimFailed laggingEnv l \<and> om_rv (cl_meta l) = ''v2'')"
    by code_simp
  then obtain l where l: "fst (getClaim laggingEnv (metaKey (cl_meta claimA)) (snd staleLease)) = Inr l"
    "cl_status l = cl_status (snd (fst staleLease))" "\<not> claimFailed laggingEnv l" "om_rv (cl_meta l) = ''v2''"
    by (auto split: sum.splits)
  have read: "fst (getClaim laggingEnv (''ns'', ''c'') staleState) = Inr claimA \<and> inLife laggingEnv claimA \<and>
      st_providerID (cl_status claimA) = [] \<and> st_lease (cl_status claimA) = None" by code_simp
  obtain c1 s1 where a: "staleLease = ((None, c1), s1)" using lease by (metis prod.collapse)
  show ?thesis
    using stale_read_fails_machine [OF laggingEnv_ok, of "(''ns'', ''c'')" staleState claimA
        "snd (getClaim laggingEnv (''ns'', ''c'') staleState)" c1 s1 "''vm-c''" l] a read lease l
    unfolding staleLease_def by (force simp: prod_eq_iff)
qed

end
