(* ===== verification/Created_Claims.thy ===== *)
theory Created_Claims
  imports Pool_Safety Claim_Runs
begin

text \<open>
  Where the pool controller and the claim controller meet: what the first creates is what the second
  expects.
\<close>

text \<open>The validation rules of \<open>NodeSmithClaimSpec\<close>; a zero is left out of the object that is sent.\<close>

definition claimSpecAdmitted :: "claim_spec \<Rightarrow> bool" where
  "claimSpecAdmitted sp \<longleftrightarrow> cs_poolRef sp \<noteq> [] \<and> (case cs_requirements sp of None \<Rightarrow> True
     | Some rq \<Rightarrow> (rq_cpuCores rq \<noteq> 0 \<longrightarrow> 0 < rq_cpuCores rq) \<and> (rq_memoryMiB rq \<noteq> 0 \<longrightarrow> 0 < rq_memoryMiB rq))"

text \<open>Requests up to 2^52 milli-cores and bytes.\<close>

definition sanePods :: "pod list \<Rightarrow> bool" where
  "sanePods pods \<longleftrightarrow> list_all (\<lambda>p. saneAmount (fst (getRequestedResources p)) \<and> saneAmount (snd (getRequestedResources p))) pods"

lemma filterLoop_subset: "filterLoop pl labels ps = Ret qs \<Longrightarrow> set qs \<subseteq> set ps"
  by (induction ps arbitrary: qs) (auto split: outcome.splits prod.splits if_splits)

lemma planned_sizes:
  assumes "sanePods pods" and "filterPodsForPool pods pl = Ret cands"
    and "scaleUpPlan E pl cands nodes s = (Inr (claims, specs), s1)"
    and "saneCapacity (determineNodeCapacity (pl_name pl) nodes claims cands)" and "r \<in> set specs"
  shows "0 < cr_cpuCores r \<and> 0 < cr_memoryMiB r"
proof -
  let ?t = "determineNodeCapacity (pl_name pl) nodes claims cands"
  obtain buckets where "r \<in> set (planCapacity cands buckets ?t)" "cap_cpuMilli ?t \<noteq> 0" "cap_memBytes ?t \<noteq> 0"
    using assms(3,5) by (auto simp: scaleUpPlan_def Let_def split: prod.splits sum.splits if_splits)
  moreover have "sanePods cands"
    using assms(1) filterLoop_subset [OF assms(2) [unfolded filterPodsForPool_def]] by (auto simp: sanePods_def list_all_iff)
  ultimately show ?thesis
    using planCapacity_sizes [OF assms(4), of cands r buckets] assms(4) by (auto simp: sanePods_def saneCapacity_def saneAmount_def)
qed

lemma subseq_set: "subseq xs ys \<Longrightarrow> set xs \<subseteq> set ys"
  by (metis notin_set_nthsI subseq_conv_nths subsetI)

text \<open>
  C5. The claims that a scale-up creates are what the claim controller expects: they pass the
  validation of the schema, ask for at least one core and one MiB, name the pool whose key the claim
  controller looks up, and start the life of a claim, pending and with no launch tried; and whatever
  happens to them later, no reconcile of a claim with this spec panics.
\<close>

theorem created_claims_start:
  assumes "env_ok E" and "\<And>ty. libFind E [] ty = None" and "pl_name pl \<noteq> []" and "sanePods pods"
    and "trace (snd (reconcileScaleUp E pl pods nodes s)) = trace s @ evs" and "c \<in> set (createdClaims evs)"
    and "\<And>claims cands. EListClaims (om_namespace (pl_meta pl)) (Inr claims) \<in> set evs \<Longrightarrow>
      filterPodsForPool pods pl = Ret cands \<Longrightarrow> saneCapacity (determineNodeCapacity (pl_name pl) nodes claims cands)"
  shows "claimSpecAdmitted (cl_spec c) \<and> 0 < cr_cpuCores (resourcesOf c) \<and> 0 < cr_memoryMiB (resourcesOf c) \<and>
    (om_namespace (cl_meta c), cs_poolRef (cl_spec c)) = metaKey (pl_meta pl) \<and> freshClaim E c \<and> viewOf E c = Pending 0 \<and>
    (\<forall>key s1 c' s2 m. getClaim E key s1 = (Inr c', s2) \<and> cl_spec c' = cl_spec c \<longrightarrow> fst (reconcileClaim E key s1) \<noteq> Panic m)"
proof -
  obtain cands claims specs s1 where run: "filterPodsForPool pods pl = Ret cands"
    "scaleUpPlan E pl cands nodes s = (Inr (claims, specs), s1)"
    "EListClaims (om_namespace (pl_meta pl)) (Inr claims) \<in> set evs" "planned pl specs evs"
    using reconcileScaleUp_log [OF assms(1), of s pl pods nodes] assms(5,6) unfolding tspec_def by fastforce
  have "set (map asPlanned (createdClaims evs)) \<subseteq> set (plannedClaims pl (startSequence pl) specs)"
    using run(4) by (intro subseq_set) (simp add: planned_def)
  then have c: "claimOfPool pl c" "asPlanned c \<in> set (plannedClaims pl (startSequence pl) specs)"
    using run(4) assms(6) by (auto simp: planned_def list_all_iff)
  have "resourcesOf c \<in> set (map snd (plannedClaims pl (startSequence pl) specs))"
    unfolding set_map by (rule rev_image_eqI [OF c(2)]) simp
  then have size: "0 < cr_cpuCores (resourcesOf c) \<and> 0 < cr_memoryMiB (resourcesOf c)"
    using planned_sizes [OF assms(4) run(1,2) assms(7) [OF run(3,1)]] by simp
  then have "claimSpecAdmitted (cl_spec c)"
    using c(1) assms(3) by (auto simp: claimSpecAdmitted_def claimOfPool_def resourcesOf_def)
  moreover have "fst (reconcileClaim E key s1) \<noteq> Panic m"
    if "getClaim E key s1 = (Inr c', s2)" "cl_spec c' = cl_spec c" for key s1 c' s2 m
    using reconcile_panics [of E key s1 m] that c(1) by (auto simp: claimOfPool_def)
  ultimately show ?thesis using size c(1) assms(2)
    by (auto simp: claimOfPool_def freshClaim_def viewOf_def condTrue_def findCondition_def metaKey_def)
qed

theorem created_claims_start_witness:
  "\<exists>c. createdClaims (trace (snd scaleUpRun)) = [c] \<and> claimSpecAdmitted (cl_spec c) \<and> freshClaim sampleEnv c \<and>
     0 < cr_cpuCores (resourcesOf c) \<and> 0 < cr_memoryMiB (resourcesOf c)"
proof -
  let ?s = "startState ((emptyWorld 0)\<lparr>sw_pools := [samplePool]\<rparr>)"
  obtain c where c: "createdClaims (trace (snd scaleUpRun)) = [c]"
    using scaleUpRun_creates by (auto simp: map_eq_Cons_conv)
  have lists: "list_all (\<lambda>e. case e of EListClaims ns (Inr claims) \<Rightarrow> claims = [] | _ \<Rightarrow> True) (trace (snd scaleUpRun))"
    by code_simp
  have "sanePods onePod" by code_simp
  moreover have "trace (snd scaleUpRun) = trace ?s @ trace (snd scaleUpRun)" by (simp add: startState_def)
  moreover have "\<And>ty. libFind sampleEnv [] ty = None" by (simp add: sampleEnv_def findCond_def)
  moreover have "pl_name samplePool \<noteq> []" by (simp add: samplePool_def sampleMeta_def)
  moreover have "saneCapacity (determineNodeCapacity (pl_name samplePool) [] claims cands)"
    if "EListClaims (om_namespace (pl_meta samplePool)) (Inr claims) \<in> set (trace (snd scaleUpRun))"
      and "filterPodsForPool onePod samplePool = Ret cands" for claims cands
  proof -
    have "filterPodsForPool onePod samplePool = Ret onePod" by code_simp
    moreover have "claims = []" using lists that(1) by (auto simp: list_all_iff)
    moreover have "saneCapacity (determineNodeCapacity (pl_name samplePool) [] [] onePod)" by code_simp
    ultimately show ?thesis using that(2) by simp
  qed
  ultimately show ?thesis
    using created_claims_start [OF sampleEnv_ok, of samplePool onePod "[]" ?s "trace (snd scaleUpRun)" c] c by simp
qed

end
