(* ===== verification/Go_Heap.thy ===== *)
theory Go_Heap
  imports KNS_Prelude
begin

text \<open>
  Go memory, as far as the generated \<open>DeepCopy\<close> functions need it: addresses, allocation, and the
  contract of a copy function. A cell holds what a pointer, a slice or a map refers to; a slice is the
  address of its elements. The contract is the locale \<open>copier\<close>: a copy has the value of the
  original, leaves the memory that was there alone, and reaches only new memory, but for what it shares.
  Copiers are built from copiers like the Go types are, by pointers, lists, pairs and records.
\<close>

section \<open>Memory\<close>

type_synonym addr = nat

record 'c heap =
  mem :: "addr \<Rightarrow> 'c"
  lim :: addr

definition new :: "'c \<Rightarrow> 'c heap \<Rightarrow> addr \<times> 'c heap" where
  "new c h = (lim h, \<lparr>mem = (mem h)(lim h := c), lim = lim h + 1\<rparr>)"

definition store :: "addr \<Rightarrow> 'c \<Rightarrow> 'c heap \<Rightarrow> 'c heap" where
  "store a c h = h\<lparr>mem := (mem h)(a := c)\<rparr>"

lemma store_sel [simp]: "mem (store a c h) = (mem h)(a := c)" "lim (store a c h) = lim h"
  by (simp_all add: store_def)

text \<open>The memory that was there is still there.\<close>

definition extends :: "'c heap \<Rightarrow> 'c heap \<Rightarrow> bool" where
  "extends h h' \<longleftrightarrow> lim h \<le> lim h' \<and> (\<forall>a < lim h. mem h' a = mem h a)"

lemma extends_refl [simp, intro]: "extends h h"
  by (simp add: extends_def)

lemma extends_trans: "extends h h1 \<Longrightarrow> extends h1 h2 \<Longrightarrow> extends h h2"
  by (auto simp: extends_def)

lemma extends_lim: "extends h h' \<Longrightarrow> lim h \<le> lim h'"
  by (simp add: extends_def)

lemma new_extends: "new c h = (a, h') \<Longrightarrow> extends h h' \<and> a = lim h \<and> lim h' = lim h + 1 \<and> mem h' a = c"
  by (auto simp: new_def extends_def)

section \<open>The contract of a copy\<close>

text \<open>
  A copy function with what its specification speaks of: the value that a struct stands for in a heap,
  that its pointers are typed and allocated, the addresses it reaches, and those its copy shares with it.
\<close>

record ('x, 'v, 'c) copy_ops =
  co_copy :: "'x \<Rightarrow> 'c heap \<Rightarrow> 'x \<times> 'c heap"
  co_val :: "'c heap \<Rightarrow> 'x \<Rightarrow> 'v"
  co_ok :: "'c heap \<Rightarrow> 'x \<Rightarrow> bool"
  co_reach :: "'c heap \<Rightarrow> 'x \<Rightarrow> addr set"
  co_shared :: "'c heap \<Rightarrow> 'x \<Rightarrow> addr set"

definition stays :: "('x, 'v, 'c) copy_ops \<Rightarrow> 'c heap \<Rightarrow> 'c heap \<Rightarrow> 'x \<Rightarrow> bool" where
  "stays K h h' x \<longleftrightarrow> co_ok K h' x \<and> co_val K h' x = co_val K h x \<and> co_reach K h' x = co_reach K h x \<and> co_shared K h' x = co_shared K h x"

definition agree :: "addr set \<Rightarrow> 'c heap \<Rightarrow> 'c heap \<Rightarrow> bool" where
  "agree A h h' \<longleftrightarrow> lim h \<le> lim h' \<and> (\<forall>a \<in> A. mem h' a = mem h a)"

lemma agree_subset: "agree A h h' \<Longrightarrow> B \<subseteq> A \<Longrightarrow> agree B h h'"
  by (auto simp: agree_def)

lemma agree_extends: "extends h h' \<Longrightarrow> A \<subseteq> {..<lim h} \<Longrightarrow> agree A h h'"
  by (auto simp: agree_def extends_def)

definition copies :: "('x, 'v, 'c) copy_ops \<Rightarrow> 'x \<Rightarrow> 'c heap \<Rightarrow> 'x \<Rightarrow> 'c heap \<Rightarrow> bool" where
  "copies K x h y h' \<longleftrightarrow> extends h h' \<and> co_ok K h' y \<and> co_val K h' y = co_val K h x \<and>
     co_reach K h' y \<subseteq> {lim h..<lim h'} \<union> co_shared K h x"

locale copier =
  fixes K :: "('x, 'v, 'c) copy_ops"
  assumes reach_lim: "co_ok K h x \<Longrightarrow> co_reach K h x \<subseteq> {..<lim h}"
    and shared_reach: "co_ok K h x \<Longrightarrow> co_shared K h x \<subseteq> co_reach K h x"
    and frame: "co_ok K h x \<Longrightarrow> agree (co_reach K h x) h h' \<Longrightarrow> stays K h h' x"
    and copied: "co_ok K h x \<Longrightarrow> co_copy K x h = (y, h') \<Longrightarrow> copies K x h y h'"
begin

lemma in_ext: "co_ok K h x \<Longrightarrow> extends h h' \<Longrightarrow> stays K h h' x"
  using frame agree_extends reach_lim by blast

end

text \<open>A deep copy shares nothing; then writes through either one cannot be seen through the other.\<close>

locale deep_copier = copier K for K :: "('x, 'v, 'c) copy_ops" +
  assumes shares_nothing: "co_ok K h x \<Longrightarrow> co_shared K h x = {}"
begin

lemma copy_fresh: "co_ok K h x \<Longrightarrow> co_copy K x h = (y, h') \<Longrightarrow> co_reach K h' y \<subseteq> {lim h..<lim h'}"
  using copied [of h x y h'] shares_nothing [of h x] by (simp add: copies_def)

lemma separate:
  assumes "co_ok K h x" and "co_copy K x h = (y, h')"
  shows "co_reach K h' y \<inter> co_reach K h' x = {}"
    and "agree (- co_reach K h' y) h' h2 \<Longrightarrow> co_val K h2 x = co_val K h x"
    and "agree (- co_reach K h' x) h' h2 \<Longrightarrow> co_val K h2 y = co_val K h x"
proof -
  have c: "extends h h'" "co_ok K h' y" "co_val K h' y = co_val K h x" and f: "co_reach K h' y \<subseteq> {lim h..<lim h'}"
    using copied [OF assms] copy_fresh [OF assms] by (simp_all add: copies_def)
  have x: "co_reach K h' x = co_reach K h x" "co_ok K h' x" "co_val K h' x = co_val K h x"
    using in_ext [OF assms(1) c(1)] by (simp_all add: stays_def)
  show d: "co_reach K h' y \<inter> co_reach K h' x = {}" using f reach_lim [OF assms(1)] x(1) by fastforce
  then have "co_reach K h' x \<subseteq> - co_reach K h' y" "co_reach K h' y \<subseteq> - co_reach K h' x" by blast+
  then show "agree (- co_reach K h' y) h' h2 \<Longrightarrow> co_val K h2 x = co_val K h x"
    "agree (- co_reach K h' x) h' h2 \<Longrightarrow> co_val K h2 y = co_val K h x"
    using frame [OF x(2)] frame [OF c(2)] agree_subset x(3) c(3) unfolding stays_def by metis+
qed

end

section \<open>Copiers from copiers\<close>

text \<open>A type without pointers: the assignment \<open>*out = *in\<close> copies it.\<close>

definition flatC :: "('x, 'x, 'c) copy_ops" where
  "flatC = \<lparr>co_copy = Pair, co_val = (\<lambda>h x. x), co_ok = (\<lambda>h x. True), co_reach = (\<lambda>h x. {}), co_shared = (\<lambda>h x. {})\<rparr>"

text \<open>
  A pointer, nil or to a new cell with a copy of what it points to. A cell is written when its contents
  are complete, so that the new cell comes after those of its contents; no program sees the difference.
\<close>

fun copyPtr :: "('x \<Rightarrow> 'c) \<Rightarrow> ('c \<Rightarrow> 'x) \<Rightarrow> ('x \<Rightarrow> 'c heap \<Rightarrow> 'x \<times> 'c heap) \<Rightarrow> addr option \<Rightarrow> 'c heap \<Rightarrow> addr option \<times> 'c heap" where
  "copyPtr box unbox f None h = (None, h)"
| "copyPtr box unbox f (Some a) h = (case f (unbox (mem h a)) h of (v, h1) \<Rightarrow> (case new (box v) h1 of (b, h2) \<Rightarrow> (Some b, h2)))"

definition ptrC :: "('x \<Rightarrow> 'c) \<Rightarrow> ('c \<Rightarrow> 'x) \<Rightarrow> ('x, 'v, 'c) copy_ops \<Rightarrow> (addr option, 'v option, 'c) copy_ops" where
  "ptrC box unbox K = \<lparr>co_copy = copyPtr box unbox (co_copy K),
     co_val = (\<lambda>h p. map_option (\<lambda>a. co_val K h (unbox (mem h a))) p),
     co_ok = (\<lambda>h p. case p of None \<Rightarrow> True | Some a \<Rightarrow> a < lim h \<and> box (unbox (mem h a)) = mem h a \<and> co_ok K h (unbox (mem h a))),
     co_reach = (\<lambda>h p. case p of None \<Rightarrow> {} | Some a \<Rightarrow> insert a (co_reach K h (unbox (mem h a)))),
     co_shared = (\<lambda>h p. case p of None \<Rightarrow> {} | Some a \<Rightarrow> co_shared K h (unbox (mem h a)))\<rparr>"

text \<open>The elements of a slice or the entries of a map, one after the other.\<close>

fun copyElems :: "('x \<Rightarrow> 'c heap \<Rightarrow> 'x \<times> 'c heap) \<Rightarrow> 'x list \<Rightarrow> 'c heap \<Rightarrow> 'x list \<times> 'c heap" where
  "copyElems f [] h = ([], h)"
| "copyElems f (x # xs) h = (case f x h of (y, h1) \<Rightarrow> (case copyElems f xs h1 of (ys, h2) \<Rightarrow> (y # ys, h2)))"

definition elemsC :: "('x, 'v, 'c) copy_ops \<Rightarrow> ('x list, 'v list, 'c) copy_ops" where
  "elemsC K = \<lparr>co_copy = copyElems (co_copy K), co_val = (\<lambda>h. map (co_val K h)), co_ok = (\<lambda>h. list_all (co_ok K h)),
     co_reach = (\<lambda>h xs. \<Union>x \<in> set xs. co_reach K h x), co_shared = (\<lambda>h xs. \<Union>x \<in> set xs. co_shared K h x)\<rparr>"

definition pairC :: "('x, 'v, 'c) copy_ops \<Rightarrow> ('y, 'w, 'c) copy_ops \<Rightarrow> ('x \<times> 'y, 'v \<times> 'w, 'c) copy_ops" where
  "pairC K J = \<lparr>co_copy = (\<lambda>p h. case co_copy K (fst p) h of (x, h1) \<Rightarrow> (case co_copy J (snd p) h1 of (y, h2) \<Rightarrow> ((x, y), h2))),
     co_val = (\<lambda>h p. (co_val K h (fst p), co_val J h (snd p))), co_ok = (\<lambda>h p. co_ok K h (fst p) \<and> co_ok J h (snd p)),
     co_reach = (\<lambda>h p. co_reach K h (fst p) \<union> co_reach J h (snd p)),
     co_shared = (\<lambda>h p. co_shared K h (fst p) \<union> co_shared J h (snd p))\<rparr>"

text \<open>A record with copied fields \<open>get\<close>, the others staying as \<open>*out = *in\<close> left them.\<close>

definition recordC :: "('s \<Rightarrow> 'x) \<Rightarrow> ('x \<Rightarrow> 's \<Rightarrow> 's) \<Rightarrow> ('s \<Rightarrow> 'v \<Rightarrow> 'w) \<Rightarrow> ('x, 'v, 'c) copy_ops \<Rightarrow> ('s, 'w, 'c) copy_ops" where
  "recordC get put mk K = \<lparr>co_copy = (\<lambda>s h. case co_copy K (get s) h of (x, h1) \<Rightarrow> (put x s, h1)),
     co_val = (\<lambda>h s. mk s (co_val K h (get s))), co_ok = (\<lambda>h s. co_ok K h (get s)),
     co_reach = (\<lambda>h s. co_reach K h (get s)), co_shared = (\<lambda>h s. co_shared K h (get s))\<rparr>"

text \<open>A pointer that \<open>*out = *in\<close> copies and nothing replaces: the cell is shared.\<close>

definition aliasC :: "('x \<Rightarrow> 'c) \<Rightarrow> ('c \<Rightarrow> 'x) \<Rightarrow> (addr option, 'x option, 'c) copy_ops" where
  "aliasC box unbox = \<lparr>co_copy = Pair, co_val = (\<lambda>h p. map_option (\<lambda>a. unbox (mem h a)) p),
     co_ok = (\<lambda>h p. case p of None \<Rightarrow> True | Some a \<Rightarrow> a < lim h \<and> box (unbox (mem h a)) = mem h a),
     co_reach = (\<lambda>h p. set_option p), co_shared = (\<lambda>h p. set_option p)\<rparr>"

lemma flat_copier: "copier flatC"
  by unfold_locales (auto simp: flatC_def stays_def copies_def)

lemma alias_copier: "copier (aliasC box unbox)"
  by unfold_locales (auto simp: aliasC_def stays_def copies_def agree_def split: option.splits)

lemma ptr_copier:
  fixes K :: "('x, 'v, 'c) copy_ops"
  assumes K: "copier K" and box: "\<And>x. unbox (box x) = x"
  shows "copier (ptrC box unbox K)"
proof
  fix h :: "'c heap" and p y and h' :: "'c heap"
  assume ok: "co_ok (ptrC box unbox K) h p"
  then show "co_reach (ptrC box unbox K) h p \<subseteq> {..<lim h}" "co_shared (ptrC box unbox K) h p \<subseteq> co_reach (ptrC box unbox K) h p"
    using copier.reach_lim [OF K, of h] copier.shared_reach [OF K, of h] by (auto simp: ptrC_def split: option.splits)
  show "stays (ptrC box unbox K) h h' p" if "agree (co_reach (ptrC box unbox K) h p) h h'"
    using that ok copier.frame [OF K, of h _ h'] by (auto simp: ptrC_def stays_def agree_def split: option.splits)
  assume run: "co_copy (ptrC box unbox K) p h = (y, h')"
  show "copies (ptrC box unbox K) p h y h'"
  proof (cases p)
    case (Some a)
    let ?x = "unbox (mem h a)"
    obtain v h1 where v: "co_copy K ?x h = (v, h1)" by fastforce
    obtain b where b: "new (box v) h1 = (b, h')" "y = Some b" using run Some v by (auto simp: ptrC_def split: prod.splits)
    have "co_ok K h ?x" using ok Some by (simp add: ptrC_def)
    note c = copier.copied [OF K this v, unfolded copies_def] and n = new_extends [OF b(1)]
    have "extends h h'" "lim h \<le> b" "b < lim h'" using c n extends_trans by (auto simp: extends_def)
    moreover have "stays K h1 h' v" using copier.in_ext [OF K] c n by blast
    ultimately show ?thesis using c n box b(2) Some by (auto simp: ptrC_def copies_def stays_def)
  qed (use run in \<open>simp add: ptrC_def copies_def\<close>)
qed

lemma elems_copied:
  assumes K: "copier K"
  shows "list_all (co_ok K h) xs \<Longrightarrow> copyElems (co_copy K) xs h = (ys, h') \<Longrightarrow> copies (elemsC K) xs h ys h'"
proof (induction xs arbitrary: h ys)
  case (Cons x xs)
  obtain y h1 where y: "co_copy K x h = (y, h1)" by fastforce
  obtain zs where zs: "copyElems (co_copy K) xs h1 = (zs, h')" "ys = y # zs"
    using Cons.prems(2) y by (auto split: prod.splits)
  have "co_ok K h x" and xs: "list_all (co_ok K h) xs" using Cons.prems(1) by simp_all
  note c = copier.copied [OF K this(1) y, unfolded copies_def]
  have st: "stays K h h1 z" if "z \<in> set xs" for z
    using copier.in_ext [OF K, of h z h1] xs c that by (auto simp: list_all_iff)
  then have "list_all (co_ok K h1) xs" by (simp add: list_all_iff stays_def)
  note d = Cons.IH [OF this zs(1), unfolded copies_def]
  have v: "stays K h1 h' y" using copier.in_ext [OF K] c d by blast
  have l: "lim h \<le> lim h1" "lim h1 \<le> lim h'" "extends h h'" using c d extends_lim extends_trans by blast+
  have "map (co_val K h1) xs = map (co_val K h) xs" "(\<Union>x \<in> set xs. co_shared K h1 x) = (\<Union>x \<in> set xs. co_shared K h x)"
    using st by (simp_all add: stays_def)
  moreover have "co_reach K h' y \<subseteq> {lim h..<lim h'} \<union> co_shared K h x" using c v l unfolding stays_def by fastforce
  moreover have "(\<Union>y \<in> set zs. co_reach K h' y) \<subseteq> {lim h..<lim h'} \<union> (\<Union>x \<in> set xs. co_shared K h1 x)"
    using d l by (fastforce simp: elemsC_def)
  ultimately show ?case using zs(2) c d v l(3) by (auto simp: copies_def elemsC_def stays_def)
qed (simp add: copies_def elemsC_def)

lemma elems_copier:
  fixes K :: "('x, 'v, 'c) copy_ops"
  assumes K: "copier K"
  shows "copier (elemsC K)"
proof
  fix h :: "'c heap" and xs ys :: "'x list" and h' :: "'c heap"
  assume ok: "co_ok (elemsC K) h xs"
  then have all: "co_ok K h x" if "x \<in> set xs" for x using that by (simp add: elemsC_def list_all_iff)
  show "co_reach (elemsC K) h xs \<subseteq> {..<lim h}" "co_shared (elemsC K) h xs \<subseteq> co_reach (elemsC K) h xs"
    using copier.reach_lim [OF K all] copier.shared_reach [OF K all] by (auto simp: elemsC_def) blast+
  show "stays (elemsC K) h h' xs" if same: "agree (co_reach (elemsC K) h xs) h h'"
  proof -
    have "stays K h h' x" if "x \<in> set xs" for x
      by (rule copier.frame [OF K all [OF that] agree_subset [OF same]]) (use that in \<open>auto simp: elemsC_def\<close>)
    then show ?thesis by (simp add: elemsC_def stays_def list_all_iff)
  qed
  show "co_copy (elemsC K) xs h = (ys, h') \<Longrightarrow> copies (elemsC K) xs h ys h'"
    using elems_copied [OF K] ok by (simp add: elemsC_def)
qed

lemma pair_copier:
  fixes K :: "('x, 'v, 'c) copy_ops" and J :: "('y, 'w, 'c) copy_ops"
  assumes K: "copier K" and J: "copier J"
  shows "copier (pairC K J)"
proof
  fix h :: "'c heap" and p q and h' :: "'c heap"
  assume ok: "co_ok (pairC K J) h p"
  then have ok1: "co_ok K h (fst p)" "co_ok J h (snd p)" by (simp_all add: pairC_def)
  show "co_reach (pairC K J) h p \<subseteq> {..<lim h}" "co_shared (pairC K J) h p \<subseteq> co_reach (pairC K J) h p"
    using copier.reach_lim [OF K ok1(1)] copier.reach_lim [OF J ok1(2)]
      copier.shared_reach [OF K ok1(1)] copier.shared_reach [OF J ok1(2)] by (auto simp: pairC_def)
  show "stays (pairC K J) h h' p" if same: "agree (co_reach (pairC K J) h p) h h'"
    using copier.frame [OF K ok1(1) agree_subset [OF same]] copier.frame [OF J ok1(2) agree_subset [OF same]]
    by (simp add: pairC_def stays_def)
  assume run: "co_copy (pairC K J) p h = (q, h')"
  obtain x h1 where x: "co_copy K (fst p) h = (x, h1)" by fastforce
  obtain y where y: "co_copy J (snd p) h1 = (y, h')" "q = (x, y)" using run x by (auto simp: pairC_def split: prod.splits)
  note c = copier.copied [OF K ok1(1) x, unfolded copies_def]
  have e: "stays J h h1 (snd p)" using copier.in_ext [OF J ok1(2)] c by blast
  then have "co_ok J h1 (snd p)" by (simp add: stays_def)
  note d = copier.copied [OF J this y(1), unfolded copies_def]
  have v: "stays K h1 h' x" using copier.in_ext [OF K] c d by blast
  have l: "lim h \<le> lim h1" "lim h1 \<le> lim h'" "extends h h'" using c d extends_lim extends_trans by blast+
  have "co_reach K h' x \<subseteq> {lim h..<lim h'} \<union> co_shared K h (fst p)" using c v l unfolding stays_def by fastforce
  moreover have "co_reach J h' y \<subseteq> {lim h..<lim h'} \<union> co_shared J h (snd p)" using d e l unfolding stays_def by fastforce
  ultimately show "copies (pairC K J) p h q h'"
    using c d e v l(3) y(2) by (auto simp: pairC_def copies_def stays_def)
qed

lemma record_copier:
  fixes K :: "('x, 'v, 'c) copy_ops"
  assumes K: "copier K" and put: "\<And>x s. get (put x s) = x" "\<And>x s v. mk (put x s) v = mk s v"
  shows "copier (recordC get put mk K)"
proof
  fix h :: "'c heap" and s t and h' :: "'c heap"
  assume "co_ok (recordC get put mk K) h s"
  then have ok: "co_ok K h (get s)" by (simp add: recordC_def)
  show "co_reach (recordC get put mk K) h s \<subseteq> {..<lim h}"
    "co_shared (recordC get put mk K) h s \<subseteq> co_reach (recordC get put mk K) h s"
    using copier.reach_lim [OF K ok] copier.shared_reach [OF K ok] by (simp_all add: recordC_def)
  show "agree (co_reach (recordC get put mk K) h s) h h' \<Longrightarrow> stays (recordC get put mk K) h h' s"
    using copier.frame [OF K ok] by (simp add: recordC_def stays_def)
  show "co_copy (recordC get put mk K) s h = (t, h') \<Longrightarrow> copies (recordC get put mk K) s h t h'"
    using copier.copied [OF K ok] by (auto simp: recordC_def copies_def put split: prod.splits)
qed

text \<open>What is built of what shares nothing shares nothing.\<close>

lemma deepI: "copier K \<Longrightarrow> (\<And>h x. co_ok K h x \<Longrightarrow> co_shared K h x = {}) \<Longrightarrow> deep_copier K"
  by (simp add: deep_copier_def deep_copier_axioms_def)

lemma deepD: "deep_copier K \<Longrightarrow> copier K" "deep_copier K \<Longrightarrow> co_ok K h x \<Longrightarrow> co_shared K h x = {}"
  by (simp_all add: deep_copier_def deep_copier_axioms_def)

lemma flat_deep: "deep_copier flatC"
  by (intro deepI flat_copier) (simp add: flatC_def)

lemma ptr_deep: "deep_copier K \<Longrightarrow> (\<And>x. unbox (box x) = x) \<Longrightarrow> deep_copier (ptrC box unbox K)"
  by (rule deepI [OF ptr_copier [OF deepD(1)]]; simp add: ptrC_def deepD(2) split: option.splits)

lemma elems_deep: "deep_copier K \<Longrightarrow> deep_copier (elemsC K)"
  by (rule deepI [OF elems_copier [OF deepD(1)]]; simp add: elemsC_def list_all_iff deepD(2))

lemma pair_deep: "deep_copier K \<Longrightarrow> deep_copier J \<Longrightarrow> deep_copier (pairC K J)"
  by (rule deepI [OF pair_copier [OF deepD(1) deepD(1)]]; simp add: pairC_def deepD(2))

lemma record_deep:
  "deep_copier K \<Longrightarrow> (\<And>x s. get (put x s) = x) \<Longrightarrow> (\<And>x s v. mk (put x s) v = mk s v) \<Longrightarrow> deep_copier (recordC get put mk K)"
  by (rule deepI [OF record_copier [OF deepD(1)]]; simp add: recordC_def deepD(2))

end
