(* ===== verification/Deep_Copy.thy ===== *)
theory Deep_Copy
  imports Go_Heap Api_Types
begin

text \<open>
  The generated \<open>DeepCopyInto\<close>, \<open>DeepCopy\<close> and \<open>DeepCopyObject\<close> methods of
  \<open>api/v1alpha1/zz_generated.deepcopy.go\<close>, on structs that hold addresses where the Go structs hold
  pointers, slices and maps (prefix \<open>h_\<close>), and what they copy. The deep copies of the library types
  (\<open>ObjectMeta\<close>, \<open>ListMeta\<close>, \<open>JSON\<close>, \<open>RawExtension\<close>) are parameters; \<open>Condition\<close>,
  \<open>Time\<close> and \<open>Duration\<close> hold no memory of their own. A map is the list of its entries, and
  \<open>TypeMeta\<close> is left out as in \<open>Api_Types\<close>.
\<close>

section \<open>Structs in memory\<close>

record h_owner =
  how_kind :: string
  how_name :: string
  how_controller :: "addr option"

record h_meta =
  hm_name :: string
  hm_namespace :: string
  hm_labels :: "addr option"
  hm_annotations :: "addr option"
  hm_finalizers :: "addr option"
  hm_deletion :: "addr option"
  hm_creation :: time
  hm_generation :: int
  hm_rv :: string
  hm_owners :: "addr option"

record h_listmeta =
  hlm_rv :: string
  hlm_remaining :: "addr option"

record h_raw =
  hr_raw :: "addr option"

record h_template =
  ht_labels :: "addr option"

record h_claim_spec =
  hcs_poolRef :: string
  hcs_requirements :: "addr option"
  hcs_idempotencyKey :: string
  hcs_terminationGracePeriod :: "addr option"

record h_claim_status =
  hst_conditions :: "addr option"
  hst_providerID :: string
  hst_nodeName :: string
  hst_providerRef :: string
  hst_launchAttempts :: int
  hst_lease :: "addr option"

record h_claim =
  hcl_meta :: h_meta
  hcl_spec :: h_claim_spec
  hcl_status :: h_claim_status

record h_policy =
  hsp_stabilizationWindow :: "addr option"

record h_pool_spec =
  hps_providerRef :: string
  hps_poolLabelKey :: string
  hps_limits :: pool_limits
  hps_machineTemplate :: h_template
  hps_scaleUp :: "addr option"
  hps_scaleDown :: "addr option"

record h_pool_status =
  hpst_conditions :: "addr option"
  hpst_observedGeneration :: int
  hpst_lastScaleActivity :: "addr option"
  hpst_nextClaimSequence :: int

record h_pool =
  hpl_meta :: h_meta
  hpl_spec :: h_pool_spec
  hpl_status :: h_pool_status

record h_option =
  ho_name :: string
  ho_value :: h_raw

record h_proxmox =
  hpx_endpoint :: string
  hpx_nodeWhitelist :: "addr option"
  hpx_vmIDRange :: "addr option"
  hpx_managedNodeTag :: string
  hpx_vmMemOverheadMiB :: int
  hpx_networkInterfaces :: "addr option"
  hpx_vmOptions :: "addr option"

record h_provider_spec =
  hpv_type :: string
  hpv_credentialsSecretRef :: "addr option"
  hpv_proxmox :: "addr option"
  hpv_additionalSettings :: "addr option"

record h_provider_status =
  hpvs_conditions :: "addr option"
  hpvs_observedGeneration :: int

record h_provider =
  hpo_meta :: h_meta
  hpo_spec :: h_provider_spec
  hpo_status :: h_provider_status

record h_cp_spec =
  hcp_pools :: "addr option"

record h_cp_status =
  hcps_conditions :: "addr option"
  hcps_observedGeneration :: int
  hcps_lastSyncTime :: "addr option"

record h_cp =
  hcp_meta :: h_meta
  hcp_spec :: h_cp_spec
  hcp_status :: h_cp_status

text \<open>The four list types have the same fields; the cell of the items tells them apart.\<close>

record h_list =
  hl_meta :: h_listmeta
  hl_items :: "addr option"

datatype cell =
    CMap (cMap: gomap) | CStrings (cStrings: "string list") | CBytes (cBytes: string) | CTime (cTime: time)
  | CDuration (cDuration: duration) | CBool (cBool: bool) | CInt (cInt: int) | COwners (cOwners: "h_owner list")
  | CConds (cConds: "condition list") | CReq (cReq: claim_requirements) | CLease (cLease: claim_lease)
  | CSecretRef (cSecretRef: secret_ref) | CRange (cRange: vmid_range_spec) | CNic (cNic: proxmox_nic) | CNics (cNics: "proxmox_nic list")
  | COption (cOption: h_option) | COptions (cOptions: "h_option list") | CProxmox (cProxmox: h_proxmox) | CRaws (cRaws: "(string \<times> h_raw) list")
  | CTemplate (cTemplate: h_template) | CLimits (cLimits: pool_limits) | CPolicy (cPolicy: h_policy)
  | CClaimSpec (cClaimSpec: h_claim_spec) | CClaimStatus (cClaimStatus: h_claim_status) | CClaim (cClaim: h_claim) | CClaims (cClaims: "h_claim list")
  | CPoolSpec (cPoolSpec: h_pool_spec) | CPoolStatus (cPoolStatus: h_pool_status) | CPool (cPool: h_pool) | CPools (cPools: "h_pool list")
  | CProviderSpec (cProviderSpec: h_provider_spec) | CProviderStatus (cProviderStatus: h_provider_status)
  | CProvider (cProvider: h_provider) | CProviders (cProviders: "h_provider list")
  | CCPSpec (cCPSpec: h_cp_spec) | CCPStatus (cCPStatus: h_cp_status) | CCP (cCP: h_cp) | CCPs (cCPs: "h_cp list")
  | CList (cList: h_list)

type_synonym memory = "cell heap"

text \<open>The deep copies of the library's types.\<close>

record copylib =
  lib_meta :: "h_meta \<Rightarrow> memory \<Rightarrow> h_meta \<times> memory"
  lib_listmeta :: "h_listmeta \<Rightarrow> memory \<Rightarrow> h_listmeta \<times> memory"
  lib_json :: "h_raw \<Rightarrow> memory \<Rightarrow> h_raw \<times> memory"
  lib_raw :: "h_raw \<Rightarrow> memory \<Rightarrow> h_raw \<times> memory"
  lib_cond :: "condition \<Rightarrow> condition"
  lib_time :: "time \<Rightarrow> time"

section \<open>The generated methods\<close>

text \<open>What the generated blocks do with a field: a slice or map of plain values, conditions, a time.\<close>

abbreviation copyStrings :: "addr option \<Rightarrow> memory \<Rightarrow> addr option \<times> memory" where
  "copyStrings \<equiv> copyPtr CStrings cStrings (copyElems Pair)"

abbreviation copyMap :: "addr option \<Rightarrow> memory \<Rightarrow> addr option \<times> memory" where
  "copyMap \<equiv> copyPtr CMap cMap (copyElems Pair)"

abbreviation copyConds :: "copylib \<Rightarrow> addr option \<Rightarrow> memory \<Rightarrow> addr option \<times> memory" where
  "copyConds L \<equiv> copyPtr CConds cConds (copyElems (\<lambda>c h. (lib_cond L c, h)))"

abbreviation copyTime :: "copylib \<Rightarrow> addr option \<Rightarrow> memory \<Rightarrow> addr option \<times> memory" where
  "copyTime L \<equiv> copyPtr CTime cTime (\<lambda>t h. (lib_time L t, h))"

abbreviation copyDuration :: "addr option \<Rightarrow> memory \<Rightarrow> addr option \<times> memory" where
  "copyDuration \<equiv> copyPtr CDuration cDuration Pair"

definition machineTemplateDeepCopyInto :: "h_template \<Rightarrow> memory \<Rightarrow> h_template \<times> memory" where
  "machineTemplateDeepCopyInto t h = (case copyMap (ht_labels t) h of (labels, h1) \<Rightarrow> (t\<lparr>ht_labels := labels\<rparr>, h1))"

definition nodePoolLimitsDeepCopyInto :: "pool_limits \<Rightarrow> memory \<Rightarrow> pool_limits \<times> memory" where
  "nodePoolLimitsDeepCopyInto l h = (l, h)"

definition claimRequirementsDeepCopyInto :: "claim_requirements \<Rightarrow> memory \<Rightarrow> claim_requirements \<times> memory" where
  "claimRequirementsDeepCopyInto r h = (r, h)"

definition claimSpecDeepCopyInto :: "h_claim_spec \<Rightarrow> memory \<Rightarrow> h_claim_spec \<times> memory" where
  "claimSpecDeepCopyInto s h =
     (case copyPtr CReq cReq Pair (hcs_requirements s) h of (requirements, h1) \<Rightarrow>
     (case copyDuration (hcs_terminationGracePeriod s) h1 of (grace, h2) \<Rightarrow>
       (s\<lparr>hcs_requirements := requirements, hcs_terminationGracePeriod := grace\<rparr>, h2)))"

text \<open>The lease is copied by \<open>*out = *in\<close> only.\<close>

definition claimStatusDeepCopyInto :: "copylib \<Rightarrow> h_claim_status \<Rightarrow> memory \<Rightarrow> h_claim_status \<times> memory" where
  "claimStatusDeepCopyInto L s h =
     (case copyConds L (hst_conditions s) h of (conditions, h1) \<Rightarrow> (s\<lparr>hst_conditions := conditions\<rparr>, h1))"

definition claimDeepCopyInto :: "copylib \<Rightarrow> h_claim \<Rightarrow> memory \<Rightarrow> h_claim \<times> memory" where
  "claimDeepCopyInto L c h =
     (case lib_meta L (hcl_meta c) h of (m, h1) \<Rightarrow> (case claimSpecDeepCopyInto (hcl_spec c) h1 of (sp, h2) \<Rightarrow>
     (case claimStatusDeepCopyInto L (hcl_status c) h2 of (st, h3) \<Rightarrow>
       (c\<lparr>hcl_meta := m, hcl_spec := sp, hcl_status := st\<rparr>, h3))))"

text \<open>The list types: \<open>ListMeta\<close> and the items.\<close>

definition copyList ::
  "copylib \<Rightarrow> ('x list \<Rightarrow> cell) \<Rightarrow> (cell \<Rightarrow> 'x list) \<Rightarrow> ('x \<Rightarrow> memory \<Rightarrow> 'x \<times> memory) \<Rightarrow> h_list \<Rightarrow> memory \<Rightarrow> h_list \<times> memory" where
  "copyList L box unbox f l h =
     (case lib_listmeta L (hl_meta l) h of (m, h1) \<Rightarrow> (case copyPtr box unbox (copyElems f) (hl_items l) h1 of (items, h2) \<Rightarrow>
       (l\<lparr>hl_meta := m, hl_items := items\<rparr>, h2)))"

definition claimListDeepCopyInto :: "copylib \<Rightarrow> h_list \<Rightarrow> memory \<Rightarrow> h_list \<times> memory" where
  "claimListDeepCopyInto L = copyList L CClaims cClaims (claimDeepCopyInto L)"

definition controlPlaneSpecDeepCopyInto :: "h_cp_spec \<Rightarrow> memory \<Rightarrow> h_cp_spec \<times> memory" where
  "controlPlaneSpecDeepCopyInto s h = (case copyStrings (hcp_pools s) h of (pools, h1) \<Rightarrow> (s\<lparr>hcp_pools := pools\<rparr>, h1))"

definition controlPlaneStatusDeepCopyInto :: "copylib \<Rightarrow> h_cp_status \<Rightarrow> memory \<Rightarrow> h_cp_status \<times> memory" where
  "controlPlaneStatusDeepCopyInto L s h =
     (case copyConds L (hcps_conditions s) h of (conditions, h1) \<Rightarrow> (case copyTime L (hcps_lastSyncTime s) h1 of (sync, h2) \<Rightarrow>
       (s\<lparr>hcps_conditions := conditions, hcps_lastSyncTime := sync\<rparr>, h2)))"

definition controlPlaneDeepCopyInto :: "copylib \<Rightarrow> h_cp \<Rightarrow> memory \<Rightarrow> h_cp \<times> memory" where
  "controlPlaneDeepCopyInto L c h =
     (case lib_meta L (hcp_meta c) h of (m, h1) \<Rightarrow> (case controlPlaneSpecDeepCopyInto (hcp_spec c) h1 of (sp, h2) \<Rightarrow>
     (case controlPlaneStatusDeepCopyInto L (hcp_status c) h2 of (st, h3) \<Rightarrow>
       (c\<lparr>hcp_meta := m, hcp_spec := sp, hcp_status := st\<rparr>, h3))))"

definition controlPlaneListDeepCopyInto :: "copylib \<Rightarrow> h_list \<Rightarrow> memory \<Rightarrow> h_list \<times> memory" where
  "controlPlaneListDeepCopyInto L = copyList L CCPs cCPs (controlPlaneDeepCopyInto L)"

definition scaleUpPolicyDeepCopyInto :: "h_policy \<Rightarrow> memory \<Rightarrow> h_policy \<times> memory" where
  "scaleUpPolicyDeepCopyInto p h =
     (case copyDuration (hsp_stabilizationWindow p) h of (window, h1) \<Rightarrow> (p\<lparr>hsp_stabilizationWindow := window\<rparr>, h1))"

definition scaleDownPolicyDeepCopyInto :: "h_policy \<Rightarrow> memory \<Rightarrow> h_policy \<times> memory" where
  "scaleDownPolicyDeepCopyInto p h =
     (case copyDuration (hsp_stabilizationWindow p) h of (window, h1) \<Rightarrow> (p\<lparr>hsp_stabilizationWindow := window\<rparr>, h1))"

definition poolSpecDeepCopyInto :: "h_pool_spec \<Rightarrow> memory \<Rightarrow> h_pool_spec \<times> memory" where
  "poolSpecDeepCopyInto s h =
     (case machineTemplateDeepCopyInto (hps_machineTemplate s) h of (t, h1) \<Rightarrow>
     (case copyPtr CPolicy cPolicy scaleUpPolicyDeepCopyInto (hps_scaleUp s) h1 of (up, h2) \<Rightarrow>
     (case copyPtr CPolicy cPolicy scaleDownPolicyDeepCopyInto (hps_scaleDown s) h2 of (down, h3) \<Rightarrow>
       (s\<lparr>hps_machineTemplate := t, hps_scaleUp := up, hps_scaleDown := down\<rparr>, h3))))"

definition poolStatusDeepCopyInto :: "copylib \<Rightarrow> h_pool_status \<Rightarrow> memory \<Rightarrow> h_pool_status \<times> memory" where
  "poolStatusDeepCopyInto L s h =
     (case copyConds L (hpst_conditions s) h of (conditions, h1) \<Rightarrow> (case copyTime L (hpst_lastScaleActivity s) h1 of (activity, h2) \<Rightarrow>
       (s\<lparr>hpst_conditions := conditions, hpst_lastScaleActivity := activity\<rparr>, h2)))"

definition poolDeepCopyInto :: "copylib \<Rightarrow> h_pool \<Rightarrow> memory \<Rightarrow> h_pool \<times> memory" where
  "poolDeepCopyInto L p h =
     (case lib_meta L (hpl_meta p) h of (m, h1) \<Rightarrow> (case poolSpecDeepCopyInto (hpl_spec p) h1 of (sp, h2) \<Rightarrow>
     (case poolStatusDeepCopyInto L (hpl_status p) h2 of (st, h3) \<Rightarrow>
       (p\<lparr>hpl_meta := m, hpl_spec := sp, hpl_status := st\<rparr>, h3))))"

definition poolListDeepCopyInto :: "copylib \<Rightarrow> h_list \<Rightarrow> memory \<Rightarrow> h_list \<times> memory" where
  "poolListDeepCopyInto L = copyList L CPools cPools (poolDeepCopyInto L)"

definition vmidRangeDeepCopyInto :: "vmid_range_spec \<Rightarrow> memory \<Rightarrow> vmid_range_spec \<times> memory" where
  "vmidRangeDeepCopyInto r h = (r, h)"

definition proxmoxNICDeepCopyInto :: "proxmox_nic \<Rightarrow> memory \<Rightarrow> proxmox_nic \<times> memory" where
  "proxmoxNICDeepCopyInto n h = (n, h)"

definition proxmoxOptionDeepCopyInto :: "copylib \<Rightarrow> h_option \<Rightarrow> memory \<Rightarrow> h_option \<times> memory" where
  "proxmoxOptionDeepCopyInto L p h = (case lib_json L (ho_value p) h of (v, h1) \<Rightarrow> (p\<lparr>ho_value := v\<rparr>, h1))"

definition proxmoxSpecDeepCopyInto :: "copylib \<Rightarrow> h_proxmox \<Rightarrow> memory \<Rightarrow> h_proxmox \<times> memory" where
  "proxmoxSpecDeepCopyInto L s h =
     (case copyStrings (hpx_nodeWhitelist s) h of (whitelist, h1) \<Rightarrow>
     (case copyPtr CRange cRange Pair (hpx_vmIDRange s) h1 of (vmids, h2) \<Rightarrow>
     (case copyPtr CNics cNics (copyElems Pair) (hpx_networkInterfaces s) h2 of (nics, h3) \<Rightarrow>
     (case copyPtr COptions cOptions (copyElems (proxmoxOptionDeepCopyInto L)) (hpx_vmOptions s) h3 of (opts, h4) \<Rightarrow>
       (s\<lparr>hpx_nodeWhitelist := whitelist, hpx_vmIDRange := vmids, hpx_networkInterfaces := nics, hpx_vmOptions := opts\<rparr>, h4)))))"

text \<open>An entry of \<open>AdditionalSettings\<close>: \<open>(*out)[key] = *val.DeepCopy()\<close>.\<close>

definition copyRawEntry :: "copylib \<Rightarrow> string \<times> h_raw \<Rightarrow> memory \<Rightarrow> (string \<times> h_raw) \<times> memory" where
  "copyRawEntry L e h = (case lib_raw L (snd e) h of (v, h1) \<Rightarrow> ((fst e, v), h1))"

definition providerSpecDeepCopyInto :: "copylib \<Rightarrow> h_provider_spec \<Rightarrow> memory \<Rightarrow> h_provider_spec \<times> memory" where
  "providerSpecDeepCopyInto L s h =
     (case copyPtr CSecretRef cSecretRef Pair (hpv_credentialsSecretRef s) h of (ref, h1) \<Rightarrow>
     (case copyPtr CProxmox cProxmox (proxmoxSpecDeepCopyInto L) (hpv_proxmox s) h1 of (px, h2) \<Rightarrow>
     (case copyPtr CRaws cRaws (copyElems (copyRawEntry L)) (hpv_additionalSettings s) h2 of (settings, h3) \<Rightarrow>
       (s\<lparr>hpv_credentialsSecretRef := ref, hpv_proxmox := px, hpv_additionalSettings := settings\<rparr>, h3))))"

definition providerStatusDeepCopyInto :: "copylib \<Rightarrow> h_provider_status \<Rightarrow> memory \<Rightarrow> h_provider_status \<times> memory" where
  "providerStatusDeepCopyInto L s h =
     (case copyConds L (hpvs_conditions s) h of (conditions, h1) \<Rightarrow> (s\<lparr>hpvs_conditions := conditions\<rparr>, h1))"

definition providerDeepCopyInto :: "copylib \<Rightarrow> h_provider \<Rightarrow> memory \<Rightarrow> h_provider \<times> memory" where
  "providerDeepCopyInto L p h =
     (case lib_meta L (hpo_meta p) h of (m, h1) \<Rightarrow> (case providerSpecDeepCopyInto L (hpo_spec p) h1 of (sp, h2) \<Rightarrow>
     (case providerStatusDeepCopyInto L (hpo_status p) h2 of (st, h3) \<Rightarrow>
       (p\<lparr>hpo_meta := m, hpo_spec := sp, hpo_status := st\<rparr>, h3))))"

definition providerListDeepCopyInto :: "copylib \<Rightarrow> h_list \<Rightarrow> memory \<Rightarrow> h_list \<times> memory" where
  "providerListDeepCopyInto L = copyList L CProviders cProviders (providerDeepCopyInto L)"

text \<open>\<open>DeepCopy\<close>: nil for nil, otherwise a new object, filled by \<open>DeepCopyInto\<close>.\<close>

definition machineTemplateDeepCopy :: "addr option \<Rightarrow> memory \<Rightarrow> addr option \<times> memory" where
  "machineTemplateDeepCopy = copyPtr CTemplate cTemplate machineTemplateDeepCopyInto"

definition nodePoolLimitsDeepCopy :: "addr option \<Rightarrow> memory \<Rightarrow> addr option \<times> memory" where
  "nodePoolLimitsDeepCopy = copyPtr CLimits cLimits nodePoolLimitsDeepCopyInto"

definition claimDeepCopy :: "copylib \<Rightarrow> addr option \<Rightarrow> memory \<Rightarrow> addr option \<times> memory" where
  "claimDeepCopy L = copyPtr CClaim cClaim (claimDeepCopyInto L)"

definition claimListDeepCopy :: "copylib \<Rightarrow> addr option \<Rightarrow> memory \<Rightarrow> addr option \<times> memory" where
  "claimListDeepCopy L = copyPtr CList cList (claimListDeepCopyInto L)"

definition claimRequirementsDeepCopy :: "addr option \<Rightarrow> memory \<Rightarrow> addr option \<times> memory" where
  "claimRequirementsDeepCopy = copyPtr CReq cReq claimRequirementsDeepCopyInto"

definition claimSpecDeepCopy :: "addr option \<Rightarrow> memory \<Rightarrow> addr option \<times> memory" where
  "claimSpecDeepCopy = copyPtr CClaimSpec cClaimSpec claimSpecDeepCopyInto"

definition claimStatusDeepCopy :: "copylib \<Rightarrow> addr option \<Rightarrow> memory \<Rightarrow> addr option \<times> memory" where
  "claimStatusDeepCopy L = copyPtr CClaimStatus cClaimStatus (claimStatusDeepCopyInto L)"

definition controlPlaneDeepCopy :: "copylib \<Rightarrow> addr option \<Rightarrow> memory \<Rightarrow> addr option \<times> memory" where
  "controlPlaneDeepCopy L = copyPtr CCP cCP (controlPlaneDeepCopyInto L)"

definition controlPlaneListDeepCopy :: "copylib \<Rightarrow> addr option \<Rightarrow> memory \<Rightarrow> addr option \<times> memory" where
  "controlPlaneListDeepCopy L = copyPtr CList cList (controlPlaneListDeepCopyInto L)"

definition controlPlaneSpecDeepCopy :: "addr option \<Rightarrow> memory \<Rightarrow> addr option \<times> memory" where
  "controlPlaneSpecDeepCopy = copyPtr CCPSpec cCPSpec controlPlaneSpecDeepCopyInto"

definition controlPlaneStatusDeepCopy :: "copylib \<Rightarrow> addr option \<Rightarrow> memory \<Rightarrow> addr option \<times> memory" where
  "controlPlaneStatusDeepCopy L = copyPtr CCPStatus cCPStatus (controlPlaneStatusDeepCopyInto L)"

definition poolDeepCopy :: "copylib \<Rightarrow> addr option \<Rightarrow> memory \<Rightarrow> addr option \<times> memory" where
  "poolDeepCopy L = copyPtr CPool cPool (poolDeepCopyInto L)"

definition poolListDeepCopy :: "copylib \<Rightarrow> addr option \<Rightarrow> memory \<Rightarrow> addr option \<times> memory" where
  "poolListDeepCopy L = copyPtr CList cList (poolListDeepCopyInto L)"

definition poolSpecDeepCopy :: "addr option \<Rightarrow> memory \<Rightarrow> addr option \<times> memory" where
  "poolSpecDeepCopy = copyPtr CPoolSpec cPoolSpec poolSpecDeepCopyInto"

definition poolStatusDeepCopy :: "copylib \<Rightarrow> addr option \<Rightarrow> memory \<Rightarrow> addr option \<times> memory" where
  "poolStatusDeepCopy L = copyPtr CPoolStatus cPoolStatus (poolStatusDeepCopyInto L)"

definition providerDeepCopy :: "copylib \<Rightarrow> addr option \<Rightarrow> memory \<Rightarrow> addr option \<times> memory" where
  "providerDeepCopy L = copyPtr CProvider cProvider (providerDeepCopyInto L)"

definition providerListDeepCopy :: "copylib \<Rightarrow> addr option \<Rightarrow> memory \<Rightarrow> addr option \<times> memory" where
  "providerListDeepCopy L = copyPtr CList cList (providerListDeepCopyInto L)"

definition providerSpecDeepCopy :: "copylib \<Rightarrow> addr option \<Rightarrow> memory \<Rightarrow> addr option \<times> memory" where
  "providerSpecDeepCopy L = copyPtr CProviderSpec cProviderSpec (providerSpecDeepCopyInto L)"

definition providerStatusDeepCopy :: "copylib \<Rightarrow> addr option \<Rightarrow> memory \<Rightarrow> addr option \<times> memory" where
  "providerStatusDeepCopy L = copyPtr CProviderStatus cProviderStatus (providerStatusDeepCopyInto L)"

definition proxmoxNICDeepCopy :: "addr option \<Rightarrow> memory \<Rightarrow> addr option \<times> memory" where
  "proxmoxNICDeepCopy = copyPtr CNic cNic proxmoxNICDeepCopyInto"

definition proxmoxOptionDeepCopy :: "copylib \<Rightarrow> addr option \<Rightarrow> memory \<Rightarrow> addr option \<times> memory" where
  "proxmoxOptionDeepCopy L = copyPtr COption cOption (proxmoxOptionDeepCopyInto L)"

definition proxmoxSpecDeepCopy :: "copylib \<Rightarrow> addr option \<Rightarrow> memory \<Rightarrow> addr option \<times> memory" where
  "proxmoxSpecDeepCopy L = copyPtr CProxmox cProxmox (proxmoxSpecDeepCopyInto L)"

definition scaleDownPolicyDeepCopy :: "addr option \<Rightarrow> memory \<Rightarrow> addr option \<times> memory" where
  "scaleDownPolicyDeepCopy = copyPtr CPolicy cPolicy scaleDownPolicyDeepCopyInto"

definition scaleUpPolicyDeepCopy :: "addr option \<Rightarrow> memory \<Rightarrow> addr option \<times> memory" where
  "scaleUpPolicyDeepCopy = copyPtr CPolicy cPolicy scaleUpPolicyDeepCopyInto"

definition vmidRangeDeepCopy :: "addr option \<Rightarrow> memory \<Rightarrow> addr option \<times> memory" where
  "vmidRangeDeepCopy = copyPtr CRange cRange vmidRangeDeepCopyInto"

text \<open>\<open>DeepCopyObject\<close>: the copy as an interface value, with its type; the nil interface for nil.\<close>

datatype runtime_object =
    RClaim addr | RClaimList addr | RControlPlane addr | RControlPlaneList addr
  | RPool addr | RPoolList addr | RProvider addr | RProviderList addr

definition copyObject ::
  "(addr \<Rightarrow> runtime_object) \<Rightarrow> (addr option \<Rightarrow> memory \<Rightarrow> addr option \<times> memory) \<Rightarrow> addr option \<Rightarrow> memory \<Rightarrow>
   runtime_object option \<times> memory" where
  "copyObject R deepCopy p h = (case deepCopy p h of (Some c, h1) \<Rightarrow> (Some (R c), h1) | (None, h1) \<Rightarrow> (None, h1))"

definition claimDeepCopyObject :: "copylib \<Rightarrow> addr option \<Rightarrow> memory \<Rightarrow> runtime_object option \<times> memory" where
  "claimDeepCopyObject L = copyObject RClaim (claimDeepCopy L)"

definition claimListDeepCopyObject :: "copylib \<Rightarrow> addr option \<Rightarrow> memory \<Rightarrow> runtime_object option \<times> memory" where
  "claimListDeepCopyObject L = copyObject RClaimList (claimListDeepCopy L)"

definition controlPlaneDeepCopyObject :: "copylib \<Rightarrow> addr option \<Rightarrow> memory \<Rightarrow> runtime_object option \<times> memory" where
  "controlPlaneDeepCopyObject L = copyObject RControlPlane (controlPlaneDeepCopy L)"

definition controlPlaneListDeepCopyObject :: "copylib \<Rightarrow> addr option \<Rightarrow> memory \<Rightarrow> runtime_object option \<times> memory" where
  "controlPlaneListDeepCopyObject L = copyObject RControlPlaneList (controlPlaneListDeepCopy L)"

definition poolDeepCopyObject :: "copylib \<Rightarrow> addr option \<Rightarrow> memory \<Rightarrow> runtime_object option \<times> memory" where
  "poolDeepCopyObject L = copyObject RPool (poolDeepCopy L)"

definition poolListDeepCopyObject :: "copylib \<Rightarrow> addr option \<Rightarrow> memory \<Rightarrow> runtime_object option \<times> memory" where
  "poolListDeepCopyObject L = copyObject RPoolList (poolListDeepCopy L)"

definition providerDeepCopyObject :: "copylib \<Rightarrow> addr option \<Rightarrow> memory \<Rightarrow> runtime_object option \<times> memory" where
  "providerDeepCopyObject L = copyObject RProvider (providerDeepCopy L)"

definition providerListDeepCopyObject :: "copylib \<Rightarrow> addr option \<Rightarrow> memory \<Rightarrow> runtime_object option \<times> memory" where
  "providerListDeepCopyObject L = copyObject RProviderList (providerListDeepCopy L)"

end
