(* ===== verification/Deep_Copy_Safety.thy ===== *)
theory Deep_Copy_Safety
  imports Deep_Copy
begin

text \<open>
  What the generated copies are good for: the copy of every API object but the claim has the value of
  the original and shares no memory with it. A claim's copy shares the lease.
\<close>

named_theorems copy_intros

declare flat_deep [copy_intros] ptr_deep [copy_intros] elems_deep [copy_intros] pair_deep [copy_intros] record_deep [copy_intros]

section \<open>Values of structs in memory\<close>

text \<open>The values leave out the difference between a nil and an empty slice or map.\<close>

definition listOf :: "'a list option \<Rightarrow> 'a list" where
  "listOf p = (case p of None \<Rightarrow> [] | Some xs \<Rightarrow> xs)"

abbreviation durationPtr where "durationPtr \<equiv> ptrC CDuration cDuration flatC"
abbreviation mapPtr where "mapPtr \<equiv> ptrC CMap cMap (elemsC flatC)"
abbreviation stringsPtr where "stringsPtr \<equiv> ptrC CStrings cStrings (elemsC flatC)"

text \<open>A plain value whose copy is up to the library.\<close>

definition plainC :: "('x \<Rightarrow> 'x) \<Rightarrow> ('x, 'x, 'c) copy_ops" where
  "plainC f = flatC\<lparr>co_copy := (\<lambda>x h. (f x, h))\<rparr>"

abbreviation condsPtr where "condsPtr L \<equiv> ptrC CConds cConds (elemsC (plainC (lib_cond L)))"
abbreviation timePtr where "timePtr L \<equiv> ptrC CTime cTime (plainC (lib_time L))"

definition ownerC :: "(h_owner, owner_ref, cell) copy_ops" where
  "ownerC = recordC how_controller (\<lambda>b o1. o1\<lparr>how_controller := b\<rparr>)
     (\<lambda>o1 b. \<lparr>ow_kind = how_kind o1, ow_name = how_name o1, ow_controller = b\<rparr>) (ptrC CBool cBool flatC)"

definition metaFields :: "h_meta \<Rightarrow> addr option \<times> addr option \<times> addr option \<times> addr option \<times> addr option" where
  "metaFields m = (hm_labels m, hm_annotations m, hm_finalizers m, hm_deletion m, hm_owners m)"

definition plainMetaC :: "(h_meta, objmeta, cell) copy_ops" where
  "plainMetaC = recordC metaFields
       (\<lambda>(l, a, f, d, ow) m. m\<lparr>hm_labels := l, hm_annotations := a, hm_finalizers := f, hm_deletion := d, hm_owners := ow\<rparr>)
       (\<lambda>m (l, a, f, d, ow). \<lparr>om_name = hm_name m, om_namespace = hm_namespace m, om_labels = listOf l, om_annotations = listOf a,
          om_finalizers = listOf f, om_deletion = d, om_creation = hm_creation m, om_generation = hm_generation m, om_rv = hm_rv m,
          om_owners = listOf ow\<rparr>)
       (pairC mapPtr (pairC mapPtr (pairC stringsPtr (pairC (ptrC CTime cTime flatC) (ptrC COwners cOwners (elemsC ownerC))))))"

definition plainListmetaC :: "(h_listmeta, string \<times> int option, cell) copy_ops" where
  "plainListmetaC = recordC hlm_remaining (\<lambda>r m. m\<lparr>hlm_remaining := r\<rparr>) (\<lambda>m r. (hlm_rv m, r)) (ptrC CInt cInt flatC)"

definition plainRawC :: "(h_raw, string, cell) copy_ops" where
  "plainRawC = recordC hr_raw (\<lambda>r m. m\<lparr>hr_raw := r\<rparr>) (\<lambda>m r. listOf r) (ptrC CBytes cBytes flatC)"

text \<open>Their copies are the library's.\<close>

definition metaC :: "copylib \<Rightarrow> (h_meta, objmeta, cell) copy_ops" where
  "metaC L = plainMetaC\<lparr>co_copy := lib_meta L\<rparr>"

definition listmetaC :: "copylib \<Rightarrow> (h_listmeta, string \<times> int option, cell) copy_ops" where
  "listmetaC L = plainListmetaC\<lparr>co_copy := lib_listmeta L\<rparr>"

definition rawC :: "(h_raw \<Rightarrow> memory \<Rightarrow> h_raw \<times> memory) \<Rightarrow> (h_raw, string, cell) copy_ops" where
  "rawC f = plainRawC\<lparr>co_copy := f\<rparr>"

text \<open>The documented behaviour of the library's deep copies: they are deep copies.\<close>

definition copylib_ok :: "copylib \<Rightarrow> bool" where
  "copylib_ok L \<longleftrightarrow> deep_copier (metaC L) \<and> deep_copier (listmetaC L) \<and> deep_copier (rawC (lib_json L)) \<and>
     deep_copier (rawC (lib_raw L)) \<and> (\<forall>c. lib_cond L c = c) \<and> (\<forall>t. lib_time L t = t)"

lemma plain_deep: "(\<And>x. f x = x) \<Longrightarrow> deep_copier (plainC f)"
  by (unfold_locales; simp add: plainC_def flatC_def stays_def copies_def)

lemma lib_deep [copy_intros]:
  assumes "copylib_ok L"
  shows "deep_copier (metaC L)" "deep_copier (listmetaC L)" "deep_copier (rawC (lib_json L))" "deep_copier (rawC (lib_raw L))"
    "deep_copier (plainC (lib_cond L))" "deep_copier (plainC (lib_time L))"
  using assms by (simp_all add: copylib_ok_def plain_deep)

section \<open>The copiers\<close>

definition templateC :: "(h_template, gomap, cell) copy_ops" where
  "templateC = recordC ht_labels (\<lambda>l t. t\<lparr>ht_labels := l\<rparr>) (\<lambda>t l. listOf l) mapPtr"

definition claimSpecC :: "(h_claim_spec, claim_spec, cell) copy_ops" where
  "claimSpecC = recordC (\<lambda>s. (hcs_requirements s, hcs_terminationGracePeriod s))
     (\<lambda>(r, g) s. s\<lparr>hcs_requirements := r, hcs_terminationGracePeriod := g\<rparr>)
     (\<lambda>s (r, g). \<lparr>cs_poolRef = hcs_poolRef s, cs_requirements = r, cs_idempotencyKey = hcs_idempotencyKey s, cs_terminationGracePeriod = g\<rparr>)
     (pairC (ptrC CReq cReq flatC) durationPtr)"

definition claimStatusC :: "copylib \<Rightarrow> (h_claim_status, claim_status, cell) copy_ops" where
  "claimStatusC L = recordC (\<lambda>s. (hst_conditions s, hst_lease s)) (\<lambda>(c, l) s. s\<lparr>hst_conditions := c, hst_lease := l\<rparr>)
     (\<lambda>s (c, l). \<lparr>st_conditions = listOf c, st_providerID = hst_providerID s, st_nodeName = hst_nodeName s,
        st_providerRef = hst_providerRef s, st_launchAttempts = hst_launchAttempts s, st_lease = l\<rparr>)
     (pairC (condsPtr L) (aliasC CLease cLease))"

definition claimC :: "copylib \<Rightarrow> (h_claim, claim, cell) copy_ops" where
  "claimC L = recordC (\<lambda>c. (hcl_meta c, hcl_spec c, hcl_status c)) (\<lambda>(m, sp, st) c. c\<lparr>hcl_meta := m, hcl_spec := sp, hcl_status := st\<rparr>)
     (\<lambda>c (m, sp, st). \<lparr>cl_meta = m, cl_spec = sp, cl_status = st\<rparr>) (pairC (metaC L) (pairC claimSpecC (claimStatusC L)))"

definition listC :: "copylib \<Rightarrow> ('x list \<Rightarrow> cell) \<Rightarrow> (cell \<Rightarrow> 'x list) \<Rightarrow> ('x, 'v, cell) copy_ops \<Rightarrow>
    (h_list, (string \<times> int option) \<times> 'v list, cell) copy_ops" where
  "listC L box unbox K = recordC (\<lambda>l. (hl_meta l, hl_items l)) (\<lambda>(m, i) l. l\<lparr>hl_meta := m, hl_items := i\<rparr>)
     (\<lambda>l (m, i). (m, listOf i)) (pairC (listmetaC L) (ptrC box unbox (elemsC K)))"

definition cpSpecC :: "(h_cp_spec, string list, cell) copy_ops" where
  "cpSpecC = recordC hcp_pools (\<lambda>p s. s\<lparr>hcp_pools := p\<rparr>) (\<lambda>s p. listOf p) stringsPtr"

definition cpStatusC :: "copylib \<Rightarrow> (h_cp_status, controlplane_status, cell) copy_ops" where
  "cpStatusC L = recordC (\<lambda>s. (hcps_conditions s, hcps_lastSyncTime s)) (\<lambda>(c, t) s. s\<lparr>hcps_conditions := c, hcps_lastSyncTime := t\<rparr>)
     (\<lambda>s (c, t). \<lparr>cps_conditions = listOf c, cps_observedGeneration = hcps_observedGeneration s, cps_lastSyncTime = t\<rparr>)
     (pairC (condsPtr L) (timePtr L))"

definition cpC :: "copylib \<Rightarrow> (h_cp, controlplane, cell) copy_ops" where
  "cpC L = recordC (\<lambda>c. (hcp_meta c, hcp_spec c, hcp_status c)) (\<lambda>(m, sp, st) c. c\<lparr>hcp_meta := m, hcp_spec := sp, hcp_status := st\<rparr>)
     (\<lambda>c (m, sp, st). \<lparr>cp_meta = m, cp_pools = sp, cp_status = st\<rparr>) (pairC (metaC L) (pairC cpSpecC (cpStatusC L)))"

definition policyC :: "(h_policy, scale_policy, cell) copy_ops" where
  "policyC = recordC hsp_stabilizationWindow (\<lambda>w p. p\<lparr>hsp_stabilizationWindow := w\<rparr>) (\<lambda>p w. \<lparr>sp_stabilizationWindow = w\<rparr>) durationPtr"

definition poolSpecC :: "(h_pool_spec, pool_spec, cell) copy_ops" where
  "poolSpecC = recordC (\<lambda>s. (hps_machineTemplate s, hps_scaleUp s, hps_scaleDown s))
     (\<lambda>(t, u, d) s. s\<lparr>hps_machineTemplate := t, hps_scaleUp := u, hps_scaleDown := d\<rparr>)
     (\<lambda>s (t, u, d). \<lparr>ps_providerRef = hps_providerRef s, ps_poolLabelKey = hps_poolLabelKey s, ps_limits = hps_limits s,
        ps_templateLabels = t, ps_scaleUp = u, ps_scaleDown = d\<rparr>)
     (pairC templateC (pairC (ptrC CPolicy cPolicy policyC) (ptrC CPolicy cPolicy policyC)))"

definition poolStatusC :: "copylib \<Rightarrow> (h_pool_status, pool_status, cell) copy_ops" where
  "poolStatusC L = recordC (\<lambda>s. (hpst_conditions s, hpst_lastScaleActivity s))
     (\<lambda>(c, t) s. s\<lparr>hpst_conditions := c, hpst_lastScaleActivity := t\<rparr>)
     (\<lambda>s (c, t). \<lparr>pst_conditions = listOf c, pst_observedGeneration = hpst_observedGeneration s, pst_lastScaleActivity = t,
        pst_nextClaimSequence = hpst_nextClaimSequence s\<rparr>)
     (pairC (condsPtr L) (timePtr L))"

definition poolC :: "copylib \<Rightarrow> (h_pool, pool, cell) copy_ops" where
  "poolC L = recordC (\<lambda>p. (hpl_meta p, hpl_spec p, hpl_status p)) (\<lambda>(m, sp, st) p. p\<lparr>hpl_meta := m, hpl_spec := sp, hpl_status := st\<rparr>)
     (\<lambda>p (m, sp, st). \<lparr>pl_meta = m, pl_spec = sp, pl_status = st\<rparr>) (pairC (metaC L) (pairC poolSpecC (poolStatusC L)))"

definition optionC :: "copylib \<Rightarrow> (h_option, proxmox_option, cell) copy_ops" where
  "optionC L = recordC ho_value (\<lambda>v p. p\<lparr>ho_value := v\<rparr>) (\<lambda>p v. \<lparr>po_name = ho_name p, po_value = v\<rparr>) (rawC (lib_json L))"

definition proxmoxC :: "copylib \<Rightarrow> (h_proxmox, proxmox_spec, cell) copy_ops" where
  "proxmoxC L = recordC (\<lambda>s. (hpx_nodeWhitelist s, hpx_vmIDRange s, hpx_networkInterfaces s, hpx_vmOptions s))
     (\<lambda>(w, r, n, v) s. s\<lparr>hpx_nodeWhitelist := w, hpx_vmIDRange := r, hpx_networkInterfaces := n, hpx_vmOptions := v\<rparr>)
     (\<lambda>s (w, r, n, v). \<lparr>px_endpoint = hpx_endpoint s, px_nodeWhitelist = listOf w, px_vmIDRange = r, px_managedNodeTag = hpx_managedNodeTag s,
        px_vmMemOverheadMiB = hpx_vmMemOverheadMiB s, px_networkInterfaces = listOf n, px_vmOptions = listOf v\<rparr>)
     (pairC stringsPtr (pairC (ptrC CRange cRange flatC) (pairC (ptrC CNics cNics (elemsC flatC)) (ptrC COptions cOptions (elemsC (optionC L))))))"

definition rawEntryC :: "copylib \<Rightarrow> (string \<times> h_raw, string \<times> string, cell) copy_ops" where
  "rawEntryC L = recordC snd (\<lambda>v e. (fst e, v)) (\<lambda>e v. (fst e, v)) (rawC (lib_raw L))"

definition providerSpecC :: "copylib \<Rightarrow> (h_provider_spec, provider_spec, cell) copy_ops" where
  "providerSpecC L = recordC (\<lambda>s. (hpv_credentialsSecretRef s, hpv_proxmox s, hpv_additionalSettings s))
     (\<lambda>(r, p, a) s. s\<lparr>hpv_credentialsSecretRef := r, hpv_proxmox := p, hpv_additionalSettings := a\<rparr>)
     (\<lambda>s (r, p, a). \<lparr>pv_type = hpv_type s, pv_credentialsSecretRef = r, pv_proxmox = p, pv_additionalSettings = listOf a\<rparr>)
     (pairC (ptrC CSecretRef cSecretRef flatC) (pairC (ptrC CProxmox cProxmox (proxmoxC L)) (ptrC CRaws cRaws (elemsC (rawEntryC L)))))"

definition providerStatusC :: "copylib \<Rightarrow> (h_provider_status, provider_status, cell) copy_ops" where
  "providerStatusC L = recordC hpvs_conditions (\<lambda>c s. s\<lparr>hpvs_conditions := c\<rparr>)
     (\<lambda>s c. \<lparr>pvs_conditions = listOf c, pvs_observedGeneration = hpvs_observedGeneration s\<rparr>) (condsPtr L)"

definition providerC :: "copylib \<Rightarrow> (h_provider, provider_obj, cell) copy_ops" where
  "providerC L = recordC (\<lambda>p. (hpo_meta p, hpo_spec p, hpo_status p)) (\<lambda>(m, sp, st) p. p\<lparr>hpo_meta := m, hpo_spec := sp, hpo_status := st\<rparr>)
     (\<lambda>p (m, sp, st). \<lparr>po_meta = m, po_spec = sp, po_status = st\<rparr>) (pairC (metaC L) (pairC (providerSpecC L) (providerStatusC L)))"

lemmas copier_defs = templateC_def claimSpecC_def claimStatusC_def claimC_def listC_def cpSpecC_def cpStatusC_def cpC_def policyC_def
  poolSpecC_def poolStatusC_def poolC_def optionC_def proxmoxC_def rawEntryC_def providerSpecC_def providerStatusC_def providerC_def

section \<open>They copy as the generated code does\<close>

lemma co_copy_simps [simp]:
  "co_copy flatC = Pair" "co_copy (plainC f) = (\<lambda>x h. (f x, h))" "co_copy (ptrC box unbox K) = copyPtr box unbox (co_copy K)"
  "co_copy (elemsC K) = copyElems (co_copy K)" "co_copy (aliasC box unbox) = Pair"
  "co_copy (pairC K J) = (\<lambda>p h. case co_copy K (fst p) h of (x, h1) \<Rightarrow> (case co_copy J (snd p) h1 of (y, h2) \<Rightarrow> ((x, y), h2)))"
  "co_copy (recordC get put mk K) = (\<lambda>s h. case co_copy K (get s) h of (x, h1) \<Rightarrow> (put x s, h1))"
  "co_copy (metaC L) = lib_meta L" "co_copy (listmetaC L) = lib_listmeta L" "co_copy (rawC g) = g"
  by (simp_all add: flatC_def plainC_def ptrC_def elemsC_def aliasC_def pairC_def recordC_def metaC_def listmetaC_def rawC_def)

lemma generated [simp]:
  "co_copy templateC = machineTemplateDeepCopyInto" "co_copy claimSpecC = claimSpecDeepCopyInto"
  "co_copy (claimStatusC L) = claimStatusDeepCopyInto L" "co_copy cpSpecC = controlPlaneSpecDeepCopyInto"
  "co_copy (cpStatusC L) = controlPlaneStatusDeepCopyInto L" "co_copy policyC = scaleUpPolicyDeepCopyInto"
  "scaleDownPolicyDeepCopyInto = scaleUpPolicyDeepCopyInto" "co_copy (poolStatusC L) = poolStatusDeepCopyInto L"
  "co_copy (optionC L) = proxmoxOptionDeepCopyInto L" "co_copy (rawEntryC L) = copyRawEntry L"
  "co_copy (providerStatusC L) = providerStatusDeepCopyInto L"
  by (simp_all add: fun_eq_iff copier_defs machineTemplateDeepCopyInto_def claimSpecDeepCopyInto_def claimStatusDeepCopyInto_def
      controlPlaneSpecDeepCopyInto_def controlPlaneStatusDeepCopyInto_def scaleUpPolicyDeepCopyInto_def scaleDownPolicyDeepCopyInto_def
      poolStatusDeepCopyInto_def proxmoxOptionDeepCopyInto_def copyRawEntry_def providerStatusDeepCopyInto_def split: prod.split)

lemma generated_structs [simp]:
  "co_copy (claimC L) = claimDeepCopyInto L" "co_copy (cpC L) = controlPlaneDeepCopyInto L" "co_copy poolSpecC = poolSpecDeepCopyInto"
  "co_copy (proxmoxC L) = proxmoxSpecDeepCopyInto L"
  by (simp_all add: claimC_def cpC_def poolSpecC_def proxmoxC_def fun_eq_iff claimDeepCopyInto_def controlPlaneDeepCopyInto_def
      poolSpecDeepCopyInto_def proxmoxSpecDeepCopyInto_def split: prod.split)

lemma generated_objects [simp]:
  "co_copy (poolC L) = poolDeepCopyInto L" "co_copy (providerSpecC L) = providerSpecDeepCopyInto L"
  "co_copy (listC L box unbox K) = copyList L box unbox (co_copy K)"
  by (simp_all add: poolC_def providerSpecC_def listC_def fun_eq_iff poolDeepCopyInto_def providerSpecDeepCopyInto_def
      copyList_def split: prod.split)

lemma generated_provider [simp]: "co_copy (providerC L) = providerDeepCopyInto L"
  by (simp add: providerC_def fun_eq_iff providerDeepCopyInto_def split: prod.split)

section \<open>They are deep, but for the lease\<close>

lemma templateC_deep [copy_intros]: "deep_copier templateC"
  unfolding templateC_def by (intro copy_intros) simp_all

lemma claimSpecC_deep [copy_intros]: "deep_copier claimSpecC"
  unfolding claimSpecC_def by (intro copy_intros) auto

lemma cpSpecC_deep [copy_intros]: "deep_copier cpSpecC"
  unfolding cpSpecC_def by (intro copy_intros) simp_all

lemma policyC_deep [copy_intros]: "deep_copier policyC"
  unfolding policyC_def by (intro copy_intros) simp_all

lemma poolSpecC_deep [copy_intros]: "deep_copier poolSpecC"
  unfolding poolSpecC_def by (intro copy_intros) auto

lemma status_deep [copy_intros]:
  assumes "copylib_ok L"
  shows "deep_copier (cpStatusC L)" "deep_copier (poolStatusC L)" "deep_copier (providerStatusC L)"
  unfolding cpStatusC_def poolStatusC_def providerStatusC_def using assms by (intro copy_intros; auto)+

lemma optionC_deep [copy_intros]: "copylib_ok L \<Longrightarrow> deep_copier (optionC L)"
  unfolding optionC_def by (intro copy_intros) simp_all

lemma rawEntryC_deep [copy_intros]: "copylib_ok L \<Longrightarrow> deep_copier (rawEntryC L)"
  unfolding rawEntryC_def by (intro copy_intros) simp_all

lemma proxmoxC_deep [copy_intros]: "copylib_ok L \<Longrightarrow> deep_copier (proxmoxC L)"
  unfolding proxmoxC_def by (intro copy_intros) auto

lemma providerSpecC_deep [copy_intros]: "copylib_ok L \<Longrightarrow> deep_copier (providerSpecC L)"
  unfolding providerSpecC_def by (intro copy_intros) auto

lemma object_deep [copy_intros]:
  assumes "copylib_ok L"
  shows "deep_copier (cpC L)" "deep_copier (poolC L)" "deep_copier (providerC L)"
  unfolding cpC_def poolC_def providerC_def using assms by (intro copy_intros; auto)+

lemma listC_deep [copy_intros]:
  "copylib_ok L \<Longrightarrow> deep_copier K \<Longrightarrow> (\<And>x. unbox (box x) = x) \<Longrightarrow> deep_copier (listC L box unbox K)"
  unfolding listC_def by (intro copy_intros) auto

lemma claimStatusC_copier: "copylib_ok L \<Longrightarrow> copier (claimStatusC L)"
  unfolding claimStatusC_def
  by (intro record_copier pair_copier alias_copier deepD(1) [OF ptr_deep] copy_intros) auto

lemma claimC_copier: "copylib_ok L \<Longrightarrow> copier (claimC L)"
  unfolding claimC_def
  by (intro record_copier pair_copier claimStatusC_copier deepD(1) [OF claimSpecC_deep] deepD(1) [OF lib_deep(1)]) auto

interpretation claim_spec: deep_copier claimSpecC
  by (rule claimSpecC_deep)

interpretation pool_spec: deep_copier poolSpecC
  by (rule poolSpecC_deep)

interpretation cp_spec: deep_copier cpSpecC
  by (rule cpSpecC_deep)

section \<open>Properties\<close>

text \<open>
  The object at an address and its deep copy: a new object of the same value, the memory that was there
  untouched, and no write through one of them, wherever it reaches, is seen through the other.
\<close>

definition independentCopy ::
  "('x \<Rightarrow> cell) \<Rightarrow> (cell \<Rightarrow> 'x) \<Rightarrow> ('x, 'v, cell) copy_ops \<Rightarrow> (addr option \<Rightarrow> memory \<Rightarrow> addr option \<times> memory) \<Rightarrow> bool" where
  "independentCopy box unbox K deepCopy \<longleftrightarrow> (\<forall>h. deepCopy None h = (None, h)) \<and>
     (let P = ptrC box unbox K in \<forall>h a. co_ok P h (Some a) \<longrightarrow> (\<exists>b h'. deepCopy (Some a) h = (Some b, h') \<and>
        lim h \<le> b \<and> (\<forall>c < lim h. mem h' c = mem h c) \<and> co_val P h' (Some b) = co_val P h (Some a) \<and>
        (\<forall>h2. agree (- co_reach P h' (Some b)) h' h2 \<longrightarrow> co_val P h2 (Some a) = co_val P h (Some a)) \<and>
        (\<forall>h2. agree (- co_reach P h' (Some a)) h' h2 \<longrightarrow> co_val P h2 (Some b) = co_val P h (Some a))))"

lemma independentI:
  assumes "deep_copier K" and "\<And>x. unbox (box x) = x" and "deepCopy = copyPtr box unbox (co_copy K)"
  shows "independentCopy box unbox K deepCopy"
proof -
  let ?P = "ptrC box unbox K"
  have P: "deep_copier ?P" by (rule ptr_deep [OF assms(1,2)])
  have d: "deepCopy = co_copy ?P" by (simp add: assms(3))
  have "\<exists>b h'. deepCopy (Some a) h = (Some b, h') \<and>
        lim h \<le> b \<and> (\<forall>c < lim h. mem h' c = mem h c) \<and> co_val ?P h' (Some b) = co_val ?P h (Some a) \<and>
        (\<forall>h2. agree (- co_reach ?P h' (Some b)) h' h2 \<longrightarrow> co_val ?P h2 (Some a) = co_val ?P h (Some a)) \<and>
        (\<forall>h2. agree (- co_reach ?P h' (Some a)) h' h2 \<longrightarrow> co_val ?P h2 (Some b) = co_val ?P h (Some a))"
    if ok: "co_ok ?P h (Some a)" for h a
  proof -
    obtain b h' where run: "deepCopy (Some a) h = (Some b, h')" by (cases "deepCopy (Some a) h") (auto simp: assms(3) split: prod.splits)
    note c = copier.copied [OF deepD(1) [OF P] ok run [unfolded d], unfolded copies_def extends_def]
    have "b \<in> co_reach ?P h' (Some b)" by (simp add: ptrC_def)
    then have "lim h \<le> b" using deep_copier.copy_fresh [OF P ok run [unfolded d]] by auto
    then show ?thesis using run c deep_copier.separate(2,3) [OF P ok run [unfolded d]] by blast
  qed
  then show ?thesis by (simp add: independentCopy_def Let_def assms(3))
qed

text \<open>
  C25. The deep copies of pools, providers and control planes, of their lists, and of a claim's spec are
  independent of the original: equal in value, in new memory, and neither side sees the other's writes.
\<close>

theorem deep_copies_independent:
  assumes "copylib_ok L"
  shows "independentCopy CPool cPool (poolC L) (poolDeepCopy L) \<and>
    independentCopy CProvider cProvider (providerC L) (providerDeepCopy L) \<and>
    independentCopy CCP cCP (cpC L) (controlPlaneDeepCopy L) \<and>
    independentCopy CList cList (listC L CPools cPools (poolC L)) (poolListDeepCopy L) \<and>
    independentCopy CList cList (listC L CProviders cProviders (providerC L)) (providerListDeepCopy L) \<and>
    independentCopy CList cList (listC L CCPs cCPs (cpC L)) (controlPlaneListDeepCopy L) \<and>
    independentCopy CPoolStatus cPoolStatus (poolStatusC L) (poolStatusDeepCopy L) \<and>
    independentCopy CCPStatus cCPStatus (cpStatusC L) (controlPlaneStatusDeepCopy L) \<and>
    independentCopy CClaimSpec cClaimSpec claimSpecC claimSpecDeepCopy"
  by (intro conjI independentI copy_intros assms)
    (simp_all add: poolDeepCopy_def providerDeepCopy_def controlPlaneDeepCopy_def poolListDeepCopy_def providerListDeepCopy_def
      controlPlaneListDeepCopy_def poolStatusDeepCopy_def controlPlaneStatusDeepCopy_def claimSpecDeepCopy_def
      poolListDeepCopyInto_def providerListDeepCopyInto_def controlPlaneListDeepCopyInto_def)

definition sampleCopylib :: copylib where
  "sampleCopylib = \<lparr>lib_meta = co_copy plainMetaC, lib_listmeta = co_copy plainListmetaC, lib_json = co_copy plainRawC,
     lib_raw = co_copy plainRawC, lib_cond = (\<lambda>c. c), lib_time = (\<lambda>t. t)\<rparr>"

lemma sampleCopylib_ok: "copylib_ok sampleCopylib"
proof -
  have "deep_copier plainMetaC"
    unfolding plainMetaC_def ownerC_def by (intro copy_intros) (auto simp: metaFields_def)
  moreover have "deep_copier plainListmetaC" "deep_copier plainRawC"
    unfolding plainListmetaC_def plainRawC_def by (intro copy_intros; simp)+
  moreover have "metaC sampleCopylib = plainMetaC" "listmetaC sampleCopylib = plainListmetaC"
    "rawC (lib_json sampleCopylib) = plainRawC" "rawC (lib_raw sampleCopylib) = plainRawC"
    by (simp_all add: metaC_def listmetaC_def rawC_def sampleCopylib_def)
  ultimately show ?thesis by (simp add: copylib_ok_def sampleCopylib_def)
qed

text \<open>A pool with labels and a scale-down window.\<close>

definition bareMeta :: "string \<Rightarrow> h_meta" where
  "bareMeta n = \<lparr>hm_name = n, hm_namespace = ''ns'', hm_labels = None, hm_annotations = None, hm_finalizers = None,
     hm_deletion = None, hm_creation = zeroTime, hm_generation = 1, hm_rv = ''1'', hm_owners = None\<rparr>"

definition poolInMemory :: h_pool where
  "poolInMemory = \<lparr>hpl_meta = bareMeta ''pool'',
     hpl_spec = \<lparr>hps_providerRef = ''px'', hps_poolLabelKey = ''k'',
       hps_limits = \<lparr>lm_minNodes = 0, lm_maxNodes = 5, lm_cpuCores = 0, lm_memoryMiB = 0\<rparr>,
       hps_machineTemplate = \<lparr>ht_labels = Some 0\<rparr>, hps_scaleUp = None, hps_scaleDown = Some 1\<rparr>,
     hpl_status = \<lparr>hpst_conditions = None, hpst_observedGeneration = 0, hpst_lastScaleActivity = None, hpst_nextClaimSequence = 0\<rparr>\<rparr>"

definition poolMemory :: memory where
  "poolMemory = \<lparr>mem = (\<lambda>a. if a = 0 then CMap [(''role'', ''worker'')] else if a = 1 then CPolicy \<lparr>hsp_stabilizationWindow = Some 2\<rparr>
     else if a = 2 then CDuration 300 else if a = 3 then CPool poolInMemory else CInt 0), lim = 4\<rparr>"

lemma poolMemory_ok: "co_ok (ptrC CPool cPool (poolC L)) poolMemory (Some 3)"
  by (simp add: ptrC_def poolC_def recordC_def pairC_def metaC_def plainMetaC_def metaFields_def poolSpecC_def templateC_def policyC_def
      poolStatusC_def elemsC_def flatC_def plainC_def poolMemory_def poolInMemory_def bareMeta_def)

theorem deep_copies_independent_witness:
  "\<exists>b h'. poolDeepCopy sampleCopylib (Some 3) poolMemory = (Some b, h') \<and> 4 \<le> b \<and> mem h' 0 = CMap [(''role'', ''worker'')] \<and>
     co_val (ptrC CPool cPool (poolC sampleCopylib)) h' (Some b) = co_val (ptrC CPool cPool (poolC sampleCopylib)) poolMemory (Some 3)"
proof -
  have "independentCopy CPool cPool (poolC sampleCopylib) (poolDeepCopy sampleCopylib)"
    using deep_copies_independent [OF sampleCopylib_ok] by blast
  then obtain b h' where "poolDeepCopy sampleCopylib (Some 3) poolMemory = (Some b, h')" "lim poolMemory \<le> b"
    "\<forall>c < lim poolMemory. mem h' c = mem poolMemory c"
    "co_val (ptrC CPool cPool (poolC sampleCopylib)) h' (Some b) = co_val (ptrC CPool cPool (poolC sampleCopylib)) poolMemory (Some 3)"
    using poolMemory_ok unfolding independentCopy_def Let_def by blast
  then show ?thesis by (auto simp: poolMemory_def)
qed

end
