(* ===== verification/Claim_Memory.thy ===== *)
theory Claim_Memory
  imports Deep_Copy_Safety Claim_Safety
begin

text \<open>
  The status updates of \<open>nodeclaim_controller.go\<close> in memory: the status is copied by the generated
  \<open>DeepCopy\<close>, the change runs on the claim, and then the copy is compared with the changed status. The
  changes that replace fields work as \<open>Status_Update\<close> has them; the heartbeat, which writes through the
  lease that the copy shares, compares a status with itself.
\<close>

section \<open>An update in memory\<close>

type_synonym h_change = "time \<Rightarrow> h_claim \<Rightarrow> memory \<Rightarrow> h_claim \<times> memory"

text \<open>What is compared with what: the copied status, read after the change, and the changed claim.\<close>

definition statusAttemptMem ::
  "copylib \<Rightarrow> h_change \<Rightarrow> time \<Rightarrow> h_claim \<Rightarrow> memory \<Rightarrow> claim_status \<times> claim" where
  "statusAttemptMem L mutate t latest h =
     (case claimStatusDeepCopyInto L (hcl_status latest) h of (original, h1) \<Rightarrow>
     (case mutate t latest h1 of (updated, h2) \<Rightarrow>
       (co_val (claimStatusC L) h2 original, co_val (claimC L) h2 updated)))"

text \<open>The changes of \<open>acquireLease\<close>, \<open>releaseLease\<close> and \<open>runLeaseHeartbeat\<close>.\<close>

definition setLeaseMem :: "string \<Rightarrow> string \<Rightarrow> time \<Rightarrow> int \<Rightarrow> h_change" where
  "setLeaseMem holder phase started seconds t c h =
     (case new (CLease \<lparr>ls_holder = holder, ls_phase = phase, ls_started = started, ls_lastHeartbeat = started,
        ls_timeoutSeconds = seconds\<rparr>) h of
       (l, h1) \<Rightarrow> (c\<lparr>hcl_status := (hcl_status c)\<lparr>hst_lease := Some l\<rparr>\<rparr>, h1))"

definition dropLeaseMem :: "string \<Rightarrow> h_change" where
  "dropLeaseMem phase t c h = (case hst_lease (hcl_status c) of
     Some l \<Rightarrow> (if ls_phase (cLease (mem h l)) = phase then (c\<lparr>hcl_status := (hcl_status c)\<lparr>hst_lease := None\<rparr>\<rparr>, h) else (c, h))
   | None \<Rightarrow> (c, h))"

definition beatLeaseMem :: "string \<Rightarrow> h_change" where
  "beatLeaseMem phase t c h = (case hst_lease (hcl_status c) of
     Some l \<Rightarrow> (if ls_phase (cLease (mem h l)) = phase
        then (c, store l (CLease ((cLease (mem h l))\<lparr>ls_lastHeartbeat := t\<rparr>)) h) else (c, h))
   | None \<Rightarrow> (c, h))"

text \<open>
  A change of the conditions, at worst in place, as \<open>meta.SetStatusCondition\<close> does with a type that
  is there already; of a nil slice only by a new one.
\<close>

definition changeCondsMem :: "(time \<Rightarrow> condition list \<Rightarrow> condition list) \<Rightarrow> h_change" where
  "changeCondsMem f t c h = (case hst_conditions (hcl_status c) of
     Some a \<Rightarrow> (c, store a (CConds (f t (cConds (mem h a)))) h)
   | None \<Rightarrow> (case new (CConds (f t [])) h of (a, h1) \<Rightarrow> (c\<lparr>hcl_status := (hcl_status c)\<lparr>hst_conditions := Some a\<rparr>\<rparr>, h1)))"

definition changeConds :: "(time \<Rightarrow> condition list \<Rightarrow> condition list) \<Rightarrow> time \<Rightarrow> claim \<Rightarrow> claim" where
  "changeConds f t c = c\<lparr>cl_status := (cl_status c)\<lparr>st_conditions := f t (st_conditions (cl_status c))\<rparr>\<rparr>"

section \<open>Reading a claim\<close>

lemma status_val:
  "co_val (claimStatusC L) h s = \<lparr>st_conditions = (case hst_conditions s of None \<Rightarrow> [] | Some a \<Rightarrow> cConds (mem h a)),
     st_providerID = hst_providerID s, st_nodeName = hst_nodeName s, st_providerRef = hst_providerRef s,
     st_launchAttempts = hst_launchAttempts s, st_lease = map_option (\<lambda>l. cLease (mem h l)) (hst_lease s)\<rparr>"
  by (simp add: claimStatusC_def recordC_def pairC_def ptrC_def aliasC_def elemsC_def plainC_def flatC_def listOf_def split: option.split)

lemma status_ok:
  "co_ok (claimStatusC L) h s \<longleftrightarrow>
     (\<forall>a. hst_conditions s = Some a \<longrightarrow> a < lim h \<and> CConds (cConds (mem h a)) = mem h a) \<and>
     (\<forall>l. hst_lease s = Some l \<longrightarrow> l < lim h \<and> CLease (cLease (mem h l)) = mem h l)"
  by (auto simp: claimStatusC_def recordC_def pairC_def ptrC_def aliasC_def elemsC_def plainC_def flatC_def list_all_iff split: option.split)

lemma status_reach:
  "co_reach (claimStatusC L) h s = set_option (hst_conditions s) \<union> set_option (hst_lease s)"
  by (auto simp: claimStatusC_def recordC_def pairC_def ptrC_def aliasC_def elemsC_def plainC_def flatC_def split: option.splits)

lemma claim_val:
  "co_val (claimC L) h c = \<lparr>cl_meta = co_val (metaC L) h (hcl_meta c), cl_spec = co_val claimSpecC h (hcl_spec c),
     cl_status = co_val (claimStatusC L) h (hcl_status c)\<rparr>"
  by (simp add: claimC_def recordC_def pairC_def)

lemma claim_ok:
  "co_ok (claimC L) h c \<longleftrightarrow> co_ok (metaC L) h (hcl_meta c) \<and> co_ok claimSpecC h (hcl_spec c) \<and> co_ok (claimStatusC L) h (hcl_status c)"
  by (simp add: claimC_def recordC_def pairC_def)

text \<open>Memory is typed: what the metadata and the spec reach is not the lease and not the conditions.\<close>

definition ownStatus :: "copylib \<Rightarrow> memory \<Rightarrow> h_claim \<Rightarrow> bool" where
  "ownStatus L h c \<longleftrightarrow> (co_reach (metaC L) h (hcl_meta c) \<union> co_reach claimSpecC h (hcl_spec c)) \<inter>
     co_reach (claimStatusC L) h (hcl_status c) = {}"

text \<open>The copied status, by its fields: conditions in new memory, the lease the very same.\<close>

lemma status_copied:
  assumes "copylib_ok L" and "co_ok (claimStatusC L) h s" and "claimStatusDeepCopyInto L s h = (s', h')"
  shows "extends h h'" and "hst_lease s' = hst_lease s" and "\<And>b. hst_conditions s' = Some b \<Longrightarrow> lim h \<le> b"
    and "co_val (claimStatusC L) h' s' = co_val (claimStatusC L) h s" and "co_ok (claimStatusC L) h' s'"
proof -
  have run: "co_copy (claimStatusC L) s h = (s', h')" using assms(3) by simp
  note c = copier.copied [OF claimStatusC_copier [OF assms(1)] assms(2) run, unfolded copies_def]
  then show "extends h h'" "co_val (claimStatusC L) h' s' = co_val (claimStatusC L) h s" "co_ok (claimStatusC L) h' s'" by blast+
  show "hst_lease s' = hst_lease s" using assms(3) by (auto simp: claimStatusDeepCopyInto_def split: prod.splits)
  show "lim h \<le> b" if b: "hst_conditions s' = Some b" for b
  proof -
    obtain p h1 where p: "copyConds L (hst_conditions s) h = (p, h1)" by fastforce
    have P: "deep_copier (condsPtr L)" by (intro copy_intros assms(1)) simp
    have ok: "co_ok (condsPtr L) h (hst_conditions s)"
      using assms(2) by (auto simp: status_ok ptrC_def elemsC_def plainC_def flatC_def list_all_iff split: option.split)
    have "s' = s\<lparr>hst_conditions := p\<rparr>" "h' = h1" using assms(3) p by (simp_all add: claimStatusDeepCopyInto_def)
    then show ?thesis using deep_copier.copy_fresh [OF P ok, of p h1] p b by (auto simp: ptrC_def)
  qed
qed

lemma claim_stays:
  assumes "copylib_ok L" and "co_ok (claimC L) h c" and "extends h h'"
  shows "co_val (claimC L) h' c = co_val (claimC L) h c"
  using copier.in_ext [OF claimC_copier [OF assms(1)] assms(2,3)] by (simp add: stays_def)

text \<open>Writing a cell of the status changes neither metadata nor spec.\<close>

lemma store_status:
  assumes "copylib_ok L" and "co_ok (claimC L) h c" and "ownStatus L h c" and "a \<in> co_reach (claimStatusC L) h (hcl_status c)"
    and "extends h h'"
  shows "co_val (metaC L) (store a v h') (hcl_meta c) = co_val (metaC L) h (hcl_meta c)"
    and "co_val claimSpecC (store a v h') (hcl_spec c) = co_val claimSpecC h (hcl_spec c)"
proof -
  have ok: "co_ok (metaC L) h (hcl_meta c)" "co_ok claimSpecC h (hcl_spec c)" using assms(2) by (simp_all add: claim_ok)
  have "a \<notin> co_reach (metaC L) h (hcl_meta c)" "a \<notin> co_reach claimSpecC h (hcl_spec c)"
    using assms(3,4) by (auto simp: ownStatus_def)
  then have "agree (co_reach (metaC L) h (hcl_meta c)) h (store a v h')" "agree (co_reach claimSpecC h (hcl_spec c)) h (store a v h')"
    using agree_extends [OF assms(5)] copier.reach_lim [OF deepD(1) [OF lib_deep(1) [OF assms(1)]] ok(1)] claim_spec.reach_lim [OF ok(2)]
    by (auto simp: agree_def)
  then show "co_val (metaC L) (store a v h') (hcl_meta c) = co_val (metaC L) h (hcl_meta c)"
    "co_val claimSpecC (store a v h') (hcl_spec c) = co_val claimSpecC h (hcl_spec c)"
    using copier.frame [OF deepD(1) [OF lib_deep(1) [OF assms(1)]] ok(1)] claim_spec.frame [OF ok(2)] by (simp_all add: stays_def)
qed

text \<open>A claim with another lease or other conditions, and a claim whose lease or conditions were written.\<close>

lemma val_lease:
  "co_val (claimC L) h (c\<lparr>hcl_status := (hcl_status c)\<lparr>hst_lease := p\<rparr>\<rparr>) = (co_val (claimC L) h c)
     \<lparr>cl_status := (cl_status (co_val (claimC L) h c))\<lparr>st_lease := map_option (\<lambda>l. cLease (mem h l)) p\<rparr>\<rparr>"
  by (simp add: claim_val status_val)

lemma val_conds:
  "co_val (claimC L) h (c\<lparr>hcl_status := (hcl_status c)\<lparr>hst_conditions := Some a\<rparr>\<rparr>) = (co_val (claimC L) h c)
     \<lparr>cl_status := (cl_status (co_val (claimC L) h c))\<lparr>st_conditions := cConds (mem h a)\<rparr>\<rparr>"
  by (simp add: claim_val status_val)

lemma val_lease_store:
  assumes "copylib_ok L" and "co_ok (claimC L) h c" and "ownStatus L h c" and "extends h h'" and l: "hst_lease (hcl_status c) = Some l"
  shows "co_val (claimC L) (store l (CLease v) h') c = (co_val (claimC L) h c)
     \<lparr>cl_status := (cl_status (co_val (claimC L) h c))\<lparr>st_lease := Some v\<rparr>\<rparr>"
proof -
  have st: "co_ok (claimStatusC L) h (hcl_status c)" using assms(2) by (simp add: claim_ok)
  have "l \<in> co_reach (claimStatusC L) h (hcl_status c)" using l by (simp add: status_reach)
  note other = store_status [OF assms(1-3) this assms(4)]
  have "a < lim h \<and> a \<noteq> l" if "hst_conditions (hcl_status c) = Some a" for a
    using st l that unfolding status_ok by (metis cell.distinct)
  then show ?thesis using l assms(4) by (auto simp: claim_val status_val other extends_def split: option.split)
qed

lemma val_conds_store:
  assumes "copylib_ok L" and "co_ok (claimC L) h c" and "ownStatus L h c" and "extends h h'" and a: "hst_conditions (hcl_status c) = Some a"
  shows "co_val (claimC L) (store a (CConds v) h') c = (co_val (claimC L) h c)
     \<lparr>cl_status := (cl_status (co_val (claimC L) h c))\<lparr>st_conditions := v\<rparr>\<rparr>"
proof -
  have st: "co_ok (claimStatusC L) h (hcl_status c)" using assms(2) by (simp add: claim_ok)
  have "a \<in> co_reach (claimStatusC L) h (hcl_status c)" using a by (simp add: status_reach)
  note other = store_status [OF assms(1-3) this assms(4)]
  have "l < lim h \<and> l \<noteq> a" if "hst_lease (hcl_status c) = Some l" for l
    using st a that unfolding status_ok by (metis cell.distinct)
  then show ?thesis using a assms(4) by (cases "hst_lease (hcl_status c)") (auto simp: claim_val status_val other extends_def)
qed

text \<open>The copy before the change: what it says, and where its cells are.\<close>

lemma original_copy:
  assumes "copylib_ok L" and "co_ok (claimC L) h c"
  obtains s h1 where "claimStatusDeepCopyInto L (hcl_status c) h = (s, h1)" "extends h h1"
    "\<And>h2. extends h1 h2 \<Longrightarrow> co_val (claimStatusC L) h2 s = cl_status (co_val (claimC L) h c)"
    "\<And>h2. extends h1 h2 \<Longrightarrow> co_val (claimC L) h2 c = co_val (claimC L) h c"
    "hst_lease s = hst_lease (hcl_status c)" "\<And>b. hst_conditions s = Some b \<Longrightarrow> lim h \<le> b"
proof -
  obtain s h1 where copy: "claimStatusDeepCopyInto L (hcl_status c) h = (s, h1)" by fastforce
  have st: "co_ok (claimStatusC L) h (hcl_status c)" using assms(2) by (simp add: claim_ok)
  note K = status_copied [OF assms(1) st copy]
  have "co_val (claimStatusC L) h2 s = cl_status (co_val (claimC L) h c)" if "extends h1 h2" for h2
    using copier.in_ext [OF claimStatusC_copier [OF assms(1)] K(5) that] K(4) by (simp add: stays_def claim_val)
  moreover have "co_val (claimC L) h2 c = co_val (claimC L) h c" if "extends h1 h2" for h2
    using claim_stays [OF assms] extends_trans [OF K(1) that] by blast
  ultimately show ?thesis using that copy K by blast
qed

lemma set_attempt:
  assumes "copylib_ok L" and "co_ok (claimC L) h c"
  shows "statusAttemptMem L (setLeaseMem holder p b n) t c h =
    (cl_status (co_val (claimC L) h c), setLease holder p b n t (co_val (claimC L) h c))"
proof -
  obtain s h1 where k: "claimStatusDeepCopyInto L (hcl_status c) h = (s, h1)"
    "\<And>h2. extends h1 h2 \<Longrightarrow> co_val (claimStatusC L) h2 s = cl_status (co_val (claimC L) h c)"
    "\<And>h2. extends h1 h2 \<Longrightarrow> co_val (claimC L) h2 c = co_val (claimC L) h c"
    by (rule original_copy [OF assms]) blast
  obtain l h2 where n: "new (CLease \<lparr>ls_holder = holder, ls_phase = p, ls_started = b, ls_lastHeartbeat = b, ls_timeoutSeconds = n\<rparr>) h1 = (l, h2)"
    by fastforce
  have "extends h1 h2" "mem h2 l = CLease \<lparr>ls_holder = holder, ls_phase = p, ls_started = b, ls_lastHeartbeat = b, ls_timeoutSeconds = n\<rparr>"
    using new_extends [OF n] by blast+
  then show ?thesis using k
    by (simp add: statusAttemptMem_def setLeaseMem_def n val_lease setLease_def)
qed

lemma drop_attempt:
  assumes "copylib_ok L" and "co_ok (claimC L) h c"
  shows "statusAttemptMem L (dropLeaseMem p) t c h = (cl_status (co_val (claimC L) h c), dropLease p t (co_val (claimC L) h c))"
proof -
  obtain s h1 where k: "claimStatusDeepCopyInto L (hcl_status c) h = (s, h1)"
    "co_val (claimStatusC L) h1 s = cl_status (co_val (claimC L) h c)" "co_val (claimC L) h1 c = co_val (claimC L) h c"
    by (rule original_copy [OF assms]) blast
  have "st_lease (cl_status (co_val (claimC L) h c)) = map_option (\<lambda>l. cLease (mem h1 l)) (hst_lease (hcl_status c))"
    unfolding k(3) [symmetric] by (simp add: claim_val status_val)
  then show ?thesis using k
    by (cases "hst_lease (hcl_status c)") (auto simp: statusAttemptMem_def dropLeaseMem_def val_lease dropLease_def)
qed

lemma conds_attempt:
  assumes "copylib_ok L" and "co_ok (claimC L) h c" and "ownStatus L h c"
  shows "statusAttemptMem L (changeCondsMem f) t c h = (cl_status (co_val (claimC L) h c), changeConds f t (co_val (claimC L) h c))"
proof -
  obtain s h1 where k: "claimStatusDeepCopyInto L (hcl_status c) h = (s, h1)" "extends h h1"
    "\<And>h2. extends h1 h2 \<Longrightarrow> co_val (claimStatusC L) h2 s = cl_status (co_val (claimC L) h c)"
    "\<And>h2. extends h1 h2 \<Longrightarrow> co_val (claimC L) h2 c = co_val (claimC L) h c"
    and l: "hst_lease s = hst_lease (hcl_status c)" and b: "\<And>b. hst_conditions s = Some b \<Longrightarrow> lim h \<le> b"
    by (rule original_copy [OF assms(1,2)]) blast
  have c1: "st_conditions (cl_status (co_val (claimC L) h c)) = (case hst_conditions (hcl_status c) of None \<Rightarrow> [] | Some a \<Rightarrow> cConds (mem h1 a))"
    using k(4) [of h1, symmetric] by (simp add: claim_val status_val)
  show ?thesis
  proof (cases "hst_conditions (hcl_status c)")
    case None
    obtain a h2 where n: "new (CConds (f t [])) h1 = (a, h2)" by fastforce
    have "extends h1 h2" "mem h2 a = CConds (f t [])" using new_extends [OF n] by blast+
    then show ?thesis using k c1 None
      by (simp add: statusAttemptMem_def changeCondsMem_def n val_conds changeConds_def)
  next
    case (Some a)
    have st: "co_ok (claimStatusC L) h (hcl_status c)" using assms(2) by (simp add: claim_ok)
    have a: "a < lim h" "\<And>l. hst_lease (hcl_status c) = Some l \<Longrightarrow> l \<noteq> a"
      using st Some unfolding status_ok by (metis, metis cell.distinct)
    have "hst_conditions s \<noteq> Some a" "hst_lease s \<noteq> Some a" using b [of a] a l by auto
    then have "co_val (claimStatusC L) (store a v h1) s = co_val (claimStatusC L) h1 s" for v
      by (cases "hst_lease s"; cases "hst_conditions s") (simp_all add: status_val)
    then show ?thesis using k c1 Some val_conds_store [OF assms k(2) Some]
      by (simp add: statusAttemptMem_def changeCondsMem_def changeConds_def)
  qed
qed

lemma beat_attempt:
  assumes "copylib_ok L" and "co_ok (claimC L) h c" and "ownStatus L h c"
  shows "statusAttemptMem L (beatLeaseMem p) t c h = beatInPlace p t (co_val (claimC L) h c)"
proof -
  obtain s h1 where k: "claimStatusDeepCopyInto L (hcl_status c) h = (s, h1)" "extends h h1"
    "co_val (claimStatusC L) h1 s = cl_status (co_val (claimC L) h c)" "co_val (claimC L) h1 c = co_val (claimC L) h c"
    and l: "hst_lease s = hst_lease (hcl_status c)" and b: "\<And>b. hst_conditions s = Some b \<Longrightarrow> lim h \<le> b"
    by (rule original_copy [OF assms(1,2)]) blast
  have l1: "st_lease (cl_status (co_val (claimC L) h c)) = map_option (\<lambda>l. cLease (mem h1 l)) (hst_lease (hcl_status c))"
    using k(4) [symmetric] by (simp add: claim_val status_val)
  show ?thesis
  proof (cases "hst_lease (hcl_status c)")
    case None
    then show ?thesis using k l1 by (simp add: statusAttemptMem_def beatLeaseMem_def beatInPlace_def beatLease_def)
  next
    case (Some a)
    have "a < lim h" using assms(2) Some by (simp add: claim_ok status_ok)
    then have "hst_conditions s \<noteq> Some a" using b [of a] by auto
    then have "co_val (claimStatusC L) (store a (CLease v) h1) s = (co_val (claimStatusC L) h1 s)\<lparr>st_lease := Some v\<rparr>" for v
      using l Some by (cases "hst_conditions s") (simp_all add: status_val)
    then show ?thesis using k l1 Some val_lease_store [OF assms k(2) Some]
      by (simp add: statusAttemptMem_def beatLeaseMem_def beatInPlace_def beatLease_def)
  qed
qed

section \<open>Properties\<close>

text \<open>
  C9. A status update in memory does what the model of the status updates says: for the changes that
  take, drop or replace fields, and for changes of the conditions even in place, the status compared is
  the one from before the change, and the claim written is the changed one; for the heartbeat the status
  compared is the changed one itself.
\<close>

theorem status_update_memory:
  assumes "copylib_ok L" and "co_ok (claimC L) h c" and "ownStatus L h c"
  shows "statusAttemptMem L (setLeaseMem holder p b n) t c h =
      (cl_status (co_val (claimC L) h c), setLease holder p b n t (co_val (claimC L) h c)) \<and>
    statusAttemptMem L (dropLeaseMem p) t c h = (cl_status (co_val (claimC L) h c), dropLease p t (co_val (claimC L) h c)) \<and>
    statusAttemptMem L (changeCondsMem f) t c h = (cl_status (co_val (claimC L) h c), changeConds f t (co_val (claimC L) h c)) \<and>
    statusAttemptMem L (beatLeaseMem p) t c h = beatInPlace p t (co_val (claimC L) h c)"
  using set_attempt [OF assms(1,2)] drop_attempt [OF assms(1,2)] conds_attempt [OF assms] beat_attempt [OF assms] by blast


text \<open>A claim with a lease and one condition in memory.\<close>

definition claimInMemory :: h_claim where
  "claimInMemory = \<lparr>hcl_meta = bareMeta ''c'',
     hcl_spec = \<lparr>hcs_poolRef = ''p'', hcs_requirements = None, hcs_idempotencyKey = [], hcs_terminationGracePeriod = None\<rparr>,
     hcl_status = \<lparr>hst_conditions = Some 0, hst_providerID = [], hst_nodeName = [], hst_providerRef = [], hst_launchAttempts = 0,
       hst_lease = Some 1\<rparr>\<rparr>"

definition sampleLease :: claim_lease where
  "sampleLease = \<lparr>ls_holder = ''pod'', ls_phase = leasePhaseLaunching, ls_started = 5, ls_lastHeartbeat = 5, ls_timeoutSeconds = 600\<rparr>"

definition claimMemory :: memory where
  "claimMemory = \<lparr>mem = (\<lambda>a. if a = 0 then CConds [] else if a = 1 then CLease sampleLease
     else if a = 2 then CClaim claimInMemory else CInt 0), lim = 3\<rparr>"

lemma claimMemory_ok:
  "co_ok (claimC sampleCopylib) claimMemory claimInMemory" "ownStatus sampleCopylib claimMemory claimInMemory"
  "co_ok (ptrC CClaim cClaim (claimC sampleCopylib)) claimMemory (Some 2)"
  by (simp_all add: claimC_def recordC_def pairC_def metaC_def plainMetaC_def metaFields_def claimSpecC_def claimStatusC_def
      ptrC_def aliasC_def elemsC_def flatC_def plainC_def ownStatus_def claimMemory_def claimInMemory_def bareMeta_def)

theorem status_update_memory_witness:
  "(case statusAttemptMem sampleCopylib (beatLeaseMem leasePhaseLaunching) 9 claimInMemory claimMemory of
      (original, updated) \<Rightarrow> original = cl_status updated \<and> st_lease original = Some (sampleLease\<lparr>ls_lastHeartbeat := 9\<rparr>)) \<and>
   (case statusAttemptMem sampleCopylib (dropLeaseMem leasePhaseLaunching) 9 claimInMemory claimMemory of
      (original, updated) \<Rightarrow> st_lease original = Some sampleLease \<and> st_lease (cl_status updated) = None)"
proof -
  have "st_lease (cl_status (co_val (claimC sampleCopylib) claimMemory claimInMemory)) = Some sampleLease"
    by (simp add: claim_val status_val claimMemory_def claimInMemory_def)
  moreover have "ls_phase sampleLease = leasePhaseLaunching" by (simp add: sampleLease_def)
  ultimately show ?thesis
    using status_update_memory [OF sampleCopylib_ok claimMemory_ok(1,2), of "''h''" leasePhaseLaunching 0 600 9]
    by (simp add: beatInPlace_def beatLease_def dropLease_def)
qed

text \<open>
  C26. The deep copy of a claim has the value of the claim but shares its lease, and only that, with it:
  what is written through the lease of one is read through the other.
\<close>

theorem claim_copy_shares_lease:
  assumes "copylib_ok L" and "co_ok (ptrC CClaim cClaim (claimC L)) h (Some a)" and "hst_lease (hcl_status (cClaim (mem h a))) = Some l"
  shows "\<exists>b h'. claimDeepCopy L (Some a) h = (Some b, h') \<and>
    co_val (ptrC CClaim cClaim (claimC L)) h' (Some b) = co_val (ptrC CClaim cClaim (claimC L)) h (Some a) \<and>
    co_reach (ptrC CClaim cClaim (claimC L)) h' (Some b) \<inter> co_reach (ptrC CClaim cClaim (claimC L)) h (Some a) = {l} \<and>
    (\<forall>v. \<forall>p \<in> {a, b}. st_lease (cl_status (the (co_val (ptrC CClaim cClaim (claimC L)) (store l (CLease v) h') (Some p)))) = Some v)"
proof -
  let ?P = "ptrC CClaim cClaim (claimC L)" and ?c = "cClaim (mem h a)"
  obtain c' h1 where c': "claimDeepCopyInto L ?c h = (c', h1)" by fastforce
  obtain b h' where b: "new (CClaim c') h1 = (b, h')" by fastforce
  have run: "claimDeepCopy L (Some a) h = (Some b, h')" by (simp add: claimDeepCopy_def c' b)
  have P: "copier ?P" using claimC_copier [OF assms(1)] by (simp add: ptr_copier)
  have n: "mem h' b = CClaim c'" using new_extends [OF b] by blast
  have "co_copy ?P (Some a) h = (Some b, h')" using run by (simp add: claimDeepCopy_def)
  note c = copier.copied [OF P assms(2) this, unfolded copies_def]
  have l': "hst_lease (hcl_status c') = Some l"
    using c' assms(3) by (auto simp: claimDeepCopyInto_def claimStatusDeepCopyInto_def split: prod.splits)
  have st: "co_ok (claimStatusC L) h (hcl_status ?c)" using assms(2) by (simp add: ptrC_def claim_ok)
  have "co_ok (claimC L) h ?c" using assms(2) by (simp add: ptrC_def)
  then have "extends h h1" using copier.copied [OF claimC_copier [OF assms(1)], of h ?c c' h1] c' by (simp add: copies_def)
  then have fresh: "lim h \<le> b" using new_extends [OF b] by (simp add: extends_def)
  have ok: "co_ok (metaC L) h (hcl_meta ?c)" "co_ok claimSpecC h (hcl_spec ?c)" "a < lim h" "mem h a = CClaim ?c"
    using assms(2) by (simp_all add: ptrC_def claim_ok)
  have l: "l < lim h" "l \<noteq> a" using st assms(3) ok(4) unfolding status_ok by (metis, metis cell.distinct)
  have "co_shared ?P h (Some a) \<subseteq> {l}"
    using assms(3) deepD(2) [OF lib_deep(1) [OF assms(1)] ok(1)] claim_spec.shares_nothing [OF ok(2)] st
    by (auto simp: claimC_def claimStatusC_def recordC_def pairC_def ptrC_def aliasC_def elemsC_def plainC_def flatC_def split: option.splits)
  then have "co_reach ?P h' (Some b) \<inter> co_reach ?P h (Some a) \<subseteq> {l}" using c copier.reach_lim [OF P assms(2)] by fastforce
  moreover have "l \<in> co_reach ?P h' (Some b)" "l \<in> co_reach ?P h (Some a)"
    using n l' assms(3) by (simp_all add: ptrC_def claimC_def recordC_def pairC_def status_reach)
  ultimately have "co_reach ?P h' (Some b) \<inter> co_reach ?P h (Some a) = {l}" by blast
  moreover have "st_lease (cl_status (the (co_val ?P (store l (CLease v) h') (Some p)))) = Some v" if "p \<in> {a, b}" for v p
  proof -
    have "mem h' a = CClaim ?c" using c ok(3,4) by (simp add: extends_def)
    moreover have "b \<noteq> l" using fresh l(1) by simp
    ultimately have "\<exists>x. mem (store l (CLease v) h') p = CClaim x \<and> hst_lease (hcl_status x) = Some l"
      using that n l(2) l' assms(3) by auto
    then show ?thesis by (auto simp: ptrC_def claim_val status_val)
  qed
  ultimately show ?thesis using run c by blast
qed

text \<open>A lease lasts three heartbeat intervals from where it was taken or last beaten, wherever that was stored.\<close>

lemma lease_live_while_beating:
  assumes "b \<noteq> zeroTime" and "\<bar>t - b\<bar> < 2 ^ 62"
    and "l = st_lease (cl_status (setLease h p b (leaseSeconds launchLeaseTimeout) b' c)) \<or>
      l = st_lease (cl_status (beatLease p b (setLease h p s (leaseSeconds launchLeaseTimeout) b' c)))"
  shows "leaseExpired t l \<longleftrightarrow> 3 * heartbeatPeriod (launchLeaseTimeout div 3) < t - b"
  using assms by (auto simp: leaseExpired_def setLease_def beatLease_def leaseReferenceTime_def timeIsZero_def leaseSeconds_def
      heartbeatPeriod_def lease_consts mul64_exact in64_def timeSub_def)

text \<open>
  C8. The heartbeat of a launch lease never writes: whatever its ticks, the calls that it makes are
  reads of the claim and waits. So the stored lease runs out ten minutes after it was taken, however long
  the launch takes.
\<close>

theorem heartbeat_never_renews:
  assumes "env_ok E" and "b \<noteq> zeroTime" and "\<bar>t - b\<bar> < 2 ^ 62"
  shows "emits (\<lambda>e. e = EWait \<or> (\<exists>r. e = EGetClaim key r)) s ((), runLeaseHeartbeat E key phase ticks s) \<and>
    (leaseExpired t (st_lease (cl_status (setLease holder phase b (leaseSeconds launchLeaseTimeout) b c))) \<longleftrightarrow> 600 * second < t - b)"
proof (intro conjI)
  let ?P = "\<lambda>e. e = EWait \<or> (\<exists>r. e = EGetClaim key r)"
  have eq: "\<And>x y. libEqClaim E x y \<longleftrightarrow> x = y" using assms(1) by (simp add: env_ok_def deepequal_ok_def)
  have "emits ?P s (claimStatusByKeyAttempt E key (beatInPlace phase) s)" for s
    unfolding claimStatusByKeyAttempt_def beatInPlace_def
    by (intro emits_intros; simp add: eq)
  then have "emits ?P s (retryClaim E (claimStatusByKeyAttempt E key (beatInPlace phase)) s)" for s
    by (intro retry_run_emits [OF retryClaim_run [OF assms(1)]]) auto
  then have tick: "emits ?P s (updateStatusByKey E key (beatInPlace phase) s)" for s
    unfolding updateStatusByKey_def by (intro emits_bind emits_sum emits_ret)
  show "emits ?P s ((), runLeaseHeartbeat E key phase ticks s)"
  proof (induction ticks arbitrary: s)
    case (Cons tick ticks)
    obtain r s1 where u: "updateStatusByKey E key (beatInPlace phase) s = (r, s1)" by fastforce
    have "emits ?P s (r, s1)" using tick [of s] u by simp
    from emits_trans [OF this Cons.IH] show ?case using u by (cases tick) (simp_all add: heartbeatTick_def emits_ret)
  qed (simp add: emits_ret)
  show "leaseExpired t (st_lease (cl_status (setLease holder phase b (leaseSeconds launchLeaseTimeout) b c))) \<longleftrightarrow> 600 * second < t - b"
    using lease_live_while_beating [OF assms(2,3) disjI1 [OF refl], of holder phase b c] by (simp add: heartbeatPeriod_def lease_consts)
qed

theorem heartbeat_never_renews_witness:
  "emits (\<lambda>e. e = EWait \<or> (\<exists>r. e = EGetClaim (''ns'', ''c'') r)) (startState (claimWorld claimLeased))
     ((), runLeaseHeartbeat sampleEnv (''ns'', ''c'') leasePhaseLaunching [True, True, True] (startState (claimWorld claimLeased))) \<and>
   leaseExpired (601 * second) (st_lease (cl_status (setLease ''h'' leasePhaseLaunching 0 (leaseSeconds launchLeaseTimeout) 0 claimA))) \<and>
   \<not> leaseExpired (600 * second) (st_lease (cl_status (setLease ''h'' leasePhaseLaunching 0 (leaseSeconds launchLeaseTimeout) 0 claimA)))"
  using heartbeat_never_renews [OF sampleEnv_ok, of 0 "601 * second" "(''ns'', ''c'')"
      "startState (claimWorld claimLeased)" leasePhaseLaunching "[True, True, True]" "''h''" claimA]
    heartbeat_never_renews [OF sampleEnv_ok, of 0 "600 * second" "(''ns'', ''c'')"
      "startState (claimWorld claimLeased)" leasePhaseLaunching "[True, True, True]" "''h''" claimA]
  by (simp add: second_def millisecond_def zeroTime_def)

theorem claim_copy_shares_lease_witness:
  "\<exists>b h'. claimDeepCopy sampleCopylib (Some 2) claimMemory = (Some b, h') \<and>
     st_lease (cl_status (the (co_val (ptrC CClaim cClaim (claimC sampleCopylib))
       (store 1 (CLease (sampleLease\<lparr>ls_lastHeartbeat := 9\<rparr>)) h') (Some b)))) = Some (sampleLease\<lparr>ls_lastHeartbeat := 9\<rparr>)"
proof -
  have "hst_lease (hcl_status (cClaim (mem claimMemory 2))) = Some 1" by (simp add: claimMemory_def claimInMemory_def)
  from claim_copy_shares_lease [OF sampleCopylib_ok claimMemory_ok(3) this] show ?thesis by blast
qed

end
