(* ===== verification/Manager_Setup.thy ===== *)
theory Manager_Setup
  imports KNS_Prelude
begin

text \<open>
  The start of the process, \<open>cmd/main.go\<close>, with the \<open>SetupWithManager\<close> of the three reconcilers and
  the registration of the API types: which options the flags give the manager and its servers, and in
  which order the controllers are set up. What controller-runtime does with a step is a parameter.
\<close>

section \<open>Flags and options\<close>

record flags =
  fg_metricsAddr :: string
  fg_probeAddr :: string
  fg_leaderElect :: bool
  fg_secureMetrics :: bool
  fg_webhookCertPath :: string
  fg_webhookCertName :: string
  fg_webhookCertKey :: string
  fg_metricsCertPath :: string
  fg_metricsCertName :: string
  fg_metricsCertKey :: string
  fg_enableHTTP2 :: bool

definition defaultFlags :: flags where
  "defaultFlags = \<lparr>fg_metricsAddr = ''0'', fg_probeAddr = '':8081'', fg_leaderElect = False, fg_secureMetrics = True,
     fg_webhookCertPath = [], fg_webhookCertName = ''tls.crt'', fg_webhookCertKey = ''tls.key'',
     fg_metricsCertPath = [], fg_metricsCertName = ''tls.crt'', fg_metricsCertKey = ''tls.key'', fg_enableHTTP2 = False\<rparr>"

record tls_config =
  nextProtos :: "string list"

definition disableHTTP2 :: "tls_config \<Rightarrow> tls_config" where
  "disableHTTP2 c = c\<lparr>nextProtos := [''http/1.1'']\<rparr>"

definition tlsOpts :: "flags \<Rightarrow> (tls_config \<Rightarrow> tls_config) list" where
  "tlsOpts f = (if \<not> fg_enableHTTP2 f then [disableHTTP2] else [])"

text \<open>The options of the two servers; a file name is empty until a directory is given.\<close>

record webhook_options =
  wo_tlsOpts :: "(tls_config \<Rightarrow> tls_config) list"
  wo_certDir :: string
  wo_certName :: string
  wo_keyName :: string

definition webhookServerOptions :: "flags \<Rightarrow> webhook_options" where
  "webhookServerOptions f =
     (let o1 = \<lparr>wo_tlsOpts = tlsOpts f, wo_certDir = [], wo_certName = [], wo_keyName = []\<rparr> in
      if 0 < length (fg_webhookCertPath f)
      then o1\<lparr>wo_certDir := fg_webhookCertPath f, wo_certName := fg_webhookCertName f, wo_keyName := fg_webhookCertKey f\<rparr>
      else o1)"

record metrics_options =
  mo_bindAddress :: string
  mo_secureServing :: bool
  mo_tlsOpts :: "(tls_config \<Rightarrow> tls_config) list"
  mo_authFilter :: bool
  mo_certDir :: string
  mo_certName :: string
  mo_keyName :: string

definition metricsServerOptions :: "flags \<Rightarrow> metrics_options" where
  "metricsServerOptions f =
     (let o1 = \<lparr>mo_bindAddress = fg_metricsAddr f, mo_secureServing = fg_secureMetrics f, mo_tlsOpts = tlsOpts f,
            mo_authFilter = False, mo_certDir = [], mo_certName = [], mo_keyName = []\<rparr>;
          o2 = (if fg_secureMetrics f then o1\<lparr>mo_authFilter := True\<rparr> else o1) in
      if 0 < length (fg_metricsCertPath f)
      then o2\<lparr>mo_certDir := fg_metricsCertPath f, mo_certName := fg_metricsCertName f, mo_keyName := fg_metricsCertKey f\<rparr>
      else o2)"

section \<open>The scheme and the controllers\<close>

type_synonym kind = "string \<times> string \<times> string"  \<comment> \<open>group, version, kind\<close>

definition groupVersion :: "string \<times> string" where
  "groupVersion = (''kubenodesmith.parawell.cloud'', ''v1alpha1'')"

definition apiKind :: "string \<Rightarrow> kind" where
  "apiKind k = (fst groupVersion, snd groupVersion, k)"

text \<open>What the \<open>init\<close> functions of the four type files register.\<close>

definition registeredClaims :: "kind list" where
  "registeredClaims = [apiKind ''NodeSmithClaim'', apiKind ''NodeSmithClaimList'']"

definition registeredControlPlanes :: "kind list" where
  "registeredControlPlanes = [apiKind ''NodeSmithControlPlane'', apiKind ''NodeSmithControlPlaneList'']"

definition registeredPools :: "kind list" where
  "registeredPools = [apiKind ''NodeSmithPool'', apiKind ''NodeSmithPoolList'']"

definition registeredProviders :: "kind list" where
  "registeredProviders = [apiKind ''NodeSmithProvider'', apiKind ''NodeSmithProviderList'']"

text \<open>The scheme: client-go's kinds and these.\<close>

definition scheme :: "kind list \<Rightarrow> kind list" where
  "scheme clientgo = clientgo @ registeredClaims @ registeredControlPlanes @ registeredPools @ registeredProviders"

text \<open>A controller: its name, its resource, the resources it owns, and the sources with their mappings.\<close>

datatype mapping = MapPoolToControllers | MapProviderToControllers

record registration =
  rg_name :: string
  rg_for :: kind
  rg_owns :: "kind list"
  rg_sources :: "(kind \<times> mapping) list"

definition controlPlaneSetup :: registration where
  "controlPlaneSetup = \<lparr>rg_name = ''controlplane'', rg_for = apiKind ''NodeSmithControlPlane'', rg_owns = [],
     rg_sources = [(apiKind ''NodeSmithPool'', MapPoolToControllers), (apiKind ''NodeSmithProvider'', MapProviderToControllers)]\<rparr>"

definition poolSetup :: registration where
  "poolSetup = \<lparr>rg_name = ''nodepool'', rg_for = apiKind ''NodeSmithPool'', rg_owns = [apiKind ''NodeSmithClaim''], rg_sources = []\<rparr>"

definition claimSetup :: registration where
  "claimSetup = \<lparr>rg_name = ''nodeclaim'', rg_for = apiKind ''NodeSmithClaim'', rg_owns = [], rg_sources = []\<rparr>"

definition watched :: "registration \<Rightarrow> kind list" where
  "watched r = rg_for r # rg_owns r @ map fst (rg_sources r)"

section \<open>The start\<close>

record manager_options =
  mg_scheme :: "kind list"
  mg_metrics :: metrics_options
  mg_webhook :: webhook_options
  mg_probeAddr :: string
  mg_leaderElection :: bool
  mg_leaderElectionID :: string
  mg_syncPeriod :: duration

definition managerOptions :: "kind list \<Rightarrow> flags \<Rightarrow> manager_options" where
  "managerOptions clientgo f = \<lparr>mg_scheme = scheme clientgo, mg_metrics = metricsServerOptions f, mg_webhook = webhookServerOptions f,
     mg_probeAddr = fg_probeAddr f, mg_leaderElection = fg_leaderElect f,
     mg_leaderElectionID = ''12c57729.kubenodesmith.parawell.cloud'', mg_syncPeriod = 30 * second\<rparr>"

datatype setup_step = LoadConfig | NewManager manager_options | Setup registration | Healthz string | Readyz string | StartManager

text \<open>
  One statement \<open>if err := step; err != nil { os.Exit(1) }\<close>, with the log of the steps taken and what
  they returned; \<open>GetConfigOrDie\<close> exits by itself.
\<close>

type_synonym 'w setup_state = "'w \<times> (setup_step \<times> goerr option) list"

definition guarded ::
  "(setup_step \<Rightarrow> 'w \<Rightarrow> goerr option \<times> 'w) \<Rightarrow> setup_step \<Rightarrow> ('w setup_state \<Rightarrow> int \<times> 'w setup_state) \<Rightarrow>
   'w setup_state \<Rightarrow> int \<times> 'w setup_state" where
  "guarded ctrl x k s = (case ctrl x (fst s) of
     (Some e, w1) \<Rightarrow> (1, w1, snd s @ [(x, Some e)])
   | (None, w1) \<Rightarrow> k (w1, snd s @ [(x, None)]))"

text \<open>The exit code, the world and the log.\<close>

definition mainRun ::
  "(setup_step \<Rightarrow> 'w \<Rightarrow> goerr option \<times> 'w) \<Rightarrow> kind list \<Rightarrow> flags \<Rightarrow> 'w \<Rightarrow> int \<times> 'w setup_state" where
  "mainRun ctrl clientgo f w =
     guarded ctrl LoadConfig
     (guarded ctrl (NewManager (managerOptions clientgo f))
     (guarded ctrl (Setup controlPlaneSetup)
     (guarded ctrl (Setup poolSetup)
     (guarded ctrl (Setup claimSetup)
     (guarded ctrl (Healthz ''healthz'')
     (guarded ctrl (Readyz ''readyz'')
     (guarded ctrl StartManager (Pair 0)))))))) (w, [])"

section \<open>What holds of a start\<close>

text \<open>
  The manager is only started with the configuration loaded, the three controllers and both checks set up,
  all without an error, and the exit code says whether it ran to an orderly end; a start without it ends with code 1.
\<close>

lemma mainRun_started:
  assumes "mainRun ctrl clientgo f w = (code, w', log)"
  shows "(\<exists>pre r. log = pre @ [(StartManager, r)] \<and> (code = 0 \<longleftrightarrow> r = None) \<and> list_all (\<lambda>x. snd x = None) pre \<and>
      {NewManager (managerOptions clientgo f), Setup controlPlaneSetup, Setup poolSetup, Setup claimSetup,
        Healthz ''healthz'', Readyz ''readyz''} \<subseteq> fst ` set pre) \<or>
    code = 1 \<and> StartManager \<notin> fst ` set log \<and> log \<noteq> [] \<and> snd (last log) \<noteq> None"
  using assms by (auto simp: mainRun_def guarded_def split: prod.splits option.splits)

text \<open>Every kind that a controller watches is in the manager's scheme.\<close>

lemma watched_registered:
  "r \<in> {controlPlaneSetup, poolSetup, claimSetup} \<Longrightarrow> set (watched r) \<subseteq> set (mg_scheme (managerOptions clientgo f))"
  by (auto simp: watched_def managerOptions_def scheme_def controlPlaneSetup_def poolSetup_def claimSetup_def
      registeredClaims_def registeredControlPlanes_def registeredPools_def registeredProviders_def)

text \<open>A start without flags: no metrics, HTTP/1.1 only, and the default certificates.\<close>

lemma default_start:
  "mo_bindAddress (metricsServerOptions defaultFlags) = ''0''" "mo_authFilter (metricsServerOptions defaultFlags)"
  "nextProtos (fold (\<lambda>opt. opt) (mo_tlsOpts (metricsServerOptions defaultFlags)) c) = [''http/1.1'']"
  "nextProtos (fold (\<lambda>opt. opt) (wo_tlsOpts (webhookServerOptions defaultFlags)) c) = [''http/1.1'']"
  "wo_certDir (webhookServerOptions defaultFlags) = []" "\<not> mg_leaderElection (managerOptions clientgo defaultFlags)"
  by (simp_all add: defaultFlags_def metricsServerOptions_def webhookServerOptions_def managerOptions_def tlsOpts_def
      disableHTTP2_def Let_def)

end
