(* ===== verification/Capacity_Limits.thy ===== *)
theory Capacity_Limits
  imports Capacity
begin

text \<open>
  The scale-up decision around the plan: what counts as inflight, when the pool limits block, and
  what a claim that never becomes ready does to later plans.
\<close>

lemma sum_demands:
  "sum_list (map f (sortDemands ds)) = sum_list (map f ds)" for f :: "pod_demand \<Rightarrow> int"
proof -
  have "sum_mset (mset (map f (sortDemands ds))) = sum_mset (mset (map f ds))"
    by (simp add: sortDemands_def)
  then show ?thesis by (simp only: sum_mset_sum_list)
qed

lemma sum_demandsOf:
  "sum_list (map dm_cpuMilli (demandsOf pods)) = sum_list (map (\<lambda>p. fst (getRequestedResources p)) pods)"
  "sum_list (map dm_memBytes (demandsOf pods)) = sum_list (map (\<lambda>p. snd (getRequestedResources p)) pods)"
  by (induction pods) (auto simp: demandsOf_def)

lemma pending_bucket_in:
  "c \<in> set claims \<Longrightarrow> cs_poolRef (cl_spec c) = poolName \<Longrightarrow> \<not> claimReady E c \<Longrightarrow>
   cs_requirements (cl_spec c) = Some rq \<Longrightarrow>
   \<lparr>bk_remainingCPU = coresToMilli (rq_cpuCores rq), bk_remainingMem = mibToBytes (rq_memoryMiB rq)\<rparr>
     \<in> set (buildPendingClaimBuckets E claims poolName)"
  by (induction claims) (auto split: option.split)

text \<open>C34. An unready claim of the pool absorbs demand: if its requested machine alone has room for
  all pending pods, no machine is ordered. The code does not look at the Failed condition, at the
  deletion timestamp or at the age of that claim, so a claim that the claim controller has given
  up on (Failed, never reconciled again) or that is being deleted suppresses scale-up as well,
  although \<open>countInflightClaims\<close> does not count it once it is deleted or older than 15
  minutes.\<close>

theorem unready_claim_suppresses_scale_up:
  assumes "saneCapacity t" and "list_all okBucket (nodeBuckets @ buildPendingClaimBuckets E claims poolName)"
    and "list_all (\<lambda>p. saneAmount (fst (getRequestedResources p)) \<and> saneAmount (snd (getRequestedResources p))) pods"
    and "c \<in> set claims" "cs_poolRef (cl_spec c) = poolName" "\<not> claimReady E c"
    and "cs_requirements (cl_spec c) = Some rq"
    and "sum_list (map (\<lambda>p. fst (getRequestedResources p)) pods) \<le> coresToMilli (rq_cpuCores rq)"
    and "sum_list (map (\<lambda>p. snd (getRequestedResources p)) pods) \<le> mibToBytes (rq_memoryMiB rq)"
  shows "planCapacity pods (nodeBuckets @ buildPendingClaimBuckets E claims poolName) t = []"
  unfolding planCapacity_def
proof (rule plan.no_order [OF good_demands [OF assms(1,3)] assms(2)])
  show "\<lparr>bk_remainingCPU = coresToMilli (rq_cpuCores rq), bk_remainingMem = mibToBytes (rq_memoryMiB rq)\<rparr>
     \<in> set (nodeBuckets @ buildPendingClaimBuckets E claims poolName)"
    using pending_bucket_in [OF assms(4-7)] by simp
  fix k
  have rn: "resNeed True = dm_cpuMilli" "resNeed False = dm_memBytes"
    by (simp_all add: fun_eq_iff resNeed_def)
  show "sum_list (map (resNeed k) (sortDemands (demandsOf pods))) \<le>
    resRoom k \<lparr>bk_remainingCPU = coresToMilli (rq_cpuCores rq), bk_remainingMem = mibToBytes (rq_memoryMiB rq)\<rparr>"
    using assms(8,9) by (cases k) (simp_all add: rn sum_demands sum_demandsOf resRoom_def)
qed

definition failedClaim :: claim where
  "failedClaim = (sampleClaim ''pool-000001'')\<lparr>cl_status := sampleStatus\<lparr>st_launchAttempts := 3,
     st_conditions := [\<lparr>cond_type = ''Failed'', cond_status = CTrue, cond_reason = ''LaunchAttemptsExceeded'',
       cond_message = [], cond_generation = 1, cond_transition = 0\<rparr>]\<rparr>,
     cl_meta := (sampleMeta ''pool-000001'')\<lparr>om_creation := 0\<rparr>\<rparr>"

theorem unready_claim_suppresses_scale_up_witness:
  "planCapacity [samplePod ''p'' 2000 (2 ^ 30)] ([] @ buildPendingClaimBuckets sampleEnv [failedClaim] ''pool'')
     planTemplate = [] \<and>
   countInflightClaims sampleEnv (60 * minute) (Some samplePool) (Some [failedClaim]) = Inr (0, 0, 0)"
proof -
  have "countInflightClaims sampleEnv (60 * minute) (Some samplePool) (Some [failedClaim]) = Inr (0, 0, 0)"
    by code_simp
  moreover have "planCapacity [samplePod ''p'' 2000 (2 ^ 30)]
      ([] @ buildPendingClaimBuckets sampleEnv [failedClaim] ''pool'') planTemplate = []"
  proof (rule unready_claim_suppresses_scale_up [OF plan_sample_ok(1),
        where c = failedClaim and rq = "\<lparr>rq_cpuCores = 4, rq_memoryMiB = 8192\<rparr>"])
    show "list_all okBucket ([] @ buildPendingClaimBuckets sampleEnv [failedClaim] ''pool'')" by code_simp
    show "list_all (\<lambda>p. saneAmount (fst (getRequestedResources p)) \<and> saneAmount (snd (getRequestedResources p)))
      [samplePod ''p'' 2000 (2 ^ 30)]" by code_simp
    show "\<not> claimReady sampleEnv failedClaim" by code_simp
    show "sum_list (map (\<lambda>p. fst (getRequestedResources p)) [samplePod ''p'' 2000 (2 ^ 30)])
      \<le> coresToMilli (rq_cpuCores \<lparr>rq_cpuCores = 4, rq_memoryMiB = 8192\<rparr>)" by code_simp
    show "sum_list (map (\<lambda>p. snd (getRequestedResources p)) [samplePod ''p'' 2000 (2 ^ 30)])
      \<le> mibToBytes (rq_memoryMiB \<lparr>rq_cpuCores = 4, rq_memoryMiB = 8192\<rparr>)" by code_simp
  qed (simp_all add: failedClaim_def sampleClaim_def)
  ultimately show ?thesis by simp
qed

text \<open>The limit check is exact: when the amounts fit an int64, a scale-up is refused if and only
  if a positive CPU or memory limit is below the pool's total plus the pending plus the new
  capacity.\<close>

theorem exceedsPoolLimits_exact:
  assumes "in64 (1000 * lm_cpuCores l)" "in64 (1024 * lm_memoryMiB l)" "in64 (1024 * 1024 * lm_memoryMiB l)"
    and "in64 (pc + nc)" "in64 (pm + nm)"
    and "in64 (pu_totalCPUMilli u + (pc + nc))" "in64 (pu_totalMemoryBytes u + (pm + nm))"
  shows "fst (exceedsPoolLimits u l pc pm nc nm) \<longleftrightarrow>
    (0 < lm_cpuCores l \<and> 1000 * lm_cpuCores l < pu_totalCPUMilli u + pc + nc) \<or>
    (0 < lm_memoryMiB l \<and> 1024 * 1024 * lm_memoryMiB l < pu_totalMemoryBytes u + pm + nm)"
proof -
  have "coresToMilli (lm_cpuCores l) = 1000 * lm_cpuCores l"
    "mibToBytes (lm_memoryMiB l) = 1024 * 1024 * lm_memoryMiB l"
    using assms(1-3) by (simp_all add: coresToMilli_def mibToBytes_def mul64_def mult.commute mult.assoc)
  with assms(4-7) show ?thesis
    by (simp add: exceedsPoolLimits_def Let_def add64_exact add.assoc)
qed

theorem exceedsPoolLimits_exact_witness:
  "fst (exceedsPoolLimits (usageResult 0 usageZero) (ps_limits (pl_spec samplePool)) 0 0 4000 (30721 * 1024 * 1024))
   \<and> \<not> fst (exceedsPoolLimits (usageResult 0 usageZero) (ps_limits (pl_spec samplePool)) 0 0 4000 (30720 * 1024 * 1024))"
  by (subst (1 2) exceedsPoolLimits_exact)
    (simp_all add: samplePool_def usageResult_def usageZero_def in64_def)

section \<open>Inflight claims\<close>

definition reqCores :: "claim \<Rightarrow> int" where
  "reqCores c = (case cs_requirements (cl_spec c) of None \<Rightarrow> 0 | Some rq \<Rightarrow> max 0 (rq_cpuCores rq))"

definition reqMiB :: "claim \<Rightarrow> int" where
  "reqMiB c = (case cs_requirements (cl_spec c) of None \<Rightarrow> 0 | Some rq \<Rightarrow> max 0 (rq_memoryMiB rq))"

lemma mibToBytes_eq: "mibToBytes m = i64 (m * 1024 * 1024)"
proof -
  have "i64 (i64 (m * 1024) * 1024) = i64 (m * 1024 * 1024)"
    by (rule i64_cong) (metis i64_mod mod_mult_left_eq)
  then show ?thesis by (simp add: mibToBytes_def mul64_def)
qed

lemma inflightLoop_eq:
  "in64 cpu \<Longrightarrow> in64 mem \<Longrightarrow> inflightLoop E since name cs (n, cpu, mem) =
     (n + int (length (filter (inflight E since name) cs)),
      i64 (cpu + sum_list (map (\<lambda>c. reqCores c * 1000) (filter (inflight E since name) cs))),
      i64 (mem + sum_list (map (\<lambda>c. reqMiB c * 1024 * 1024) (filter (inflight E since name) cs))))"
proof (induction cs arbitrary: n cpu mem)
  case (Cons c cs)
  show ?case
    using Cons.prems
    by (cases "cs_requirements (cl_spec c)")
      (auto simp: Cons.IH reqCores_def reqMiB_def add64_def coresToMilli_def mibToBytes_eq mul64_def max_def ac_simps)
qed simp

text \<open>What counts as inflight: the claims of the pool that are not being deleted, not Ready and
  either without a creation time or at most 15 minutes old; the CPU and memory totals are the sums
  of what they request, in int64.\<close>

theorem countInflightClaims_exact:
  "countInflightClaims E t (Some pl) (Some claims) =
    (let pending = filter (\<lambda>c. cs_poolRef (cl_spec c) = pl_name pl \<and> timePtrIsZero (om_deletion (cl_meta c)) \<and>
        \<not> claimReady E c \<and> (timeIsZero (om_creation (cl_meta c)) \<or> t - 15 * minute \<le> om_creation (cl_meta c))) claims
     in Inr (int (length pending), i64 (sum_list (map (\<lambda>c. reqCores c * 1000) pending)),
          i64 (sum_list (map (\<lambda>c. reqMiB c * 1024 * 1024) pending))))"
proof -
  have "inflight E (t - 15 * minute) (pl_name pl) = (\<lambda>c. cs_poolRef (cl_spec c) = pl_name pl \<and>
      timePtrIsZero (om_deletion (cl_meta c)) \<and> \<not> claimReady E c \<and>
      (timeIsZero (om_creation (cl_meta c)) \<or> t - 15 * minute \<le> om_creation (cl_meta c)))"
    by (auto simp: inflight_def fun_eq_iff)
  then show ?thesis by (simp add: countInflightClaims_def inflightLoop_eq Let_def)
qed
end
