(* ===== verification/Proxmox.thy ===== *)
theory Proxmox
  imports Externals Go_Float "HOL-Library.Word"
begin

unbundle bit_operations_syntax

text \<open>
  The Proxmox provider, \<open>internal/provider/proxmox/proxmox.go\<close>. The go-proxmox client and
  \<open>math/rand\<close> are the record \<open>pxapi\<close> of functions over a type \<open>'v\<close> of Proxmox
  worlds about which nothing is assumed; a run is in a state \<open>px\<close> of such a world and the log
  of the calls that read or change virtual machines. A client handle of a node is its name, and a
  handle of a virtual machine is the \<open>px_vm\<close> it was made from. A \<open>uint64\<close> is a
  \<open>64 word\<close>, a byte an \<open>8 word\<close>.
\<close>

section \<open>The client\<close>

record px_vm =
  vm_vmid :: "64 word"
  vm_name :: string
  vm_tags :: string
  vm_node :: string
  vm_running :: bool

record px_node_status =
  ns_node :: string
  ns_name :: string
  ns_status :: string

record px_resource =
  rs_vmid :: "64 word"
  rs_node :: string
  rs_status :: string
  rs_maxMem :: "64 word"
  rs_mem :: "64 word"
  rs_cpu :: rat  \<comment> \<open>a finite float64\<close>

datatype px_value = VRaw string | VStr string | VInt int

type_synonym vm_options = "(string \<times> px_value) list"

datatype px_call =
    PVMs string "goerr + px_vm list"
  | PResources string "goerr + px_resource list"
  | PNewVM string int vm_options "goerr + string"
  | PStart px_vm "goerr + string"
  | PStop px_vm "goerr + string"
  | PDelete px_vm "goerr + string"
  | PWait string "goerr option"

record 'v pxapi =
  apiCluster :: "'v \<Rightarrow> goerr option \<times> 'v"
  apiResources :: "string \<Rightarrow> 'v \<Rightarrow> (goerr + px_resource list) \<times> 'v"
  apiNodes :: "'v \<Rightarrow> (goerr + px_node_status list) \<times> 'v"
  apiNode :: "string \<Rightarrow> 'v \<Rightarrow> goerr option \<times> 'v"
  apiVMs :: "string \<Rightarrow> 'v \<Rightarrow> (goerr + px_vm list) \<times> 'v"
  apiNewVM :: "string \<Rightarrow> int \<Rightarrow> vm_options \<Rightarrow> 'v \<Rightarrow> (goerr + string) \<times> 'v"
  apiVM :: "string \<Rightarrow> int \<Rightarrow> 'v \<Rightarrow> (goerr + px_vm) \<times> 'v"
  apiStart :: "px_vm \<Rightarrow> 'v \<Rightarrow> (goerr + string) \<times> 'v"
  apiStop :: "px_vm \<Rightarrow> 'v \<Rightarrow> (goerr + string) \<times> 'v"
  apiDelete :: "px_vm \<Rightarrow> 'v \<Rightarrow> (goerr + string) \<times> 'v"
  apiWait :: "string \<Rightarrow> 'v \<Rightarrow> goerr option \<times> 'v"
  randUint64N :: "64 word \<Rightarrow> 'v \<Rightarrow> 64 word \<times> 'v"
  randByte :: "'v \<Rightarrow> 8 word \<times> 'v"
  randShuffle :: "string list \<Rightarrow> 'v \<Rightarrow> string list \<times> 'v"

record 'v px =
  pxWorld :: 'v
  pxLog :: "px_call list"

text \<open>
  Documented behaviour of \<open>math/rand\<close>: \<open>Uint64N(n)\<close> is below \<open>n\<close>, and
  \<open>Shuffle\<close> permutes.
\<close>

definition rand_ok :: "'v pxapi \<Rightarrow> bool" where
  "rand_ok A \<longleftrightarrow> (\<forall>n v. 0 < n \<longrightarrow> fst (randUint64N A n v) < n) \<and>
     (\<forall>xs v. set (fst (randShuffle A xs v)) = set xs)"

definition pcall :: "('v \<Rightarrow> 'r \<times> 'v) \<Rightarrow> ('r \<Rightarrow> px_call) \<Rightarrow> 'v px \<Rightarrow> 'r \<times> 'v px" where
  "pcall f ev s = (case f (pxWorld s) of (r, v) \<Rightarrow> (r, s\<lparr>pxWorld := v, pxLog := pxLog s @ [ev r]\<rparr>))"

definition pquery :: "('v \<Rightarrow> 'r \<times> 'v) \<Rightarrow> 'v px \<Rightarrow> 'r \<times> 'v px" where
  "pquery f s = (case f (pxWorld s) of (r, v) \<Rightarrow> (r, s\<lparr>pxWorld := v\<rparr>))"

section \<open>Options\<close>

record px_options =
  op_endpoint :: string
  op_nodeWhitelist :: "string list"
  op_lower :: "64 word"
  op_upper :: "64 word"
  op_vmMemOverheadMiB :: int
  op_managedNodeTag :: string
  op_proxmox :: "proxmox_spec option"

definition parseOptions :: "provider_spec \<Rightarrow> goerr + px_options" where
  "parseOptions spec =
     (if pv_type spec \<noteq> ''proxmox'' then Inl (errorf ''expected proxmox provider config'')
      else (case pv_proxmox spec of
        None \<Rightarrow> Inl (errorf ''proxmox provider configuration is required'')
      | Some p \<Rightarrow>
          (if px_endpoint p = [] then Inl (errorf ''proxmox endpoint is required'')
           else (case px_vmIDRange p of
             None \<Rightarrow> Inl (errorf ''proxmox vmIDRange is required'')
           | Some bounds \<Rightarrow>
               (if vr_upper bounds < vr_lower bounds
                then Inl (errorf ''proxmox vmIDRange.lower must be <= upper'')
                else Inr \<lparr>op_endpoint = px_endpoint p, op_nodeWhitelist = px_nodeWhitelist p,
                  op_lower = word_of_int (vr_lower bounds), op_upper = word_of_int (vr_upper bounds),
                  op_vmMemOverheadMiB = px_vmMemOverheadMiB p, op_managedNodeTag = px_managedNodeTag p,
                  op_proxmox = Some p\<rparr>)))))"

text \<open>What the validation rules of the CRD's \<open>VMIDRange\<close> admit.\<close>

definition vmidRangeAdmitted :: "vmid_range_spec \<Rightarrow> bool" where
  "vmidRangeAdmitted r \<longleftrightarrow> 100 \<le> vr_lower r \<and> vr_upper r \<le> 999999999 \<and> vr_lower r \<le> vr_upper r"

section \<open>VM ids\<close>

text \<open>The loop over the candidates, \<open>n\<close> of them left, the next one \<open>start + i\<close>.\<close>

fun vmidLoop :: "px_options \<Rightarrow> 64 word list \<Rightarrow> 64 word \<Rightarrow> 64 word \<Rightarrow> nat \<Rightarrow> 64 word option" where
  "vmidLoop opts used start i 0 = None"
| "vmidLoop opts used start i (Suc n) =
     (let candidate = (if op_upper opts < start + i then op_lower opts + (start + i - op_upper opts - 1) else start + i) in
      if candidate \<notin> set used then Some candidate else vmidLoop opts used start (i + 1) n)"

definition rangeText :: "px_options \<Rightarrow> string" where
  "rangeText opts = ''['' @ decNat (unat (op_lower opts)) @ '','' @ decNat (unat (op_upper opts)) @ '']''"

definition generateNewVMID ::
  "'v pxapi \<Rightarrow> px_resource list \<Rightarrow> px_options \<Rightarrow> 'v px \<Rightarrow> (goerr + int) \<times> 'v px" where
  "generateNewVMID A resources opts s =
     (if op_upper opts < op_lower opts
      then (Inl (errorf (''invalid VMID range: lower='' @ decNat (unat (op_lower opts)) @ '' upper='' @
        decNat (unat (op_upper opts)))), s)
      else (let width = op_upper opts - op_lower opts + 1 in
        if width = 0 then (Inl (errorf ''vmid range overflow''), s)
        else (let used = remdups (filter (\<lambda>i. op_lower opts \<le> i \<and> i \<le> op_upper opts) (map rs_vmid resources)) in
          if width \<le> of_nat (length used)
          then (Inl (errorf (''no VMIDs available in range '' @ rangeText opts)), s)
          else (case pquery (randUint64N A width) s of (r, s1) \<Rightarrow>
            (case vmidLoop opts used (op_lower opts + r) 0 (unat width) of
              Some candidate \<Rightarrow> (Inr (sint candidate), s1)
            | None \<Rightarrow> (Inl (errorf (''no VMIDs available in range '' @ rangeText opts)), s1))))))"

section \<open>MAC addresses\<close>

definition hexDigit :: "char \<Rightarrow> nat option" where
  "hexDigit c = (let n = (of_char c :: nat) in
     if 48 \<le> n \<and> n \<le> 57 then Some (n - 48)
     else if 97 \<le> n \<and> n \<le> 102 then Some (n - 87)
     else if 65 \<le> n \<and> n \<le> 70 then Some (n - 55) else None)"

fun hexValue :: "nat \<Rightarrow> string \<Rightarrow> nat option" where
  "hexValue acc [] = Some acc"
| "hexValue acc (c # cs) = (case hexDigit c of None \<Rightarrow> None | Some d \<Rightarrow> hexValue (acc * 16 + d) cs)"

text \<open>\<open>strconv.ParseUint(s, 16, 8)\<close>: \<open>None\<close> is a non-nil error.\<close>

definition parseHexByte :: "string \<Rightarrow> 8 word option" where
  "parseHexByte s = (if s = [] then None else (case hexValue 0 s of
     None \<Rightarrow> None | Some n \<Rightarrow> if n < 256 then Some (of_nat n) else None))"

fun splitOn :: "char \<Rightarrow> string \<Rightarrow> string list" where
  "splitOn sep [] = [[]]"
| "splitOn sep (c # cs) = (if c = sep then [] # splitOn sep cs
     else (case splitOn sep cs of [] \<Rightarrow> [[c]] | p # ps \<Rightarrow> (c # p) # ps))"

text \<open>The bytes of the prefix replace the random ones as far as both go.\<close>

fun applyPrefix :: "string list \<Rightarrow> 8 word list \<Rightarrow> 8 word list" where
  "applyPrefix (p # ps) (b # bs) =
     (case parseHexByte p of None \<Rightarrow> b | Some v \<Rightarrow> v) # applyPrefix ps bs"
| "applyPrefix _ bs = bs"

definition hexChar :: "nat \<Rightarrow> char" where
  "hexChar n = (if n < 10 then char_of (48 + n) else char_of (87 + n))"

definition fmt02x :: "8 word \<Rightarrow> string" where
  "fmt02x b = [hexChar (unat b div 16), hexChar (unat b mod 16)]"

definition markMAC :: "8 word list \<Rightarrow> 8 word list" where
  "markMAC bs = (case bs of [] \<Rightarrow> [] | b # rest \<Rightarrow> ((b AND NOT 1) OR 2) # rest)"

fun randBytes :: "'v pxapi \<Rightarrow> nat \<Rightarrow> 'v px \<Rightarrow> 8 word list \<times> 'v px" where
  "randBytes A 0 s = ([], s)"
| "randBytes A (Suc n) s = (case pquery (randByte A) s of (b, s1) \<Rightarrow>
     (case randBytes A n s1 of (bs, s2) \<Rightarrow> (b # bs, s2)))"

definition generateRandomMAC :: "'v pxapi \<Rightarrow> string \<Rightarrow> 'v px \<Rightarrow> string \<times> 'v px" where
  "generateRandomMAC A prefix s = (case randBytes A 6 s of (bs, s1) \<Rightarrow>
     (joinStr '':'' (map fmt02x (markMAC
        (if prefix \<noteq> [] then applyPrefix (splitOn CHR '':'' prefix) bs else bs))), s1))"

section \<open>Choosing a Proxmox node\<close>

definition proxmoxStatusOnline :: string where "proxmoxStatusOnline = ''online''"

definition cpuUtilMax :: rat where "cpuUtilMax = fl (95 / 100)"

definition onlineResources :: "px_resource list \<Rightarrow> px_resource list" where
  "onlineResources rs = filter (\<lambda>r. rs_node r \<noteq> [] \<and> rs_status r = proxmoxStatusOnline) rs"

text \<open>The lookup by node name: for a repeated name the last entry stays in the map.\<close>

definition resByNode :: "px_resource list \<Rightarrow> (string \<times> px_resource) list" where
  "resByNode rs = rev (map (\<lambda>r. (rs_node r, r)) (onlineResources rs))"

definition freeMiB :: "px_resource \<Rightarrow> int" where
  "freeMiB r = sint ((rs_maxMem r - rs_mem r) div (1024 * 1024))"

definition needMiB :: "px_options \<Rightarrow> machine_spec \<Rightarrow> int" where
  "needMiB opts spec = (let need = add64 (ms_memoryMiB spec) (op_vmMemOverheadMiB opts) in
     if need \<le> 0 then 512 else need)"

fun probeNodes ::
  "'v pxapi \<Rightarrow> (string \<times> px_resource) list \<Rightarrow> int \<Rightarrow> string list \<Rightarrow> 'v px \<Rightarrow> string option \<times> 'v px" where
  "probeNodes A snapshot need [] s = (None, s)"
| "probeNodes A snapshot need (name # names) s = (case map_of snapshot name of
     None \<Rightarrow> probeNodes A snapshot need names s
   | Some r \<Rightarrow>
       (if rs_maxMem r = 0 then probeNodes A snapshot need names s
        else if freeMiB r < need then probeNodes A snapshot need names s
        else if cpuUtilMax < rs_cpu r then probeNodes A snapshot need names s
        else (case pquery (apiNode A name) s of
          (Some e, s1) \<Rightarrow> probeNodes A snapshot need names s1
        | (None, s1) \<Rightarrow> (Some name, s1))))"

definition getAvailableNode ::
  "'v pxapi \<Rightarrow> px_options \<Rightarrow> machine_spec \<Rightarrow> 'v px \<Rightarrow> (goerr + string) \<times> 'v px" where
  "getAvailableNode A opts spec s = (case pquery (apiCluster A) s of
     (Some e, s1) \<Rightarrow> (Inl (wrapf ''getAvailableNode: cluster: '' e), s1)
   | (None, s1) \<Rightarrow> (case pcall (apiResources A ''node'') (PResources ''node'') s1 of
       (Inl e, s2) \<Rightarrow> (Inl (wrapf ''getAvailableNode: node resources: '' e), s2)
     | (Inr nodeRes, s2) \<Rightarrow>
         (case pquery (randShuffle A (if op_nodeWhitelist opts = [] then map rs_node (onlineResources nodeRes)
             else op_nodeWhitelist opts)) s2 of
           (candidates, s3) \<Rightarrow> (case probeNodes A (resByNode nodeRes) (needMiB opts spec) candidates s3 of
             (Some name, s4) \<Rightarrow> (Inr name, s4)
           | (None, s4) \<Rightarrow> (Inl (errorf (''getAvailableNode: no node meets basic fit (need '' @
               fmtD (needMiB opts spec) @ '' MiB, cpu<0.95)'')), s4)))))"

section \<open>VM options\<close>

fun setOption :: "string \<Rightarrow> px_value \<Rightarrow> vm_options \<Rightarrow> vm_options" where
  "setOption name value [] = [(name, value)]"
| "setOption name value ((n, v) # opts) =
     (if n = name then (n, value) # opts else (n, v) # setOption name value opts)"

definition nicParts :: "proxmox_nic \<Rightarrow> string \<Rightarrow> string list" where
  "nicParts nic mac =
     [(if nic_model nic = [] then ''virtio'' else nic_model nic) @ ''='' @ mac] @
     (if nic_bridge nic \<noteq> [] then [''bridge='' @ nic_bridge nic] else []) @
     (if nic_vlanTag nic \<noteq> 0 then [''tag='' @ fmtD (nic_vlanTag nic)] else [])"

fun nicLoop :: "'v pxapi \<Rightarrow> nat \<Rightarrow> proxmox_nic list \<Rightarrow> vm_options \<Rightarrow> 'v px \<Rightarrow> vm_options \<times> 'v px" where
  "nicLoop A idx [] opts s = (opts, s)"
| "nicLoop A idx (nic # nics) opts s = (case generateRandomMAC A (nic_macPrefix nic) s of
     (mac, s1) \<Rightarrow> nicLoop A (Suc idx) nics
       (setOption (if nic_name nic = [] then ''net'' @ decNat idx else nic_name nic)
         (VStr (joinStr '','' (nicParts nic mac))) opts) s1)"

definition vmMemory :: "px_options \<Rightarrow> machine_spec \<Rightarrow> int" where
  "vmMemory opts spec = (if 0 < op_vmMemOverheadMiB opts then add64 (ms_memoryMiB spec) (op_vmMemOverheadMiB opts)
     else ms_memoryMiB spec)"

definition buildVirtualMachineOptions ::
  "'v pxapi \<Rightarrow> string \<Rightarrow> machine_spec \<Rightarrow> px_options \<Rightarrow> 'v px \<Rightarrow> (goerr + vm_options) \<times> 'v px" where
  "buildVirtualMachineOptions A machineName spec opts s = (case op_proxmox opts of
     None \<Rightarrow> (Inl (errorf ''proxmox provider vmOptions not configured''), s)
   | Some p \<Rightarrow>
       (let o0 = map (\<lambda>q. (po_name q, VRaw (po_value q))) (px_vmOptions p);
            o1 = setOption ''cores'' (VInt (ms_cpuCores spec))
              (setOption ''memory'' (VInt (vmMemory opts spec))
              (setOption ''tags'' (VStr (op_managedNodeTag opts))
              (setOption ''name'' (VStr machineName) o0))) in
        case nicLoop A 0 (px_networkInterfaces p) o1 s of (o2, s1) \<Rightarrow> (Inr o2, s1)))"

section \<open>Provisioning\<close>

fun vmLoop :: "'v pxapi \<Rightarrow> string \<Rightarrow> px_node_status list \<Rightarrow> 'v px \<Rightarrow> px_vm option \<times> 'v px" where
  "vmLoop A vmName [] s = (None, s)"
| "vmLoop A vmName (st # sts) s =
     (if ns_node st = [] then vmLoop A vmName sts s
      else if ns_status st \<noteq> proxmoxStatusOnline then vmLoop A vmName sts s
      else (case pquery (apiNode A (ns_node st)) s of
        (Some e, s1) \<Rightarrow> vmLoop A vmName sts s1
      | (None, s1) \<Rightarrow> (case pcall (apiVMs A (ns_node st)) (PVMs (ns_node st)) s1 of
          (Inl e, s2) \<Rightarrow> vmLoop A vmName sts s2
        | (Inr vms, s2) \<Rightarrow> (case find (\<lambda>v. vm_name v = vmName) vms of
            Some v \<Rightarrow> (Some v, s2)
          | None \<Rightarrow> vmLoop A vmName sts s2))))"

definition errVMNotFound :: goerr where
  "errVMNotFound = \<lparr>err_msg = ''proxmox: vm not found'', err_class = VMNotFound\<rparr>"

definition findNodeByVMName :: "'v pxapi \<Rightarrow> string \<Rightarrow> 'v px \<Rightarrow> (goerr + px_vm) \<times> 'v px" where
  "findNodeByVMName A vmName s = (case pquery (apiNodes A) s of
     (Inl e, s1) \<Rightarrow> (Inl (wrapf ''get node statuses: '' e), s1)
   | (Inr statuses, s1) \<Rightarrow> (case vmLoop A vmName statuses s1 of
       (Some v, s2) \<Rightarrow> (Inr v, s2)
     | (None, s2) \<Rightarrow> (Inl errVMNotFound, s2)))"

definition machineNamed :: "string \<Rightarrow> machine" where
  "machineNamed n = \<lparr>mc_providerID = ''proxmox://'' @ n, mc_kubeNodeName = n\<rparr>"

text \<open>Reusing a virtual machine that already has the name.\<close>

definition reuseMachine :: "'v pxapi \<Rightarrow> string \<Rightarrow> px_vm \<Rightarrow> 'v px \<Rightarrow> (goerr + machine) \<times> 'v px" where
  "reuseMachine A name v s =
     (if vm_running v then (Inr (machineNamed name), s)
      else (case pcall (apiStart A v) (PStart v) s of
        (Inl e, s1) \<Rightarrow> (Inl (wrapf (''start existing vm '' @ name @ '': '') e), s1)
      | (Inr task, s1) \<Rightarrow> (case pcall (apiWait A task) (PWait task) s1 of
          (Some e, s2) \<Rightarrow> (Inl (wrapf (''wait for existing vm '' @ name @ '' start: '') e), s2)
        | (None, s2) \<Rightarrow> (Inr (machineNamed name), s2))))"

text \<open>Creating and starting it.\<close>

definition createVM ::
  "'v pxapi \<Rightarrow> string \<Rightarrow> string \<Rightarrow> int \<Rightarrow> vm_options \<Rightarrow> 'v px \<Rightarrow> (goerr + machine) \<times> 'v px" where
  "createVM A name nodeName vmid vmOpts s =
     (case pcall (apiNewVM A nodeName vmid vmOpts) (PNewVM nodeName vmid vmOpts) s of
       (Inl e, s1) \<Rightarrow> (Inl (wrapf ''create new VM: '' e), s1)
     | (Inr task, s1) \<Rightarrow> (case pcall (apiWait A task) (PWait task) s1 of
         (Some e, s2) \<Rightarrow> (Inl (wrapf ''wait for VM creation: '' e), s2)
       | (None, s2) \<Rightarrow> (case pquery (apiVM A nodeName vmid) s2 of
           (Inl e, s3) \<Rightarrow> (Inl (wrapf (''get VM '' @ fmtD vmid @ '': '') e), s3)
         | (Inr v, s3) \<Rightarrow> (case pcall (apiStart A v) (PStart v) s3 of
             (Inl e, s4) \<Rightarrow> (Inl (wrapf (''start VM '' @ fmtD vmid @ '': '') e), s4)
           | (Inr _, s4) \<Rightarrow> (Inr (machineNamed name), s4)))))"

definition newMachine :: "'v pxapi \<Rightarrow> px_options \<Rightarrow> machine_spec \<Rightarrow> 'v px \<Rightarrow> (goerr + machine) \<times> 'v px" where
  "newMachine A opts spec s = (case pquery (apiCluster A) s of
     (Some e, s1) \<Rightarrow> (Inl (wrapf ''get cluster: '' e), s1)
   | (None, s1) \<Rightarrow> (case pcall (apiResources A ''vm'') (PResources ''vm'') s1 of
       (Inl e, s2) \<Rightarrow> (Inl (wrapf ''get cluster resources: '' e), s2)
     | (Inr resources, s2) \<Rightarrow> (case generateNewVMID A resources opts s2 of
         (Inl e, s3) \<Rightarrow> (Inl (wrapf ''allocate VMID: '' e), s3)
       | (Inr vmid, s3) \<Rightarrow> (case getAvailableNode A opts spec s3 of
           (Inl e, s4) \<Rightarrow> (Inl (wrapf ''get available proxmox node: '' e), s4)
         | (Inr nodeName, s4) \<Rightarrow> (case buildVirtualMachineOptions A (ms_machineName spec) spec opts s4 of
             (Inl e, s5) \<Rightarrow> (Inl (wrapf ''build VM options: '' e), s5)
           | (Inr vmOpts, s5) \<Rightarrow> createVM A (ms_machineName spec) nodeName vmid vmOpts s5)))))"

definition provisionMachinePx ::
  "'v pxapi \<Rightarrow> px_options \<Rightarrow> machine_spec \<Rightarrow> 'v px \<Rightarrow> (goerr + machine) \<times> 'v px" where
  "provisionMachinePx A opts spec s = (case findNodeByVMName A (ms_machineName spec) s of
     (Inr v, s1) \<Rightarrow> reuseMachine A (ms_machineName spec) v s1
   | (Inl e, s1) \<Rightarrow> (if err_class e \<noteq> VMNotFound then (Inl (wrapf ''check existing vm: '' e), s1)
       else newMachine A opts spec s1))"

section \<open>Deprovisioning and listing\<close>

fun containsSub :: "string \<Rightarrow> string \<Rightarrow> bool" where
  "containsSub s sub = (take (length sub) s = sub \<or> (case s of [] \<Rightarrow> False | c # cs \<Rightarrow> containsSub cs sub))"

declare containsSub.simps [simp del]

definition removeVM :: "'v pxapi \<Rightarrow> px_vm \<Rightarrow> 'v px \<Rightarrow> goerr option \<times> 'v px" where
  "removeVM A v s = (case pcall (apiStop A v) (PStop v) s of
     (Inl e, s1) \<Rightarrow> (Some (wrapf ''stop VM: '' e), s1)
   | (Inr task, s1) \<Rightarrow> (case pcall (apiWait A task) (PWait task) s1 of
       (Some e, s2) \<Rightarrow> (Some (wrapf ''wait for VM stop: '' e), s2)
     | (None, s2) \<Rightarrow> (case pcall (apiDelete A v) (PDelete v) s2 of
         (Inl e, s3) \<Rightarrow> (Some (wrapf ''delete VM: '' e), s3)
       | (Inr task2, s3) \<Rightarrow> (case pcall (apiWait A task2) (PWait task2) s3 of
           (Some e, s4) \<Rightarrow> (Some (wrapf ''wait for VM deletion: '' e), s4)
         | (None, s4) \<Rightarrow> (None, s4)))))"

definition deprovisionMachinePx :: "'v pxapi \<Rightarrow> px_options \<Rightarrow> machine \<Rightarrow> 'v px \<Rightarrow> goerr option \<times> 'v px" where
  "deprovisionMachinePx A opts m s = (case findNodeByVMName A (mc_kubeNodeName m) s of
     (Inl e, s1) \<Rightarrow>
       (if err_class e = VMNotFound
        then (Some (errorf (''VM with name '' @ [char_of (39 :: nat)] @ mc_kubeNodeName m @ [char_of (39 :: nat)] @ '' not found'')), s1)
        else (Some e, s1))
   | (Inr v, s1) \<Rightarrow>
       (if \<not> containsSub (vm_tags v) (op_managedNodeTag opts)
        then (Some (errorf (''refusing to delete targeted VM `'' @ vm_name v @ ''` in node '' @ mc_kubeNodeName m @
          '' because it does not have required tag'')), s1)
        else removeVM A v s1))"

definition hasPrefix :: "string \<Rightarrow> string \<Rightarrow> bool" where
  "hasPrefix s p \<longleftrightarrow> take (length p) s = p"

fun listLoop ::
  "'v pxapi \<Rightarrow> px_options \<Rightarrow> string \<Rightarrow> px_node_status list \<Rightarrow> 'v px \<Rightarrow> machine list \<times> 'v px" where
  "listLoop A opts pre [] s = ([], s)"
| "listLoop A opts pre (st # sts) s =
     (if ns_status st \<noteq> proxmoxStatusOnline then listLoop A opts pre sts s
      else (case pquery (apiNode A (ns_name st)) s of
        (Some e, s1) \<Rightarrow> listLoop A opts pre sts s1
      | (None, s1) \<Rightarrow> (case pcall (apiVMs A (ns_name st)) (PVMs (ns_name st)) s1 of
          (Inl e, s2) \<Rightarrow> listLoop A opts pre sts s2
        | (Inr vms, s2) \<Rightarrow> (case listLoop A opts pre sts s2 of (ms, s3) \<Rightarrow>
            (map (\<lambda>v. \<lparr>mc_providerID = vm_name v, mc_kubeNodeName = vm_name v\<rparr>)
               (filter (\<lambda>v. hasPrefix (vm_name v) pre \<and> containsSub (vm_tags v) (op_managedNodeTag opts)) vms) @ ms,
             s3)))))"

definition listMachinesPx ::
  "'v pxapi \<Rightarrow> px_options \<Rightarrow> string \<Rightarrow> 'v px \<Rightarrow> (goerr + machine list) \<times> 'v px" where
  "listMachinesPx A opts pre s = (case pquery (apiNodes A) s of
     (Inl e, s1) \<Rightarrow> (Inl (wrapf ''get node statuses: '' e), s1)
   | (Inr statuses, s1) \<Rightarrow> (case listLoop A opts pre statuses s1 of (ms, s2) \<Rightarrow> (Inr ms, s2)))"

section \<open>Building a provider\<close>

record px_credentials =
  cd_tokenID :: string
  cd_secret :: string
  cd_insecureSkipTLSVerify :: bool

text \<open>
  The parts of an \<open>http.Client\<close> that are set here: no transport is the default one, which verifies
  the server's certificate; a transport has the flag of its TLS configuration.
\<close>

record http_transport =
  ht_insecureSkipVerify :: bool

record http_client =
  hc_transport :: "http_transport option"

definition skipsVerify :: "http_client \<Rightarrow> bool" where
  "skipsVerify hc = (case hc_transport hc of None \<Rightarrow> False | Some t \<Rightarrow> ht_insecureSkipVerify t)"

text \<open>
  What the constructor needs from outside: the clientset of \<open>kube.GetClientset\<close>, the secret's
  data, and \<open>proxmoxapi.NewClient\<close> with the options \<open>WithHTTPClient\<close> and \<open>WithAPIToken\<close>.
\<close>

record 'v pxenv =
  peClientset :: "'v \<Rightarrow> goerr option \<times> 'v"
  peSecret :: "string \<Rightarrow> string \<Rightarrow> 'v \<Rightarrow> (goerr + gomap) \<times> 'v"
  peNewClient :: "string \<Rightarrow> http_client \<Rightarrow> string \<Rightarrow> string \<Rightarrow> 'v pxapi"

text \<open>\<open>strconv.ParseBool\<close>; the text of its error is left out below.\<close>

definition parseBool :: "string \<Rightarrow> bool option" where
  "parseBool v =
     (if v \<in> {''1'', ''t'', ''T'', ''TRUE'', ''true'', ''True''} then Some True
      else if v \<in> {''0'', ''f'', ''F'', ''FALSE'', ''false'', ''False''} then Some False else None)"

definition readInsecure :: "gomap \<Rightarrow> bool option" where
  "readInsecure secretData = (case map_of secretData ''PROXMOX_SKIP_TLS_VERIFY'' of
     None \<Rightarrow> Some False
   | Some raw \<Rightarrow> (if trimSpace raw = [] then Some False else parseBool (trimSpace raw)))"

definition checkSecret :: "string \<Rightarrow> gomap \<Rightarrow> goerr + px_credentials" where
  "checkSecret path secretData =
     (let tokenID = trimSpace (mapGet ''PROXMOX_TOKEN_ID'' secretData);
          secretValue = trimSpace (mapGet ''PROXMOX_SECRET'' secretData) in
      if tokenID = [] then Inl (errorf (''secret '' @ path @ '' missing PROXMOX_TOKEN_ID''))
      else if secretValue = [] then Inl (errorf (''secret '' @ path @ '' missing PROXMOX_SECRET''))
      else (case readInsecure secretData of
        None \<Rightarrow> Inl (errorf (''secret '' @ path @ '' invalid PROXMOX_SKIP_TLS_VERIFY''))
      | Some b \<Rightarrow> Inr \<lparr>cd_tokenID = tokenID, cd_secret = secretValue, cd_insecureSkipTLSVerify = b\<rparr>))"

definition loadCredentials ::
  "'v pxenv \<Rightarrow> string \<Rightarrow> secret_ref option \<Rightarrow> 'v px \<Rightarrow> (goerr + px_credentials) \<times> 'v px" where
  "loadCredentials P defaultNamespace ref s = (case ref of
     None \<Rightarrow> (Inl (errorf ''credentialsSecretRef is required''), s)
   | Some r \<Rightarrow>
       (let namespace = (if sr_namespace r = [] then defaultNamespace else sr_namespace r) in
        if namespace = [] then (Inl (errorf ''credentialsSecretRef namespace is required''), s)
        else if sr_name r = [] then (Inl (errorf ''credentialsSecretRef name is required''), s)
        else (case pquery (peClientset P) s of
          (Some e, s1) \<Rightarrow> (Inl (wrapf ''create kubernetes client: '' e), s1)
        | (None, s1) \<Rightarrow> (case pquery (peSecret P namespace (sr_name r)) s1 of
            (Inl e, s2) \<Rightarrow> (Inl (wrapf (''fetch secret '' @ namespace @ ''/'' @ sr_name r @ '': '') e), s2)
          | (Inr secretData, s2) \<Rightarrow> (checkSecret (namespace @ ''/'' @ sr_name r) secretData, s2)))))"

text \<open>A \<open>Provider\<close> value: the client and the options behind the interface's methods.\<close>

definition proxmoxProvider :: "'v pxapi \<Rightarrow> px_options \<Rightarrow> 'v px provider" where
  "proxmoxProvider A opts = \<lparr>pr_provision = provisionMachinePx A opts,
     pr_deprovision = deprovisionMachinePx A opts, pr_list = listMachinesPx A opts\<rparr>"

definition newProvider :: "'v pxenv \<Rightarrow> provider_obj option \<Rightarrow> 'v px \<Rightarrow> (goerr + 'v px provider) \<times> 'v px" where
  "newProvider P resource s = (case resource of
     None \<Rightarrow> (Inl (errorf ''provider resource is required''), s)
   | Some po \<Rightarrow> (case parseOptions (po_spec po) of
       Inl e \<Rightarrow> (Inl (wrapf ''parse proxmox options: '' e), s)
     | Inr opts \<Rightarrow> (case loadCredentials P (om_namespace (po_meta po)) (pv_credentialsSecretRef (po_spec po)) s of
         (Inl e, s1) \<Rightarrow> (Inl e, s1)
       | (Inr creds, s1) \<Rightarrow>
           (let httpClient = \<lparr>hc_transport = None\<rparr>;
                httpClient = (if cd_insecureSkipTLSVerify creds
                  then httpClient\<lparr>hc_transport := Some \<lparr>ht_insecureSkipVerify = True\<rparr>\<rparr> else httpClient);
                client = peNewClient P (op_endpoint opts) httpClient (cd_tokenID creds) (cd_secret creds) in
            (Inr (proxmoxProvider client opts), s1)))))"

end
