(* ===== verification/Proxmox_Safety.thy ===== *)
theory Proxmox_Safety
  imports Proxmox Provider_Contract Sample_World
begin

text \<open>
  Properties of the Proxmox provider: fresh VM ids, well-formed MAC addresses, and which virtual
  machines it creates, starts, stops and deletes.
\<close>

section \<open>VM ids\<close>

definition vmCandidate :: "px_options \<Rightarrow> 64 word \<Rightarrow> 64 word \<Rightarrow> 64 word" where
  "vmCandidate opts start i =
     (if op_upper opts < start + i then op_lower opts + (start + i - op_upper opts - 1) else start + i)"

lemma vmidLoop_find:
  "vmidLoop opts used start i n = find (\<lambda>c. c \<notin> set used) (map (\<lambda>k. vmCandidate opts start (i + of_nat k)) [0..<n])"
proof (induction n arbitrary: i)
  case (Suc n)
  have "map (\<lambda>k. vmCandidate opts start (i + of_nat k)) [0..<Suc n] =
    vmCandidate opts start i # map (\<lambda>k. vmCandidate opts start (i + 1 + of_nat k)) [0..<n]"
    by (simp add: map_upt_Suc add.assoc del: upt_Suc)
  with Suc.IH [of "i + 1"] show ?case by (simp add: vmCandidate_def Let_def)
qed simp

text \<open>With bounds below \<open>2 ^ 63\<close> nothing wraps: the candidates go round the range.\<close>

definition validRange :: "px_options \<Rightarrow> bool" where
  "validRange opts \<longleftrightarrow> op_lower opts \<le> op_upper opts \<and> unat (op_upper opts) < 2 ^ 63"

lemma unat_plus: "unat a + unat b < 2 ^ 64 \<Longrightarrow> unat (a + b) = unat a + unat b" for a b :: "64 word"
  by (simp add: unat_word_ariths(1))

lemma sint_small: "sint i = int (unat i)" if "unat i < 9223372036854775808" for i :: "64 word"
proof -
  from that have "int (unat i) < 9223372036854775808" by linarith
  then have "uint i < 9223372036854775808" by simp
  moreover have "- 9223372036854775808 \<le> uint i" by (rule order_trans [of _ 0]) simp_all
  ultimately have "signed_take_bit 63 (uint i) = uint i" by (intro signed_take_bit_int_eq_self) simp_all
  then show ?thesis by (simp add: sint_uint)
qed

lemma width_unat:
  assumes "validRange opts"
  shows "unat (op_upper opts - op_lower opts + 1) = unat (op_upper opts) - unat (op_lower opts) + 1"
proof -
  have "unat (op_upper opts - op_lower opts) = unat (op_upper opts) - unat (op_lower opts)"
    using assms by (simp add: validRange_def unat_sub)
  moreover have "unat (op_upper opts - op_lower opts) + 1 < 2 ^ 64"
  proof -
    have "unat (op_upper opts) < 2 ^ 63" using assms by (simp add: validRange_def)
    then have "unat (op_upper opts) - unat (op_lower opts) + 1 < 2 ^ 64" by simp
    then show ?thesis by (simp only: calculation)
  qed
  ultimately show ?thesis by (simp add: unat_word_ariths(1))
qed

lemma vmCandidate_unat:
  assumes "validRange opts" and "unat r \<le> unat (op_upper opts) - unat (op_lower opts)"
    and "k \<le> unat (op_upper opts) - unat (op_lower opts)"
  shows "unat (vmCandidate opts (op_lower opts + r) (of_nat k)) = unat (op_lower opts) +
    (unat r + k) mod (unat (op_upper opts) - unat (op_lower opts) + 1)"
proof -
  let ?L = "unat (op_lower opts)" and ?U = "unat (op_upper opts)"
  have LU: "?L \<le> ?U" "?U < 2 ^ 63" using assms(1) by (simp_all add: validRange_def word_le_nat_alt)
  have k: "unat (of_nat k :: 64 word) = k" using assms(3) LU by (simp add: unat_of_nat)
  have sum: "unat (op_lower opts + r + of_nat k) = ?L + unat r + k"
    using assms(2,3) LU k by (simp add: unat_word_ariths(1))
  show ?thesis
  proof (cases "?U < ?L + unat r + k")
    case True
    then have lt: "op_upper opts < op_lower opts + r + of_nat k" by (simp add: word_less_nat_alt sum)
    have "unat (op_lower opts + r + of_nat k - op_upper opts) = ?L + unat r + k - ?U"
      using lt by (simp add: unat_sub sum order_less_imp_le)
    then have "unat (op_lower opts + r + of_nat k - op_upper opts - 1) = ?L + unat r + k - ?U - 1"
      using True by (subst unat_sub) (simp_all add: word_le_nat_alt)
    moreover have "(unat r + k) mod (?U - ?L + 1) = ?L + unat r + k - ?U - 1"
      using True assms(2,3) LU by (subst mod_if) (auto simp: mod_if)
    ultimately show ?thesis using lt True assms(2,3) LU
      unat_plus [of "op_lower opts" "op_lower opts + r + of_nat k - op_upper opts - 1"]
      by (simp add: vmCandidate_def)
  next
    case False
    then show ?thesis using sum LU by (simp add: vmCandidate_def word_less_nat_alt)
  qed
qed

definition vmidFree :: "px_options \<Rightarrow> px_resource list \<Rightarrow> 64 word \<Rightarrow> bool" where
  "vmidFree opts resources i \<longleftrightarrow> op_lower opts \<le> i \<and> i \<le> op_upper opts \<and> i \<notin> rs_vmid ` set resources"

text \<open>The candidates of a round are exactly the ids of the range.\<close>

lemma vmCandidates_range:
  assumes "validRange opts" and "unat r \<le> unat (op_upper opts) - unat (op_lower opts)"
  shows "set (map (\<lambda>k. vmCandidate opts (op_lower opts + r) (of_nat k)) [0..<unat (op_upper opts - op_lower opts + 1)]) =
    {i. op_lower opts \<le> i \<and> i \<le> op_upper opts}" (is "?C = ?R")
proof -
  let ?L = "unat (op_lower opts)" and ?U = "unat (op_upper opts)"
  let ?w = "?U - ?L + 1"
  have LU: "?L \<le> ?U" using assms(1) by (simp add: validRange_def word_le_nat_alt)
  have c: "unat (vmCandidate opts (op_lower opts + r) (of_nat k)) = ?L + (unat r + k) mod ?w" if "k < ?w" for k
    using vmCandidate_unat [OF assms, of k] that by simp
  have w: "unat (op_upper opts - op_lower opts + 1) = ?w" by (rule width_unat [OF assms(1)])
  show ?thesis
  proof (intro equalityI subsetI)
    fix i assume "i \<in> ?C"
    then have "i \<in> (\<lambda>k. vmCandidate opts (op_lower opts + r) (of_nat k)) ` {0..<?w}" by (simp only: set_map set_upt w)
    then obtain k where k: "k < ?w" "i = vmCandidate opts (op_lower opts + r) (of_nat k)" by (elim imageE) simp
    have "(unat r + k) mod ?w < ?w" by (rule mod_less_divisor) simp
    with LU have "?L + (unat r + k) mod ?w \<le> ?U" by linarith
    with c [OF k(1)] k(2) show "i \<in> ?R" by (simp add: word_le_nat_alt)
  next
    fix i assume "i \<in> ?R"
    then have i: "?L \<le> unat i" "unat i \<le> ?U" by (simp_all add: word_le_nat_alt)
    define k where "k = (unat i - ?L + ?w - unat r) mod ?w"
    have kw: "k < ?w" by (simp add: k_def)
    have "(unat r + k) mod ?w = (unat r + (unat i - ?L + ?w - unat r)) mod ?w" by (simp add: k_def mod_add_right_eq)
    also have "unat r + (unat i - ?L + ?w - unat r) = unat i - ?L + ?w" using assms(2) by simp
    also have "(unat i - ?L + ?w) mod ?w = (unat i - ?L) mod ?w" by (rule mod_add_self2)
    also have "\<dots> = unat i - ?L" using i by simp
    finally have "unat (vmCandidate opts (op_lower opts + r) (of_nat k)) = unat i" using c [OF kw] i by simp
    then have "i = vmCandidate opts (op_lower opts + r) (of_nat k)" by (metis word_unat_eq_iff)
    with kw have "i \<in> (\<lambda>k. vmCandidate opts (op_lower opts + r) (of_nat k)) ` {0..<?w}" by (intro image_eqI) simp_all
    then show "i \<in> ?C" by (simp only: set_map set_upt w)
  qed
qed

lemma range_card:
  assumes "validRange opts"
  shows "card {i. op_lower opts \<le> i \<and> i \<le> op_upper opts} = unat (op_upper opts - op_lower opts + 1)"
proof -
  have "bij_betw unat {i. op_lower opts \<le> i \<and> i \<le> op_upper opts} {unat (op_lower opts)..unat (op_upper opts)}"
  proof (rule bij_betw_imageI)
    show "inj_on unat {i. op_lower opts \<le> i \<and> i \<le> op_upper opts}" by (simp add: inj_on_def word_unat_eq_iff)
    show "unat ` {i. op_lower opts \<le> i \<and> i \<le> op_upper opts} = {unat (op_lower opts)..unat (op_upper opts)}"
    proof (intro equalityI subsetI)
      fix n assume n: "n \<in> {unat (op_lower opts)..unat (op_upper opts)}"
      then have "n < 2 ^ 64" using assms by (simp add: validRange_def)
      then have u: "unat (of_nat n :: 64 word) = n" by (simp add: unat_of_nat)
      with n show "n \<in> unat ` {i. op_lower opts \<le> i \<and> i \<le> op_upper opts}"
        by (intro image_eqI [of _ _ "of_nat n"]) (simp_all add: word_le_nat_alt)
    qed (auto simp: word_le_nat_alt)
  qed
  then have "card {i. op_lower opts \<le> i \<and> i \<le> op_upper opts} = Suc (unat (op_upper opts)) - unat (op_lower opts)"
    by (simp add: bij_betw_same_card)
  moreover have "unat (op_lower opts) \<le> unat (op_upper opts)"
    using assms by (simp add: validRange_def word_le_nat_alt)
  ultimately show ?thesis unfolding width_unat [OF assms] by linarith
qed

lemma generateNewVMID_free:
  assumes "validRange opts" and "rand_ok A"
  shows "(case fst (generateNewVMID A resources opts s) of
      Inr vmid \<Rightarrow> \<exists>i. vmidFree opts resources i \<and> vmid = int (unat i)
    | Inl _ \<Rightarrow> \<nexists>i. vmidFree opts resources i)"
proof -
  let ?w = "op_upper opts - op_lower opts + 1"
  let ?R = "{i. op_lower opts \<le> i \<and> i \<le> op_upper opts}"
  define used where "used = remdups (filter (\<lambda>i. op_lower opts \<le> i \<and> i \<le> op_upper opts) (map rs_vmid resources))"
  have LU: "op_lower opts \<le> op_upper opts" using assms(1) by (simp add: validRange_def)
  have w: "unat ?w = unat (op_upper opts) - unat (op_lower opts) + 1" by (rule width_unat [OF assms(1)])
  have w0: "?w \<noteq> 0"
  proof
    assume "?w = 0"
    then have "unat ?w = 0" by simp
    with w show False by simp
  qed
  have free: "vmidFree opts resources i \<longleftrightarrow> i \<in> ?R \<and> i \<notin> set used" for i
    by (auto simp: vmidFree_def used_def)
  have sub: "set used \<subseteq> ?R" by (auto simp: used_def)
  have len: "length used = card (set used)" by (simp add: used_def distinct_card [symmetric])
  have fin: "finite ?R" by simp
  have le: "length used \<le> unat ?w" unfolding len range_card [OF assms(1), symmetric] by (rule card_mono [OF fin sub])
  moreover have U: "unat (op_upper opts) < 9223372036854775808" using assms(1) by (simp add: validRange_def)
  ultimately have "length used < 18446744073709551616" unfolding w by linarith
  then have small: "length used < 2 ^ 64" by simp
  then have cmp: "?w \<le> of_nat (length used) \<longleftrightarrow> unat ?w \<le> length used"
    by (simp add: word_le_nat_alt unat_of_nat del: unat_plus_if')
  show ?thesis
  proof (cases "?w \<le> of_nat (length used)")
    case True
    then have "card ?R \<le> card (set used)" using cmp len range_card [OF assms(1)] by simp
    then have "set used = ?R" by (intro card_subset_eq [OF fin sub]) (use card_mono [OF fin sub] in simp)
    then have "\<nexists>i. vmidFree opts resources i" by (simp add: free)
    then show ?thesis using True LU w0 by (simp add: generateNewVMID_def used_def [symmetric] Let_def)
  next
    case False
    obtain r s1 where r: "pquery (randUint64N A ?w) s = (r, s1)" by fastforce
    then have "r < ?w" using assms(2) w0
      by (auto simp: pquery_def rand_ok_def word_neq_0_conv split: prod.splits) (metis fst_conv word_neq_0_conv)
    then have "unat r \<le> unat (op_upper opts) - unat (op_lower opts)" using w by (simp add: word_less_nat_alt)
    note C = vmCandidates_range [OF assms(1) this]
    let ?cs = "map (\<lambda>k. vmCandidate opts (op_lower opts + r) (of_nat k)) [0..<unat ?w]"
    have loop: "vmidLoop opts used (op_lower opts + r) 0 (unat ?w) = find (\<lambda>c. c \<notin> set used) ?cs"
      by (simp add: vmidLoop_find)
    obtain i where i: "find (\<lambda>c. c \<notin> set used) ?cs = Some i"
    proof (cases "find (\<lambda>c. c \<notin> set used) ?cs")
      case None
      then have "set ?cs \<subseteq> set used" unfolding find_None_iff by blast
      then have "?R \<subseteq> set used" unfolding C .
      then have "card ?R \<le> card (set used)" by (intro card_mono) simp_all
      with False cmp len range_card [OF assms(1)] show ?thesis by simp
    qed
    have iR: "i \<in> set ?cs" "i \<notin> set used" using find_Some_set [OF i] by simp_all
    then have "vmidFree opts resources i" unfolding free C by simp
    moreover from this U have "unat i < 9223372036854775808" by (simp add: vmidFree_def word_le_nat_alt)
    then have "sint i = int (unat i)" by (rule sint_small)
    ultimately show ?thesis using False LU w0 r loop i
      by (auto simp: generateNewVMID_def used_def [symmetric] Let_def)
  qed
qed

text \<open>A Proxmox cluster of two nodes, the second one offline, whose calls all succeed.\<close>

definition sampleVM :: "64 word \<Rightarrow> string \<Rightarrow> string \<Rightarrow> px_vm" where
  "sampleVM i n tags = \<lparr>vm_vmid = i, vm_name = n, vm_tags = tags, vm_node = ''pve1'', vm_running = True\<rparr>"

definition sampleVMs :: "px_vm list" where
  "sampleVMs = [sampleVM 100 ''db'' ''prod'', sampleVM 101 ''worker-1'' ''kube;managed'']"

definition sampleApi :: "unit pxapi" where
  "sampleApi = \<lparr>
     apiCluster = (\<lambda>v. (None, v)),
     apiResources = (\<lambda>k v. (Inr (if k = ''vm''
        then map (\<lambda>x. \<lparr>rs_vmid = vm_vmid x, rs_node = ''pve1'', rs_status = ''running'', rs_maxMem = 0, rs_mem = 0, rs_cpu = 0\<rparr>) sampleVMs
        else [\<lparr>rs_vmid = 0, rs_node = ''pve1'', rs_status = ''online'', rs_maxMem = 68719476736, rs_mem = 0, rs_cpu = 0\<rparr>,
          \<lparr>rs_vmid = 0, rs_node = ''pve2'', rs_status = ''offline'', rs_maxMem = 0, rs_mem = 0, rs_cpu = 0\<rparr>]), v)),
     apiNodes = (\<lambda>v. (Inr [\<lparr>ns_node = ''pve1'', ns_name = ''pve1'', ns_status = ''online''\<rparr>,
        \<lparr>ns_node = ''pve2'', ns_name = ''pve2'', ns_status = ''offline''\<rparr>], v)),
     apiNode = (\<lambda>n v. (None, v)),
     apiVMs = (\<lambda>n v. (Inr sampleVMs, v)),
     apiNewVM = (\<lambda>n i opts v. (Inr ''task'', v)),
     apiVM = (\<lambda>n i v. (Inr (sampleVM (word_of_int i) ''new'' ''managed''), v)),
     apiStart = (\<lambda>x v. (Inr ''task'', v)), apiStop = (\<lambda>x v. (Inr ''task'', v)),
     apiDelete = (\<lambda>x v. (Inr ''task'', v)), apiWait = (\<lambda>t v. (None, v)),
     randUint64N = (\<lambda>n v. (if 0 < n then n - 1 else 0, v)), randByte = (\<lambda>v. (255, v)), randShuffle = (\<lambda>xs v. (rev xs, v))\<rparr>"

definition sampleProxmox :: proxmox_spec where
  "sampleProxmox = \<lparr>px_endpoint = ''https://pve'', px_nodeWhitelist = [], px_vmIDRange = Some \<lparr>vr_lower = 100, vr_upper = 102\<rparr>,
     px_managedNodeTag = ''managed'', px_vmMemOverheadMiB = 256, px_networkInterfaces = [], px_vmOptions = []\<rparr>"

definition sampleOptions :: px_options where
  "sampleOptions = \<lparr>op_endpoint = ''https://pve'', op_nodeWhitelist = [], op_lower = 100, op_upper = 102,
     op_vmMemOverheadMiB = 256, op_managedNodeTag = ''managed'', op_proxmox = Some sampleProxmox\<rparr>"

abbreviation px0 :: "unit px" where "px0 \<equiv> \<lparr>pxWorld = (), pxLog = []\<rparr>"

lemma sampleApi_rand: "rand_ok sampleApi"
  by (auto simp: rand_ok_def sampleApi_def word_less_nat_alt unat_sub word_le_nat_alt intro!: measure_unat)

lemma sampleOptions_valid: "validRange sampleOptions"
  by (simp add: validRange_def sampleOptions_def)

lemma parseOptions_range:
  assumes "parseOptions spec = Inr opts" and "pv_proxmox spec = Some p" and "px_vmIDRange p = Some b" and "vmidRangeAdmitted b"
  shows "validRange opts" and "int (unat (op_lower opts)) = vr_lower b" and "int (unat (op_upper opts)) = vr_upper b"
proof -
  have o: "op_lower opts = word_of_int (vr_lower b)" "op_upper opts = word_of_int (vr_upper b)"
    using assms by (auto simp: parseOptions_def split: if_splits)
  have b: "0 \<le> vr_lower b" "vr_lower b \<le> vr_upper b" "vr_upper b \<le> 999999999"
    using assms(4) by (simp_all add: vmidRangeAdmitted_def)
  show l: "int (unat (op_lower opts)) = vr_lower b" using b by (simp add: o uint_word_of_int)
  show u: "int (unat (op_upper opts)) = vr_upper b" using b by (simp add: o uint_word_of_int)
  have "unat (op_lower opts) \<le> unat (op_upper opts)" "unat (op_upper opts) < 9223372036854775808" using l u b by linarith+
  then show "validRange opts" by (simp add: validRange_def word_le_nat_alt)
qed

lemma vmidFree_int:
  assumes "vr_lower b = int (unat (op_lower opts))" and "vr_upper b = int (unat (op_upper opts))"
  shows "vmidFree opts resources i \<longleftrightarrow>
    vr_lower b \<le> uint i \<and> uint i \<le> vr_upper b \<and> uint i \<notin> uint ` rs_vmid ` set resources"
  unfolding vmidFree_def assms
  by (auto simp: word_le_def dest: word_uint_eqI)

text \<open>
  C18. VM ids: for a range that the CRD admits, the allocation of \<open>generateNewVMID\<close> succeeds
  exactly when some id of the range is not used by a listed resource, and then returns such an id,
  whatever the random start; in particular the 64-bit arithmetic of the search never wraps out of
  the range.
\<close>

theorem generateNewVMID_fresh:
  assumes "parseOptions spec = Inr opts" and "pv_proxmox spec = Some p" and "px_vmIDRange p = Some b"
    and "vmidRangeAdmitted b" and "rand_ok A"
  shows "(case fst (generateNewVMID A resources opts s) of
      Inr vmid \<Rightarrow> vr_lower b \<le> vmid \<and> vmid \<le> vr_upper b \<and> vmid \<notin> uint ` rs_vmid ` set resources
    | Inl _ \<Rightarrow> {vr_lower b..vr_upper b} \<subseteq> uint ` rs_vmid ` set resources)"
proof -
  note V = parseOptions_range [OF assms(1-4)]
  note F = vmidFree_int [OF V(2,3) [symmetric], of resources]
  have full: "{vr_lower b..vr_upper b} \<subseteq> uint ` rs_vmid ` set resources" if "\<nexists>i. vmidFree opts resources i"
  proof
    fix n assume n: "n \<in> {vr_lower b..vr_upper b}"
    then have "uint (word_of_int n :: 64 word) = n"
      using assms(4) by (simp add: uint_word_of_int vmidRangeAdmitted_def)
    with that n F [of "word_of_int n"] show "n \<in> uint ` rs_vmid ` set resources" by simp
  qed
  show ?thesis using generateNewVMID_free [OF V(1) assms(5), of resources s] full
    by (auto simp: F split: sum.splits)
qed

definition sampleSpec :: provider_spec where
  "sampleSpec = \<lparr>pv_type = ''proxmox'', pv_credentialsSecretRef = Some \<lparr>sr_namespace = [], sr_name = ''px-creds''\<rparr>,
     pv_proxmox = Some sampleProxmox, pv_additionalSettings = []\<rparr>"

lemma sampleOptions_parsed: "parseOptions sampleSpec = Inr sampleOptions"
  by (simp add: parseOptions_def sampleSpec_def sampleProxmox_def sampleOptions_def)

theorem generateNewVMID_fresh_witness:
  "parseOptions sampleSpec = Inr sampleOptions \<and> vmidRangeAdmitted \<lparr>vr_lower = 100, vr_upper = 102\<rparr> \<and> rand_ok sampleApi \<and>
   fst (generateNewVMID sampleApi [\<lparr>rs_vmid = 102, rs_node = [], rs_status = [], rs_maxMem = 0, rs_mem = 0, rs_cpu = 0\<rparr>]
        sampleOptions px0) = Inr 100 \<and> (100 :: int) \<notin> {102}"
proof -
  let ?rs = "[\<lparr>rs_vmid = 102, rs_node = [], rs_status = [], rs_maxMem = 0, rs_mem = 0, rs_cpu = 0\<rparr>] :: px_resource list"
  have a: "vmidRangeAdmitted \<lparr>vr_lower = 100, vr_upper = 102\<rparr>" by (simp add: vmidRangeAdmitted_def)
  have "fst (generateNewVMID sampleApi ?rs sampleOptions px0) = Inr 100" by code_simp
  then show ?thesis
    using generateNewVMID_fresh [OF sampleOptions_parsed, of sampleProxmox "\<lparr>vr_lower = 100, vr_upper = 102\<rparr>" sampleApi ?rs px0]
      sampleOptions_parsed sampleApi_rand a by (simp add: sampleSpec_def sampleProxmox_def)
qed

section \<open>Logged calls\<close>

text \<open>\<open>pspec s x Q\<close>: the run \<open>x\<close> from \<open>s\<close> only adds to the log, and its result
  and the calls it added are related by \<open>Q\<close>.\<close>

definition pspec :: "'v px \<Rightarrow> 'a \<times> 'v px \<Rightarrow> ('a \<Rightarrow> px_call list \<Rightarrow> bool) \<Rightarrow> bool" where
  "pspec s x Q \<longleftrightarrow> (\<exists>evs. pxLog (snd x) = pxLog s @ evs \<and> Q (fst x) evs)"

named_theorems pspec_intros

lemma pspec_ret [pspec_intros]: "Q r [] \<Longrightarrow> pspec s (r, s) Q"
  by (simp add: pspec_def)

lemma pspec_bind:
  assumes "pspec s x P" and "\<And>r s1 evs. x = (r, s1) \<Longrightarrow> P r evs \<Longrightarrow> pspec s1 (g r s1) (\<lambda>r' evs'. Q r' (evs @ evs'))"
  shows "pspec s (case x of (r, s1) \<Rightarrow> g r s1) Q"
  using assms by (cases x) (fastforce simp: pspec_def)

lemma pspec_mono: "pspec s x Q \<Longrightarrow> (\<And>r evs. Q r evs \<Longrightarrow> Q' r evs) \<Longrightarrow> pspec s x Q'"
  by (auto simp: pspec_def)

lemma pspec_split:
  assumes "pspec s x P" and "\<And>r evs. P r evs \<Longrightarrow> H evs"
    and "\<And>r s1 evs. x = (r, s1) \<Longrightarrow> P r evs \<Longrightarrow> pspec s1 (g r s1) (Q evs)"
  shows "pspec s (case x of (r, s1) \<Rightarrow> g r s1) (\<lambda>r evs. \<exists>a b. evs = a @ b \<and> H a \<and> Q a r b)"
  using assms(1) by (rule pspec_bind) (use assms(2) in \<open>fast intro: assms(3) [THEN pspec_mono]\<close>)

lemma pspec_query [pspec_intros]:
  assumes "\<And>r s1. pquery f s = (r, s1) \<Longrightarrow> pspec s1 (g r s1) Q"
  shows "pspec s (case pquery f s of (r, s1) \<Rightarrow> g r s1) Q"
proof -
  obtain r s1 where x: "pquery f s = (r, s1)" by fastforce
  then have "pxLog s1 = pxLog s" by (auto simp: pquery_def split: prod.splits)
  with assms [OF x] show ?thesis by (simp add: x pspec_def)
qed

lemma pspec_call [pspec_intros]:
  assumes "\<And>r s1. pcall f ev s = (r, s1) \<Longrightarrow> pspec s1 (g r s1) (\<lambda>r' evs. Q r' (ev r # evs))"
  shows "pspec s (case pcall f ev s of (r, s1) \<Rightarrow> g r s1) Q"
proof -
  obtain r s1 where x: "pcall f ev s = (r, s1)" by fastforce
  then have "pxLog s1 = pxLog s @ [ev r]" by (auto simp: pcall_def split: prod.splits)
  with assms [OF x] show ?thesis by (simp add: x pspec_def) (metis append_Cons append_assoc self_append_conv2)
qed

lemma pspec_sum [pspec_intros]:
  "(\<And>e. x = Inl e \<Longrightarrow> pspec s (f e) Q) \<Longrightarrow> (\<And>v. x = Inr v \<Longrightarrow> pspec s (g v) Q) \<Longrightarrow>
   pspec s (case x of Inl e \<Rightarrow> f e | Inr v \<Rightarrow> g v) Q"
  by (cases x) simp_all

lemma pspec_option [pspec_intros]:
  "(x = None \<Longrightarrow> pspec s f Q) \<Longrightarrow> (\<And>v. x = Some v \<Longrightarrow> pspec s (g v) Q) \<Longrightarrow>
   pspec s (case x of None \<Rightarrow> f | Some v \<Rightarrow> g v) Q"
  by (cases x) simp_all

lemma pspec_if [pspec_intros]:
  "(b \<Longrightarrow> pspec s f Q) \<Longrightarrow> (\<not> b \<Longrightarrow> pspec s g Q) \<Longrightarrow> pspec s (if b then f else g) Q"
  by simp

lemma pspec_let [pspec_intros]: "pspec s (f v) Q \<Longrightarrow> pspec s (let x = v in f x) Q"
  by simp

section \<open>Finding a virtual machine by name\<close>

definition isLookup :: "px_call \<Rightarrow> bool" where
  "isLookup e \<longleftrightarrow> (case e of PVMs _ _ \<Rightarrow> True | _ \<Rightarrow> False)"

text \<open>The virtual machines in the answers of the listings among the calls.\<close>

definition listedVMs :: "px_call list \<Rightarrow> px_vm list" where
  "listedVMs evs = concat (map (\<lambda>e. case e of PVMs _ (Inr vms) \<Rightarrow> vms | _ \<Rightarrow> []) evs)"

lemma listedVMs_simps [simp]:
  "listedVMs [] = []"
  "listedVMs (PVMs n (Inr vms) # evs) = vms @ listedVMs evs"
  "listedVMs (PVMs n (Inl e) # evs) = listedVMs evs"
  by (simp_all add: listedVMs_def)

lemma vmLoop_spec:
  "pspec s (vmLoop A n sts s) (\<lambda>r evs. list_all isLookup evs \<and> r = find (\<lambda>v. vm_name v = n) (listedVMs evs))"
proof (induction sts arbitrary: s)
  case (Cons st sts)
  show ?case
    unfolding vmLoop.simps
    by (intro pspec_intros; (rule Cons.IH [THEN pspec_mono])?;
        auto simp: isLookup_def find_append intro!: pspec_intros Cons.IH [THEN pspec_mono])
qed (simp add: pspec_def)

lemma findNodeByVMName_spec:
  "pspec s (findNodeByVMName A n s) (\<lambda>r evs. list_all isLookup evs \<and>
     (case r of Inr v \<Rightarrow> find (\<lambda>v. vm_name v = n) (listedVMs evs) = Some v
      | Inl e \<Rightarrow> find (\<lambda>v. vm_name v = n) (listedVMs evs) = None))"
  unfolding findNodeByVMName_def
  by (intro pspec_intros pspec_bind [OF vmLoop_spec]) (auto intro!: pspec_intros split: option.split)

section \<open>Deprovisioning\<close>

text \<open>Stopping and deleting \<open>v\<close>, up to the step that fails.\<close>

definition removalRun :: "px_vm \<Rightarrow> px_call list \<Rightarrow> bool" where
  "removalRun v acts \<longleftrightarrow>
     (\<exists>e. acts = [PStop v (Inl e)]) \<or>
     (\<exists>t e. acts = [PStop v (Inr t), PWait t (Some e)]) \<or>
     (\<exists>t e. acts = [PStop v (Inr t), PWait t None, PDelete v (Inl e)]) \<or>
     (\<exists>t u w. acts = [PStop v (Inr t), PWait t None, PDelete v (Inr u), PWait u w])"

definition removedRun :: "px_vm \<Rightarrow> px_call list \<Rightarrow> bool" where
  "removedRun v acts \<longleftrightarrow> (\<exists>t u. acts = [PStop v (Inr t), PWait t None, PDelete v (Inr u), PWait u None])"

lemma removeVM_spec:
  "pspec s (removeVM A v s) (\<lambda>r acts. removalRun v acts \<and> (r = None \<longleftrightarrow> removedRun v acts))"
  unfolding removeVM_def
  by (intro pspec_intros) (auto simp: removalRun_def removedRun_def)

definition deprovisionRun :: "px_options \<Rightarrow> string \<Rightarrow> px_call list \<Rightarrow> goerr option \<Rightarrow> px_call list \<Rightarrow> bool" where
  "deprovisionRun opts name looks r acts \<longleftrightarrow> (case find (\<lambda>v. vm_name v = name) (listedVMs looks) of
        None \<Rightarrow> acts = [] \<and> r \<noteq> None
      | Some v \<Rightarrow>
          (if containsSub (vm_tags v) (op_managedNodeTag opts)
           then removalRun v acts \<and> (r = None \<longleftrightarrow> removedRun v acts) else acts = [] \<and> r \<noteq> None))"

lemma deprovision_spec:
  "pspec s (deprovisionMachinePx A opts m s) (\<lambda>r evs. \<exists>looks acts. evs = looks @ acts \<and> list_all isLookup looks \<and>
     deprovisionRun opts (mc_kubeNodeName m) looks r acts)"
  unfolding deprovisionMachinePx_def
  by (rule pspec_split [OF findNodeByVMName_spec]; (intro pspec_intros removeVM_spec [THEN pspec_mono])?;
      auto simp: deprovisionRun_def)

text \<open>
  C12. Deprovisioning touches no foreign machine: \<open>DeprovisionMachine\<close> first only lists virtual
  machines; it acts exactly when the first listed one with the requested name carries the managed
  tag, and then only on that one: it is stopped, the stop is awaited, and only after a successful
  stop is it deleted. The call succeeds exactly when all four steps did.
\<close>

theorem deprovision_guarded:
  "\<exists>looks acts. pxLog (snd (deprovisionMachinePx A opts m s)) = pxLog s @ looks @ acts \<and> list_all isLookup looks \<and>
     (case find (\<lambda>v. vm_name v = mc_kubeNodeName m) (listedVMs looks) of
        None \<Rightarrow> acts = [] \<and> fst (deprovisionMachinePx A opts m s) \<noteq> None
      | Some v \<Rightarrow>
          (if containsSub (vm_tags v) (op_managedNodeTag opts)
           then removalRun v acts \<and> (fst (deprovisionMachinePx A opts m s) = None \<longleftrightarrow> removedRun v acts)
           else acts = [] \<and> fst (deprovisionMachinePx A opts m s) \<noteq> None))"
  using deprovision_spec [of s A opts m] unfolding pspec_def deprovisionRun_def by blast

section \<open>Virtual machine options\<close>

lemma map_of_setOption [simp]: "map_of (setOption n v opts) = (map_of opts)(n \<mapsto> v)"
  by (induction n v opts rule: setOption.induct) auto

lemma set_setOption [simp]: "fst ` set (setOption n v opts) = insert n (fst ` set opts)"
  by (induction n v opts rule: setOption.induct) auto

lemma distinct_setOption: "distinct (map fst opts) \<Longrightarrow> distinct (map fst (setOption n v opts))"
  by (induction n v opts rule: setOption.induct) (simp_all, blast)

definition nicName :: "nat \<Rightarrow> proxmox_nic \<Rightarrow> string" where
  "nicName idx nic = (if nic_name nic = [] then ''net'' @ decNat idx else nic_name nic)"

fun nicNames :: "nat \<Rightarrow> proxmox_nic list \<Rightarrow> string list" where
  "nicNames idx [] = []"
| "nicNames idx (nic # nics) = nicName idx nic # nicNames (Suc idx) nics"

lemma nicLoop_other: "k \<notin> set (nicNames idx nics) \<Longrightarrow> map_of (fst (nicLoop A idx nics opts s)) k = map_of opts k"
  by (induction nics arbitrary: idx opts s) (auto simp: nicName_def split: prod.split)

lemma nicLoop_distinct: "distinct (map fst opts) \<Longrightarrow> distinct (map fst (fst (nicLoop A idx nics opts s)))"
  by (induction nics arbitrary: idx opts s) (auto intro!: distinct_setOption split: prod.split)

lemma nicLoop_nic:
  "i < length nics \<Longrightarrow> nicNames idx nics ! i \<notin> set (drop (Suc i) (nicNames idx nics)) \<Longrightarrow>
   \<exists>s'. map_of (fst (nicLoop A idx nics opts s)) (nicNames idx nics ! i) =
     Some (VStr (joinStr '','' (nicParts (nics ! i) (fst (generateRandomMAC A (nic_macPrefix (nics ! i)) s')))))"
proof (induction nics arbitrary: idx opts s i)
  case (Cons nic nics)
  obtain mac s1 where mac: "generateRandomMAC A (nic_macPrefix nic) s = (mac, s1)" by fastforce
  show ?case
  proof (cases i)
    case 0
    with Cons.prems mac show ?thesis
      by (auto simp: nicName_def [symmetric] nicLoop_other intro!: exI [of _ s])
  next
    case (Suc j)
    then show ?thesis using Cons.IH [of j "Suc idx"] Cons.prems mac by simp
  qed
qed simp

lemma length_nicNames [simp]: "length (nicNames idx nics) = length nics"
  by (induction nics arbitrary: idx) simp_all

definition configuredOptions :: "proxmox_spec \<Rightarrow> vm_options" where
  "configuredOptions p = map (\<lambda>q. (po_name q, VRaw (po_value q))) (px_vmOptions p)"

definition fixedOptions :: "px_options \<Rightarrow> machine_spec \<Rightarrow> string \<Rightarrow> string \<rightharpoonup> px_value" where
  "fixedOptions opts spec name = [''name'' \<mapsto> VStr name, ''tags'' \<mapsto> VStr (op_managedNodeTag opts),
     ''memory'' \<mapsto> VInt (vmMemory opts spec), ''cores'' \<mapsto> VInt (ms_cpuCores spec)]"

definition managedOptions :: "px_options \<Rightarrow> machine_spec \<Rightarrow> string \<Rightarrow> vm_options \<Rightarrow> vm_options" where
  "managedOptions opts spec name base = setOption ''cores'' (VInt (ms_cpuCores spec))
     (setOption ''memory'' (VInt (vmMemory opts spec)) (setOption ''tags'' (VStr (op_managedNodeTag opts))
     (setOption ''name'' (VStr name) base)))"

lemma managedOptions_map: "map_of (managedOptions opts spec name base) = map_of base ++ fixedOptions opts spec name"
  by (simp add: managedOptions_def fixedOptions_def)

lemma build_Inr:
  assumes "op_proxmox opts = Some p"
  shows "fst (buildVirtualMachineOptions A name spec opts s) =
    Inr (fst (nicLoop A 0 (px_networkInterfaces p) (managedOptions opts spec name (configuredOptions p)) s))"
  using assms by (simp add: buildVirtualMachineOptions_def configuredOptions_def managedOptions_def Let_def split: prod.split)

text \<open>
  C36. The options of a new virtual machine: every NIC has its option, under its name or
  \<open>net<index>\<close>, with a generated MAC, unless a later NIC has the same name; an option that is
  no NIC's is the managed one for \<open>name\<close>, \<open>tags\<close>, \<open>memory\<close> and \<open>cores\<close>,
  whatever the configuration says of it, and the configured one otherwise; and no option is given
  twice when the configuration gives none twice.
\<close>

theorem vm_options_exact:
  assumes "op_proxmox opts = Some p"
  shows "\<exists>vmOpts. fst (buildVirtualMachineOptions A name spec opts s) = Inr vmOpts \<and>
    (\<forall>k. k \<notin> set (nicNames 0 (px_networkInterfaces p)) \<longrightarrow>
       map_of vmOpts k = (map_of (configuredOptions p) ++ fixedOptions opts spec name) k) \<and>
    (\<forall>i < length (px_networkInterfaces p).
       nicNames 0 (px_networkInterfaces p) ! i \<notin> set (drop (Suc i) (nicNames 0 (px_networkInterfaces p))) \<longrightarrow>
       (\<exists>s'. map_of vmOpts (nicNames 0 (px_networkInterfaces p) ! i) = Some (VStr (joinStr '','' (nicParts
          (px_networkInterfaces p ! i) (fst (generateRandomMAC A (nic_macPrefix (px_networkInterfaces p ! i)) s'))))))) \<and>
    (distinct (map fst (configuredOptions p)) \<longrightarrow> distinct (map fst vmOpts))"
proof -
  let ?o = "managedOptions opts spec name (configuredOptions p)"
  have "distinct (map fst ?o)" if "distinct (map fst (configuredOptions p))"
    using that unfolding managedOptions_def by (intro distinct_setOption)
  then show ?thesis
    using nicLoop_nic [of _ "px_networkInterfaces p" 0 A ?o s]
    by (intro exI [of _ "fst (nicLoop A 0 (px_networkInterfaces p) ?o s)"])
      (simp add: build_Inr [OF assms] nicLoop_other managedOptions_map nicLoop_distinct)
qed

theorem vm_options_exact_witness:
  "op_proxmox sampleOptions = Some sampleProxmox \<and>
   (\<exists>vmOpts. fst (buildVirtualMachineOptions sampleApi ''worker-2'' \<lparr>ms_machineName = ''worker-2'', ms_cpuCores = 4, ms_memoryMiB = 8192\<rparr>
      sampleOptions px0) = Inr vmOpts \<and> map_of vmOpts ''memory'' = Some (VInt 8448))"
  using vm_options_exact [of sampleOptions sampleProxmox sampleApi "''worker-2''"
    "\<lparr>ms_machineName = ''worker-2'', ms_cpuCores = 4, ms_memoryMiB = 8192\<rparr>" px0]
  by (auto simp: sampleOptions_def sampleProxmox_def fixedOptions_def configuredOptions_def vmMemory_def add64_def i64_def)

section \<open>Provisioning\<close>

text \<open>The node the last online entry of the listing for \<open>name\<close> says has room for the machine.\<close>

definition nodeFits :: "px_options \<Rightarrow> machine_spec \<Rightarrow> px_resource list \<Rightarrow> string \<Rightarrow> bool" where
  "nodeFits opts spec nodeRes name \<longleftrightarrow>
     (\<exists>r. map_of (resByNode nodeRes) name = Some r \<and> rs_status r = proxmoxStatusOnline \<and> name \<noteq> [] \<and>
        rs_maxMem r \<noteq> 0 \<and> needMiB opts spec \<le> freeMiB r \<and> rs_cpu r \<le> cpuUtilMax) \<and>
     (op_nodeWhitelist opts \<noteq> [] \<longrightarrow> name \<in> set (op_nodeWhitelist opts))"

lemma resByNode_online:
  "map_of (resByNode rs) name = Some r \<Longrightarrow> r \<in> set rs \<and> rs_node r = name \<and> rs_status r = proxmoxStatusOnline \<and> name \<noteq> []"
  by (drule map_of_SomeD) (auto simp: resByNode_def onlineResources_def)

lemma probeNodes_spec:
  "pspec s (probeNodes A snapshot need names s) (\<lambda>r evs. evs = [] \<and> (\<forall>name. r = Some name \<longrightarrow> name \<in> set names \<and>
     (\<exists>x. map_of snapshot name = Some x \<and> rs_maxMem x \<noteq> 0 \<and> need \<le> freeMiB x \<and> rs_cpu x \<le> cpuUtilMax)))"
proof (induction names arbitrary: s)
  case (Cons n names)
  show ?case unfolding probeNodes.simps
    by (intro pspec_intros Cons.IH [THEN pspec_mono]; simp)
qed (simp add: pspec_def)

lemma shuffled: "rand_ok A \<Longrightarrow> pquery (randShuffle A xs) s = (ys, s1) \<Longrightarrow> set ys = set xs"
  by (auto simp: pquery_def rand_ok_def split: prod.splits) (metis fst_conv)+

lemma getAvailableNode_spec:
  assumes "rand_ok A"
  shows "pspec s (getAvailableNode A opts spec s) (\<lambda>r evs. (case r of
      Inr name \<Rightarrow> \<exists>nodeRes. evs = [PResources ''node'' (Inr nodeRes)] \<and> nodeFits opts spec nodeRes name
    | Inl e \<Rightarrow> evs = [] \<or> (\<exists>x. evs = [PResources ''node'' x])))"
  unfolding getAvailableNode_def
  by (intro pspec_intros pspec_bind [OF probeNodes_spec])
    (auto simp: nodeFits_def dest: resByNode_online dest!: shuffled [OF assms])

lemma generateNewVMID_spec:
  assumes "validRange opts" and "rand_ok A"
  shows "pspec s (generateNewVMID A resources opts s) (\<lambda>r evs. evs = [] \<and>
    (\<forall>vmid. r = Inr vmid \<longrightarrow> (\<exists>i. vmidFree opts resources i \<and> vmid = int (unat i))))"
proof -
  have "pspec s (generateNewVMID A resources opts s) (\<lambda>r evs. evs = [])"
    unfolding generateNewVMID_def by (intro pspec_intros) auto
  with generateNewVMID_free [OF assms, of resources s] show ?thesis by (auto simp: pspec_def)
qed

lemma randBytes_spec: "pspec s (randBytes A n s) (\<lambda>r evs. evs = [] \<and> length r = n)"
proof (induction n arbitrary: s)
  case (Suc n)
  show ?case unfolding randBytes.simps
    by (intro pspec_intros pspec_bind [OF Suc.IH]) (simp add: pspec_def)
qed (simp add: pspec_def)

lemma generateRandomMAC_quiet: "pspec s (generateRandomMAC A prefix s) (\<lambda>r evs. evs = [])"
  unfolding generateRandomMAC_def by (intro pspec_bind [OF randBytes_spec]) (simp add: pspec_def)

lemma nicLoop_quiet: "pspec s (nicLoop A idx nics opts s) (\<lambda>r evs. evs = [])"
proof (induction nics arbitrary: idx opts s)
  case (Cons nic nics)
  show ?case unfolding nicLoop.simps
    by (intro pspec_bind [OF generateRandomMAC_quiet] Cons.IH [THEN pspec_mono]) simp
qed (simp add: pspec_def)

definition managedNames :: "string list" where
  "managedNames = [''name'', ''tags'', ''memory'', ''cores'']"

lemma dom_fixedOptions: "dom (fixedOptions opts spec name) = set managedNames"
  by (auto simp: fixedOptions_def managedNames_def)

text \<open>No NIC takes the name of an option that the provider sets.\<close>

definition nicNamesFree :: "px_options \<Rightarrow> bool" where
  "nicNamesFree opts \<longleftrightarrow> (case op_proxmox opts of None \<Rightarrow> True
   | Some p \<Rightarrow> list_all (\<lambda>nic. nic_name nic \<notin> set managedNames) (px_networkInterfaces p))"

lemma nicNames_free:
  "list_all (\<lambda>nic. nic_name nic \<notin> set managedNames) nics \<Longrightarrow> k \<in> set managedNames \<Longrightarrow> k \<notin> set (nicNames idx nics)"
proof (induction nics arbitrary: idx)
  case (Cons nic nics)
  have "''net'' @ xs \<notin> set managedNames" for xs by (simp add: managedNames_def)
  with Cons show ?case by (auto simp: nicName_def)
qed simp

lemma build_spec:
  assumes "nicNamesFree opts"
  shows "pspec s (buildVirtualMachineOptions A name spec opts s) (\<lambda>r evs. evs = [] \<and>
    (\<forall>vmOpts. r = Inr vmOpts \<longrightarrow> fixedOptions opts spec name \<subseteq>\<^sub>m map_of vmOpts))"
proof -
  have "pspec s (buildVirtualMachineOptions A name spec opts s) (\<lambda>r evs. evs = [])"
    unfolding buildVirtualMachineOptions_def
    by (intro pspec_intros pspec_bind [OF nicLoop_quiet]) (auto simp: pspec_def)
  moreover have "fixedOptions opts spec name \<subseteq>\<^sub>m map_of vmOpts"
    if b: "fst (buildVirtualMachineOptions A name spec opts s) = Inr vmOpts" for vmOpts
  proof (cases "op_proxmox opts")
    case None
    with that show ?thesis by (simp add: buildVirtualMachineOptions_def)
  next
    case (Some p)
    have "map_of vmOpts k = fixedOptions opts spec name k" if k: "k \<in> dom (fixedOptions opts spec name)" for k
    proof -
      have "k \<notin> set (nicNames 0 (px_networkInterfaces p))"
        using k assms Some by (intro nicNames_free) (simp_all add: nicNamesFree_def dom_fixedOptions)
      then have "map_of vmOpts k = (map_of (configuredOptions p) ++ fixedOptions opts spec name) k"
        using b [symmetric] by (simp add: build_Inr [OF Some] nicLoop_other managedOptions_map)
      with k show ?thesis by (simp add: map_add_dom_app_simps)
    qed
    then show ?thesis by (simp add: map_le_def)
  qed
  ultimately show ?thesis by (auto simp: pspec_def)
qed

definition isResources :: "px_call \<Rightarrow> bool" where
  "isResources e \<longleftrightarrow> (case e of PResources _ _ \<Rightarrow> True | _ \<Rightarrow> False)"

text \<open>The calls that create a virtual machine, wait for it and start it, up to the step that fails.\<close>

definition newVMRun :: "string \<Rightarrow> int \<Rightarrow> vm_options \<Rightarrow> px_call list \<Rightarrow> bool" where
  "newVMRun nodeName vmid vmOpts acts \<longleftrightarrow>
     (\<exists>e. acts = [PNewVM nodeName vmid vmOpts (Inl e)]) \<or>
     (\<exists>t w. acts = [PNewVM nodeName vmid vmOpts (Inr t), PWait t w]) \<or>
     (\<exists>t v x. acts = [PNewVM nodeName vmid vmOpts (Inr t), PWait t None, PStart v x])"

definition creationRun :: "px_options \<Rightarrow> machine_spec \<Rightarrow> px_call list \<Rightarrow> bool" where
  "creationRun opts spec acts \<longleftrightarrow> (\<exists>resources nodeRes name i vmOpts new.
     acts = PResources ''vm'' (Inr resources) # PResources ''node'' (Inr nodeRes) # new \<and>
     newVMRun name (int (unat i)) vmOpts new \<and>
     vmidFree opts resources i \<and> nodeFits opts spec nodeRes name \<and>
     fixedOptions opts spec (ms_machineName spec) \<subseteq>\<^sub>m map_of vmOpts)"

text \<open>The last call of the run started the virtual machine.\<close>

definition endsStarted :: "px_call list \<Rightarrow> bool" where
  "endsStarted acts \<longleftrightarrow> acts \<noteq> [] \<and> (case last acts of PStart _ (Inr _) \<Rightarrow> True | _ \<Rightarrow> False)"

lemma newVMRun_nonempty: "newVMRun n i o1 acts \<Longrightarrow> acts \<noteq> []"
  by (auto simp: newVMRun_def)

lemma endsStarted_Cons: "acts \<noteq> [] \<Longrightarrow> endsStarted (e # acts) = endsStarted acts"
  by (simp add: endsStarted_def)

lemma creationRunI:
  "newVMRun name (int (unat i)) vmOpts new \<Longrightarrow> vmidFree opts resources i \<Longrightarrow> nodeFits opts spec nodeRes name \<Longrightarrow>
   fixedOptions opts spec (ms_machineName spec) \<subseteq>\<^sub>m map_of vmOpts \<Longrightarrow>
   creationRun opts spec (PResources ''vm'' (Inr resources) # PResources ''node'' (Inr nodeRes) # new)"
  unfolding creationRun_def by blast

lemma createVM_spec:
  "pspec s (createVM A name nodeName vmid vmOpts s) (\<lambda>r acts. newVMRun nodeName vmid vmOpts acts \<and>
     (\<forall>m. r = Inr m \<longleftrightarrow> m = machineNamed name \<and> endsStarted acts))"
  unfolding createVM_def by (intro pspec_intros) (auto simp: endsStarted_def newVMRun_def)

text \<open>What the calls after the lookups say of a new machine: none was created, or one as it should be.\<close>

definition newMachineRun :: "px_options \<Rightarrow> machine_spec \<Rightarrow> goerr + machine \<Rightarrow> px_call list \<Rightarrow> bool" where
  "newMachineRun opts spec r acts \<longleftrightarrow>
     (list_all isResources acts \<and> (\<exists>e. r = Inl e)) \<or>
     (creationRun opts spec acts \<and> (\<forall>m. r = Inr m \<longleftrightarrow> m = machineNamed (ms_machineName spec) \<and> endsStarted acts))"

lemma newMachineRun_none: "list_all isResources acts \<Longrightarrow> newMachineRun opts spec (Inl e) acts"
  by (simp add: newMachineRun_def)

lemma newMachineRun_created:
  "newVMRun name (uint i) vmOpts acts \<Longrightarrow> vmidFree opts resources i \<Longrightarrow> nodeFits opts spec nodeRes name \<Longrightarrow>
   fixedOptions opts spec (ms_machineName spec) \<subseteq>\<^sub>m map_of vmOpts \<Longrightarrow>
   (\<forall>m. r = Inr m \<longleftrightarrow> m = machineNamed (ms_machineName spec) \<and> endsStarted acts) \<Longrightarrow>
   newMachineRun opts spec r (PResources ''vm'' (Inr resources) # PResources ''node'' (Inr nodeRes) # acts)"
  using creationRunI [of name i vmOpts acts opts resources spec nodeRes]
  by (simp add: newMachineRun_def endsStarted_Cons newVMRun_nonempty)

lemma newMachine_spec:
  assumes "validRange opts" and "rand_ok A" and "nicNamesFree opts"
  shows "pspec s (newMachine A opts spec s) (newMachineRun opts spec)"
  unfolding newMachine_def
  by (intro pspec_intros pspec_bind [OF generateNewVMID_spec [OF assms(1,2)]] pspec_bind [OF getAvailableNode_spec [OF assms(2)]]
      pspec_bind [OF build_spec [OF assms(3)]] createVM_spec [THEN pspec_mono])
    (auto intro!: newMachineRun_none intro: newMachineRun_created simp: isResources_def)

text \<open>Starting a virtual machine that exists already.\<close>

definition reuseRun :: "px_vm \<Rightarrow> string \<Rightarrow> goerr + machine \<Rightarrow> px_call list \<Rightarrow> bool" where
  "reuseRun v name r acts \<longleftrightarrow>
     (if vm_running v then acts = [] \<and> r = Inr (machineNamed name)
      else (\<exists>e x. acts = [PStart v (Inl e)] \<and> r = Inl x) \<or> (\<exists>t e x. acts = [PStart v (Inr t), PWait t (Some e)] \<and> r = Inl x) \<or>
        (\<exists>t. acts = [PStart v (Inr t), PWait t None] \<and> r = Inr (machineNamed name)))"

lemma reuseMachine_spec: "pspec s (reuseMachine A name v s) (reuseRun v name)"
  unfolding reuseMachine_def by (intro pspec_intros) (auto simp: reuseRun_def)

text \<open>
  C13. Provisioning is idempotent by name and creates only what fits: \<open>ProvisionMachine\<close> first
  only lists virtual machines. When one with the machine's name is listed, no machine is created:
  that one is started unless it runs, and returned. Otherwise at most one virtual machine is created,
  with an id in the configured range that no listed resource has, on an online node of the whitelist
  (when there is one) that the listing says has the memory, and with the machine's name, the managed
  tag and its memory and cores as options; the machine is returned exactly when it was created and
  started, and has the machine's name as node name.
\<close>

theorem provision_creates_fitting:
  assumes "validRange opts" and "rand_ok A" and "nicNamesFree opts"
  shows "\<exists>looks acts. pxLog (snd (provisionMachinePx A opts spec s)) = pxLog s @ looks @ acts \<and> list_all isLookup looks \<and>
     (case find (\<lambda>v. vm_name v = ms_machineName spec) (listedVMs looks) of
        Some v \<Rightarrow> reuseRun v (ms_machineName spec) (fst (provisionMachinePx A opts spec s)) acts
      | None \<Rightarrow> newMachineRun opts spec (fst (provisionMachinePx A opts spec s)) acts)"
proof -
  have "pspec s (provisionMachinePx A opts spec s) (\<lambda>r evs. \<exists>looks acts. evs = looks @ acts \<and> list_all isLookup looks \<and>
    (case find (\<lambda>v. vm_name v = ms_machineName spec) (listedVMs looks) of
        Some v \<Rightarrow> reuseRun v (ms_machineName spec) r acts | None \<Rightarrow> newMachineRun opts spec r acts))"
    unfolding provisionMachinePx_def
    by (rule pspec_split [OF findNodeByVMName_spec];
        (intro pspec_intros reuseMachine_spec [THEN pspec_mono] newMachine_spec [OF assms, THEN pspec_mono])?;
        auto intro: newMachineRun_none)
  then show ?thesis by (simp only: pspec_def) blast
qed

theorem provision_creates_fitting_witness:
  "validRange sampleOptions \<and> rand_ok sampleApi \<and> nicNamesFree sampleOptions \<and>
   (\<exists>looks acts. pxLog (snd (provisionMachinePx sampleApi sampleOptions
       \<lparr>ms_machineName = ''worker-2'', ms_cpuCores = 4, ms_memoryMiB = 8192\<rparr> px0)) = looks @ acts \<and> list_all isLookup looks \<and>
     (case find (\<lambda>v. vm_name v = ''worker-2'') (listedVMs looks) of
        Some v \<Rightarrow> reuseRun v ''worker-2'' (Inr (machineNamed ''worker-2'')) acts
      | None \<Rightarrow> newMachineRun sampleOptions \<lparr>ms_machineName = ''worker-2'', ms_cpuCores = 4, ms_memoryMiB = 8192\<rparr>
          (Inr (machineNamed ''worker-2'')) acts))"
proof -
  let ?spec = "\<lparr>ms_machineName = ''worker-2'', ms_cpuCores = 4, ms_memoryMiB = 8192\<rparr> :: machine_spec"
  have n: "nicNamesFree sampleOptions" by (simp add: nicNamesFree_def sampleOptions_def sampleProxmox_def)
  have r: "fst (provisionMachinePx sampleApi sampleOptions ?spec px0) = Inr (machineNamed ''worker-2'')" by code_simp
  show ?thesis
    using provision_creates_fitting [OF sampleOptions_valid sampleApi_rand n, of ?spec px0]
    unfolding r machine_spec.simps px.simps append_Nil using sampleOptions_valid sampleApi_rand n by blast
qed

section \<open>MAC addresses\<close>

lemma hexDigit_hexChar: "n < 16 \<Longrightarrow> hexDigit (hexChar n) = Some n"
  by (simp add: hexDigit_def hexChar_def Let_def)

lemma hexChar_no_colon: "n < 16 \<Longrightarrow> hexChar n \<noteq> CHR '':''"
  by (auto dest!: hexDigit_hexChar) (simp add: hexDigit_def)

lemma parseHexByte_fmt02x: "parseHexByte (fmt02x b) = Some b"
proof -
  have "unat b < 256" using unsigned_less [of b, where ?'a = nat] by simp
  then have "unat b div 16 < 16" "unat b mod 16 < 16" by linarith+
  then show ?thesis using \<open>unat b < 256\<close> by (simp add: parseHexByte_def fmt02x_def hexDigit_hexChar)
qed

lemma fmt02x_no_colon: "CHR '':'' \<notin> set (fmt02x b)"
proof -
  have "unat b < 256" using unsigned_less [of b, where ?'a = nat] by simp
  then have "unat b div 16 < 16" "unat b mod 16 < 16" by linarith+
  then have "hexChar (unat b div 16) \<noteq> CHR '':''" "hexChar (unat b mod 16) \<noteq> CHR '':''" by (simp_all add: hexChar_no_colon)
  then show ?thesis by (simp add: fmt02x_def)
qed

lemma splitOn_single: "c \<notin> set x \<Longrightarrow> splitOn c x = [x]"
  by (induction x) auto

lemma splitOn_append: "c \<notin> set x \<Longrightarrow> splitOn c (x @ c # y) = x # splitOn c y"
  by (induction x) auto

lemma splitOn_joinStr:
  "xs \<noteq> [] \<Longrightarrow> \<forall>x \<in> set xs. c \<notin> set x \<Longrightarrow> splitOn c (joinStr [c] xs) = xs"
  by (induction "[c]" xs rule: joinStr.induct) (simp_all add: splitOn_single splitOn_append)

lemma length_applyPrefix [simp]: "length (applyPrefix ps bs) = length bs"
  by (induction ps bs rule: applyPrefix.induct) simp_all

lemma applyPrefix_nth:
  "i < length ps \<Longrightarrow> i < length bs \<Longrightarrow> parseHexByte (ps ! i) = Some v \<Longrightarrow> applyPrefix ps bs ! i = v"
proof (induction ps bs arbitrary: i rule: applyPrefix.induct)
  case (1 p ps b bs)
  then show ?case by (cases i) simp_all
qed simp_all

lemma markMAC_nth: "i < length bs \<Longrightarrow> markMAC bs ! i = (if i = 0 then (bs ! i AND NOT 1) OR 2 else bs ! i)"
  by (cases bs; cases i) (simp_all add: markMAC_def)

lemma length_markMAC [simp]: "length (markMAC bs) = length bs"
  by (simp add: markMAC_def split: list.split)

text \<open>
  C35. MAC addresses: whatever the prefix and the random bytes, the result of
  \<open>generateRandomMAC\<close> reads back as six bytes in lower case hex separated by colons, the first
  of which is unicast and locally administered; a part of the prefix that is a hex byte is the
  byte at its place, but for these two bits of the first.
\<close>

theorem mac_well_formed:
  "\<exists>bs. map parseHexByte (splitOn CHR '':'' (fst (generateRandomMAC A prefix s))) = map Some bs \<and> length bs = 6 \<and>
     \<not> bit (bs ! 0) 0 \<and> bit (bs ! 0) 1 \<and>
     (\<forall>i v. prefix \<noteq> [] \<longrightarrow> i < length (splitOn CHR '':'' prefix) \<longrightarrow> i < 6 \<longrightarrow>
        parseHexByte (splitOn CHR '':'' prefix ! i) = Some v \<longrightarrow>
        bs ! i = (if i = 0 then (v AND NOT 1) OR 2 else v))"
proof -
  obtain rs s1 where rs: "randBytes A 6 s = (rs, s1)" by fastforce
  then have l: "length rs = 6" using randBytes_spec [of s A 6] by (simp add: pspec_def)
  define base where "base = (if prefix \<noteq> [] then applyPrefix (splitOn CHR '':'' prefix) rs else rs)"
  have lb: "length base = 6" using l by (simp add: base_def)
  let ?bs = "markMAC base"
  have "splitOn CHR '':'' (joinStr '':'' (map fmt02x ?bs)) = map fmt02x ?bs"
    using lb by (intro splitOn_joinStr) (auto simp: fmt02x_no_colon simp flip: length_0_conv)
  then have "map parseHexByte (splitOn CHR '':'' (fst (generateRandomMAC A prefix s))) = map Some ?bs"
    by (simp add: generateRandomMAC_def rs base_def parseHexByte_fmt02x)
  moreover have "?bs ! i = (if i = 0 then (base ! i AND NOT 1) OR 2 else base ! i)" if "i < 6" for i
    using that lb by (simp add: markMAC_nth)
  moreover from this [of 0] have "\<not> bit (?bs ! 0) 0 \<and> bit (?bs ! 0) 1"
    by (simp add: bit_simps)
  ultimately show ?thesis using lb l applyPrefix_nth [of _ "splitOn CHR '':'' prefix" rs]
    by (intro exI [of _ ?bs]) (auto simp: base_def)
qed

theorem mac_well_formed_witness:
  "\<exists>bs. map parseHexByte (splitOn CHR '':'' (fst (generateRandomMAC sampleApi ''bc:24'' px0))) = map Some bs \<and>
     length bs = 6 \<and> bs ! 1 = 0x24"
  using mac_well_formed [of sampleApi "''bc:24''" px0]
  by (auto simp: parseHexByte_def hexDigit_def)

section \<open>Listing\<close>

definition listedMachine :: "px_vm \<Rightarrow> machine" where
  "listedMachine v = \<lparr>mc_providerID = vm_name v, mc_kubeNodeName = vm_name v\<rparr>"

lemma listLoop_spec:
  "pspec s (listLoop A opts pre sts s) (\<lambda>r evs. list_all isLookup evs \<and>
     r = map listedMachine (filter (\<lambda>v. hasPrefix (vm_name v) pre \<and> containsSub (vm_tags v) (op_managedNodeTag opts)) (listedVMs evs)))"
proof (induction sts arbitrary: s)
  case (Cons st sts)
  show ?case unfolding listLoop.simps
    by (intro pspec_intros pspec_bind [OF Cons.IH] Cons.IH [THEN pspec_mono])
      (auto simp: isLookup_def listedMachine_def pspec_def)
qed (simp add: pspec_def)

text \<open>
  Listing: \<open>ListMachines\<close> changes nothing; its answer is exactly the virtual machines in
  the answers it got from the nodes that have the name prefix and carry the managed tag, in order.
\<close>

theorem list_machines_exact:
  "\<exists>evs. pxLog (snd (listMachinesPx A opts pre s)) = pxLog s @ evs \<and> list_all isLookup evs \<and>
     (case fst (listMachinesPx A opts pre s) of
        Inr ms \<Rightarrow> ms = map listedMachine (filter (\<lambda>v. hasPrefix (vm_name v) pre \<and>
          containsSub (vm_tags v) (op_managedNodeTag opts)) (listedVMs evs))
      | Inl e \<Rightarrow> evs = [])"
proof -
  have "pspec s (listMachinesPx A opts pre s) (\<lambda>r evs. list_all isLookup evs \<and> (case r of
        Inr ms \<Rightarrow> ms = map listedMachine (filter (\<lambda>v. hasPrefix (vm_name v) pre \<and>
          containsSub (vm_tags v) (op_managedNodeTag opts)) (listedVMs evs))
      | Inl e \<Rightarrow> evs = []))"
    unfolding listMachinesPx_def by (intro pspec_intros pspec_bind [OF listLoop_spec]) (auto simp: pspec_def)
  then show ?thesis unfolding pspec_def .
qed

section \<open>The provider contract\<close>

lemma reuse_named: "fst (reuseMachine A name v s) = Inr m \<Longrightarrow> m = machineNamed name"
  by (auto simp: reuseMachine_def split: if_splits prod.splits sum.splits option.splits)

lemma create_named: "fst (createVM A name nodeName vmid vmOpts s) = Inr m \<Longrightarrow> m = machineNamed name"
  by (auto simp: createVM_def split: prod.splits sum.splits option.splits)

lemma provision_named:
  assumes "fst (provisionMachinePx A opts spec s) = Inr m"
  shows "m = machineNamed (ms_machineName spec)"
  using assms unfolding provisionMachinePx_def newMachine_def
  by (auto split: prod.splits sum.splits option.splits if_splits dest!: arg_cong [of _ _ fst] reuse_named create_named)

interpretation px_machines: machine_provider "proxmoxProvider A opts" for A opts
  by unfold_locales (auto simp: proxmoxProvider_def machineNamed_def dest!: provision_named)

text \<open>
  C22. A machine that joins is registered: when the Proxmox provider returned a machine for the claim
  and a node with the machine's node name is listed that is not being deleted, the registration
  phase takes a listed node that has the claim's name or carries the claim's label and is not being
  deleted, though the controller never stored the machine's node name. Every status it writes then has this node's name,
  no attempts, the condition Registered True and no Failed one; the phase ends well exactly when such a
  status was accepted by the server or already there, and otherwise ends with an error because a
  call failed. Without a claim label on other nodes the node is the machine's.
\<close>

theorem joined_machine_registers:
  assumes "env_ok E" and "fst (provisionMachinePx A opts spec w) = Inr m" and "ms_machineName spec = cl_name c"
    and "st_providerID (cl_status c) = mc_providerID m" and "st_nodeName (cl_status c) = []"
    and "listNodes E s = (Inr nodes, s1)" and "n \<in> set nodes" and "nd_name n = mc_kubeNodeName m"
    and "timePtrIsZero (om_deletion (nd_meta n))"
  shows "\<exists>n' \<in> set nodes. (nd_name n' = mc_kubeNodeName m \<or> nodeMatchesClaim n' c) \<and> timePtrIsZero (om_deletion (nd_meta n')) \<and>
    (\<exists>evs res c1 s2. reconcileRegistration E c s = ((res, c1), s2) \<and> trace s2 = trace s1 @ evs \<and>
      (\<forall>d r. EStatusClaim d r \<in> set evs \<longrightarrow> st_nodeName (cl_status d) = nd_name n' \<and> st_launchAttempts (cl_status d) = 0 \<and>
         (\<exists>k. findCondition E d conditionTypeRegistered = Some k \<and> cond_status k = CTrue) \<and> \<not> claimFailed E d) \<and>
      (res = nextPhase \<and> (\<exists>st. list_ex (answered (\<lambda>st. st_nodeName st = nd_name n') st) evs) \<or>
       (\<exists>d e. res = failWith d e) \<and> list_ex failedCall evs))"
proof -
  obtain res c1 s2 where run: "reconcileRegistration E c s = ((res, c1), s2)" by (metis prod.collapse)
  have "cl_name c = mc_kubeNodeName m"
    using px_machines.node_named [of A opts spec w m] assms(2,3) by (simp add: proxmoxProvider_def)
  then show ?thesis
    using px_machines.joined_registers [where A = A and opts = opts and E = E and spec = spec and w = w and m = m and c = c
        and s = s and nodes = nodes and ?s1.0 = s1 and n = n] assms run
    by (simp add: proxmoxProvider_def registrationRun_def registeredAs_def)
qed

definition launchedClaim :: claim where
  "launchedClaim = (sampleClaim ''worker-2'')\<lparr>cl_status := sampleStatus\<lparr>st_providerID := ''proxmox://worker-2''\<rparr>\<rparr>"

definition joinedWorld :: sample where
  "joinedWorld = (emptyWorld 100)\<lparr>sw_nodes := [sampleNode ''worker-1'', sampleNode ''worker-2''],
     sw_claims := [launchedClaim], sw_pools := [samplePool]\<rparr>"

theorem joined_machine_registers_witness:
  "fst (provisionMachinePx sampleApi sampleOptions \<lparr>ms_machineName = ''worker-2'', ms_cpuCores = 4, ms_memoryMiB = 8192\<rparr> px0) =
     Inr (machineNamed ''worker-2'') \<and>
   (let log = trace (snd (reconcileRegistration sampleEnv launchedClaim (startState joinedWorld))) in
    (\<exists>d r. EStatusClaim d r \<in> set log) \<and>
    (\<exists>n' \<in> {sampleNode ''worker-1'', sampleNode ''worker-2''}. \<forall>d r. EStatusClaim d r \<in> set log \<longrightarrow>
      st_nodeName (cl_status d) = nd_name n' \<and> \<not> claimFailed sampleEnv d))"
proof -
  let ?spec = "\<lparr>ms_machineName = ''worker-2'', ms_cpuCores = 4, ms_memoryMiB = 8192\<rparr> :: machine_spec"
  let ?ns = "[sampleNode ''worker-1'', sampleNode ''worker-2'']"
  have r: "fst (provisionMachinePx sampleApi sampleOptions ?spec px0) = Inr (machineNamed ''worker-2'')" by code_simp
  obtain s1 where l: "listNodes sampleEnv (startState joinedWorld) = (Inr ?ns, s1)"
    by (simp add: call_def sampleEnv_def startState_def joinedWorld_def)
  have c: "ms_machineName ?spec = cl_name launchedClaim" "st_nodeName (cl_status launchedClaim) = []"
    "st_providerID (cl_status launchedClaim) = mc_providerID (machineNamed ''worker-2'')"
    by (simp_all add: launchedClaim_def sampleClaim_def sampleMeta_def sampleStatus_def machineNamed_def)
  have n: "sampleNode ''worker-2'' \<in> set ?ns" "nd_name (sampleNode ''worker-2'') = mc_kubeNodeName (machineNamed ''worker-2'')"
    "timePtrIsZero (om_deletion (nd_meta (sampleNode ''worker-2'')))"
    by (simp_all add: sampleNode_def sampleMeta_def machineNamed_def timePtrIsZero_def)
  let ?run = "reconcileRegistration sampleEnv launchedClaim (startState joinedWorld)"
  have "list_ex isClaimStatusWrite (trace (snd ?run))" by code_simp
  then have w: "\<exists>d r. EStatusClaim d r \<in> set (trace (snd ?run))" by (auto simp: list_ex_iff isClaimStatusWrite_iff)
  have s1: "trace s1 = [EListNodes (Inr ?ns)]" using l by (auto simp: startState_def dest!: call_trace)
  obtain n' evs res c1 s2 where j: "n' \<in> set ?ns" "?run = ((res, c1), s2)" "trace s2 = trace s1 @ evs"
    "\<forall>d r. EStatusClaim d r \<in> set evs \<longrightarrow> st_nodeName (cl_status d) = nd_name n' \<and> \<not> claimFailed sampleEnv d"
    using joined_machine_registers [OF sampleEnv_ok r c(1,3,2) l n] by blast
  then have "\<forall>d r. EStatusClaim d r \<in> set (trace (snd ?run)) \<longrightarrow> st_nodeName (cl_status d) = nd_name n' \<and> \<not> claimFailed sampleEnv d"
    by (simp add: s1)
  moreover have "n' \<in> {sampleNode ''worker-1'', sampleNode ''worker-2''}" using j(1) by simp
  ultimately show ?thesis unfolding Let_def using r w by blast
qed

section \<open>Credentials\<close>

definition asksToSkip :: "gomap \<Rightarrow> bool" where
  "asksToSkip d \<longleftrightarrow> (\<exists>raw. map_of d ''PROXMOX_SKIP_TLS_VERIFY'' = Some raw \<and> parseBool (trimSpace raw) = Some True)"

lemma parseBool_empty: "trimSpace raw = [] \<Longrightarrow> parseBool (trimSpace raw) = None"
  by (simp add: parseBool_def)

lemma checkSecret_Inr:
  assumes "checkSecret path d = Inr creds"
  shows "cd_tokenID creds = trimSpace (mapGet ''PROXMOX_TOKEN_ID'' d)" "cd_tokenID creds \<noteq> []"
    "cd_secret creds = trimSpace (mapGet ''PROXMOX_SECRET'' d)" "cd_secret creds \<noteq> []"
    "cd_insecureSkipTLSVerify creds \<longleftrightarrow> asksToSkip d"
  using assms parseBool_empty
  by (auto simp: asksToSkip_def checkSecret_def readInsecure_def Let_def split: if_splits option.splits)

lemma pquery_Inr: "pquery f s = (r, s1) \<Longrightarrow> fst (f (pxWorld s)) = r"
  by (auto simp: pquery_def split: prod.splits)

lemma loadCredentials_Inr:
  assumes "loadCredentials P dns ref s = (Inr creds, s1)"
  shows "\<exists>r ns v d path. ref = Some r \<and> ns = (if sr_namespace r = [] then dns else sr_namespace r) \<and>
    fst (peSecret P ns (sr_name r) v) = Inr d \<and> checkSecret path d = Inr creds"
proof (cases ref)
  case (Some r)
  define ns where "ns = (if sr_namespace r = [] then dns else sr_namespace r)"
  obtain x sa where a: "pquery (peClientset P) s = (x, sa)" by fastforce
  obtain y sb where b: "pquery (peSecret P ns (sr_name r)) sa = (y, sb)" by fastforce
  from assms Some a b obtain d where "y = Inr d" "checkSecret (ns @ ''/'' @ sr_name r) d = Inr creds"
    by (simp add: loadCredentials_def ns_def [symmetric] Let_def split: if_splits option.splits sum.splits)
  with pquery_Inr [OF b] Some ns_def show ?thesis by blast
qed (use assms in \<open>simp add: loadCredentials_def\<close>)

text \<open>
  C37. Credentials and TLS: a provider is only built with a token and a secret that are not blank, both
  as the referenced secret holds them; its client talks to the parsed endpoint with them, through an
  HTTP client that leaves out the verification of the server's certificate exactly when the secret
  asks for that with a value that reads as true.
\<close>

theorem provider_credentials_checked:
  assumes "fst (newProvider P (Some po) s) = Inr prov"
  shows "\<exists>opts r ns v d httpClient tokenID secret. parseOptions (po_spec po) = Inr opts \<and>
    pv_credentialsSecretRef (po_spec po) = Some r \<and>
    ns = (if sr_namespace r = [] then om_namespace (po_meta po) else sr_namespace r) \<and>
    fst (peSecret P ns (sr_name r) v) = Inr d \<and>
    prov = proxmoxProvider (peNewClient P (op_endpoint opts) httpClient tokenID secret) opts \<and>
    tokenID = trimSpace (mapGet ''PROXMOX_TOKEN_ID'' d) \<and> tokenID \<noteq> [] \<and>
    secret = trimSpace (mapGet ''PROXMOX_SECRET'' d) \<and> secret \<noteq> [] \<and>
    (skipsVerify httpClient \<longleftrightarrow> asksToSkip d)"
proof -
  obtain opts creds s1 where o: "parseOptions (po_spec po) = Inr opts"
    and l: "loadCredentials P (om_namespace (po_meta po)) (pv_credentialsSecretRef (po_spec po)) s = (Inr creds, s1)"
    using assms by (auto simp: newProvider_def Let_def split: sum.splits prod.splits)
  let ?hc = "if cd_insecureSkipTLSVerify creds then \<lparr>hc_transport = Some \<lparr>ht_insecureSkipVerify = True\<rparr>\<rparr>
    else \<lparr>hc_transport = None\<rparr>"
  have p: "prov = proxmoxProvider (peNewClient P (op_endpoint opts) ?hc (cd_tokenID creds) (cd_secret creds)) opts"
    using assms o l by (auto simp: newProvider_def Let_def)
  from loadCredentials_Inr [OF l] obtain r ns v d path where R: "pv_credentialsSecretRef (po_spec po) = Some r"
    "ns = (if sr_namespace r = [] then om_namespace (po_meta po) else sr_namespace r)"
    "fst (peSecret P ns (sr_name r) v) = Inr d" "checkSecret path d = Inr creds"
    by (elim exE conjE)
  have "skipsVerify ?hc \<longleftrightarrow> asksToSkip d" using checkSecret_Inr(5) [OF R(4)] by (simp add: skipsVerify_def)
  with o p R(1-3) checkSecret_Inr(1-4) [OF R(4)] show ?thesis by blast
qed

definition samplePxEnv :: "unit pxenv" where
  "samplePxEnv = \<lparr>peClientset = (\<lambda>v. (None, v)),
     peSecret = (\<lambda>ns n v. (Inr [(''PROXMOX_TOKEN_ID'', '' root@pam!k ''), (''PROXMOX_SECRET'', ''s3cret'')], v)),
     peNewClient = (\<lambda>endpoint httpClient tokenID secret. sampleApi)\<rparr>"

theorem provider_credentials_checked_witness:
  "\<exists>prov. fst (newProvider samplePxEnv (Some \<lparr>po_meta = sampleMeta ''px'', po_spec = sampleSpec, po_status = \<lparr>pvs_conditions = [], pvs_observedGeneration = 0\<rparr>\<rparr>) px0) = Inr prov \<and>
     (\<exists>opts httpClient secret. parseOptions sampleSpec = Inr opts \<and> \<not> skipsVerify httpClient \<and>
        prov = proxmoxProvider (peNewClient samplePxEnv (op_endpoint opts) httpClient ''root@pam!k'' secret) opts)"
proof -
  let ?po = "\<lparr>po_meta = sampleMeta ''px'', po_spec = sampleSpec, po_status = \<lparr>pvs_conditions = [], pvs_observedGeneration = 0\<rparr>\<rparr> :: provider_obj"
  let ?d = "[(''PROXMOX_TOKEN_ID'', '' root@pam!k ''), (''PROXMOX_SECRET'', ''s3cret'')]"
  have "\<not> isl (fst (newProvider samplePxEnv (Some ?po) px0))" by code_simp
  then obtain prov where p: "fst (newProvider samplePxEnv (Some ?po) px0) = Inr prov"
    by (cases "fst (newProvider samplePxEnv (Some ?po) px0)") auto
  have d: "fst (peSecret samplePxEnv ns n v) = Inr ?d" for ns n v by (simp add: samplePxEnv_def)
  have k: "trimSpace (mapGet ''PROXMOX_TOKEN_ID'' ?d) = ''root@pam!k''" by code_simp
  have f: "\<not> asksToSkip ?d" by (simp add: asksToSkip_def)
  obtain opts httpClient tokenID secret where c: "parseOptions sampleSpec = Inr opts"
    "prov = proxmoxProvider (peNewClient samplePxEnv (op_endpoint opts) httpClient tokenID secret) opts"
    "tokenID = trimSpace (mapGet ''PROXMOX_TOKEN_ID'' ?d)" "skipsVerify httpClient \<longleftrightarrow> asksToSkip ?d"
    using provider_credentials_checked [OF p] unfolding d by (simp only: provider_obj.simps sum.inject) blast
  show ?thesis using p c(1,2,4) f unfolding c(3) k by blast
qed

end
