(* ===== verification/Control_Plane.thy ===== *)
theory Control_Plane
  imports Claim_Controller
begin

text \<open>
  The control plane reconciler, \<open>internal/controller/controlplane_controller.go\<close>: it resolves
  the pools that a \<open>NodeSmithControlPlane\<close> names and their providers, keeps the providers it
  built in a cache, and reports the outcome as the \<open>Ready\<close> condition. The cache, which outlives a
  reconcile, is passed in and returned; its mutex only orders the accesses of concurrent workers.
\<close>

section \<open>The provider cache\<close>

text \<open>An entry of the cache: the resource version the provider was built from, and the provider.\<close>

type_synonym 'w provider_cache = "nskey \<rightharpoonup> string \<times> 'w provider"

definition ensureProvider ::
  "'w env \<Rightarrow> 'w provider_cache \<Rightarrow> string \<Rightarrow> provider_obj \<Rightarrow> 'w st \<Rightarrow> ((goerr + 'w provider) \<times> 'w provider_cache) \<times> 'w st" where
  "ensureProvider E cache ty po s =
     (let key = metaKey (po_meta po);
          build = (if providerFactories E = [] then ((Inl (errorf ''no provider factories registered''), cache), s)
            else (case map_of (providerFactories E) ty of
              None \<Rightarrow> ((Inl (errorf (''unsupported provider type '' @ quoteStr (pv_type (po_spec po)))), cache), s)
            | Some builder \<Rightarrow> (case buildProvider builder ty po s of
                (Inl e, s1) \<Rightarrow> ((Inl e, cache), s1)
              | (Inr prov, s1) \<Rightarrow> ((Inr prov, cache(key \<mapsto> (om_rv (po_meta po), prov))), s1)))) in
      case cache key of
        None \<Rightarrow> build
      | Some (rv, prov) \<Rightarrow> (if rv = om_rv (po_meta po) then ((Inr prov, cache), s) else build))"

section \<open>Resolving the pools\<close>

text \<open>
  What the loop over the pools has found: all resolved so far, or the reason and the message it
  stopped with.
\<close>

record cp_result =
  rs_problem :: "(string \<times> string) option"
  rs_pools :: "string list"
  rs_providers :: "string list"

abbreviation cpStop :: "string \<Rightarrow> string \<Rightarrow> cp_result \<Rightarrow> goerr + cp_result" where
  "cpStop reason message r \<equiv> Inr (r\<lparr>rs_problem := Some (reason, message)\<rparr>)"

fun resolvePools ::
  "'w env \<Rightarrow> string \<Rightarrow> string list \<Rightarrow> cp_result \<Rightarrow> 'w provider_cache \<Rightarrow> 'w st
    \<Rightarrow> ((goerr + cp_result) \<times> 'w provider_cache) \<times> 'w st" where
  "resolvePools E ns [] r cache s = ((Inr r, cache), s)"
| "resolvePools E ns (poolName # names) r cache s =
     (case getPool E (ns, poolName) s of
       (Inl e, s1) \<Rightarrow>
         (if IsNotFound e
          then ((cpStop ''PoolMissing'' (''referenced pool '' @ quoteStr poolName @ '' not found'') r, cache), s1)
          else ((Inl (wrapf (''get NodeSmithPool '' @ keyString (ns, poolName) @ '': '') e), cache), s1))
     | (Inr pl, s1) \<Rightarrow>
         (let r1 = r\<lparr>rs_pools := rs_pools r @ [pl_name pl]\<rparr>; ref = ps_providerRef (pl_spec pl) in
          if ref = []
          then ((cpStop ''ProviderRefMissing'' (''pool '' @ quoteStr (pl_name pl) @ '' has empty spec.providerRef'') r1, cache), s1)
          else (case getProviderObj E (ns, ref) s1 of
            (Inl e, s2) \<Rightarrow>
              (if IsNotFound e
               then ((cpStop ''ProviderMissing'' (''provider '' @ quoteStr ref @ '' referenced by pool '' @
                 quoteStr (pl_name pl) @ '' not found'') r1, cache), s2)
               else ((Inl (wrapf (''get NodeSmithProvider '' @ keyString (ns, ref) @ '': '') e), cache), s2))
          | (Inr po, s2) \<Rightarrow>
              (let ty = toLower (trimSpace (pv_type (po_spec po))) in
               if ty = []
               then ((cpStop ''ProviderTypeMissing'' (''provider '' @ quoteStr (om_name (po_meta po)) @
                 '' missing spec.type'') r1, cache), s2)
               else (case ensureProvider E cache ty po s2 of
                 ((Inl e, cache1), s3) \<Rightarrow>
                   ((cpStop ''ProviderInitializationFailed'' (''failed to initialize provider '' @
                     quoteStr (om_name (po_meta po)) @ '': '' @ err_msg e) r1, cache1), s3)
               | ((Inr prov, cache1), s3) \<Rightarrow>
                   resolvePools E ns names (r1\<lparr>rs_providers := rs_providers r1 @ [om_name (po_meta po)]\<rparr>) cache1 s3)))))"

section \<open>Reconcile\<close>

definition cpMessage :: "controlplane \<Rightarrow> cp_result \<Rightarrow> string" where
  "cpMessage cp r =
     (let message = (if cp_pools cp = [] then ''no pools configured''
        else (case rs_problem r of None \<Rightarrow> [] | Some (reason, msg) \<Rightarrow> msg)) in
      if message = []
      then ''resolved pools ['' @ joinStr '', '' (rs_pools r) @ ''] with providers ['' @ joinStr '', '' (rs_providers r) @ '']''
      else message)"

definition cpStatus :: "'w env \<Rightarrow> time \<Rightarrow> controlplane \<Rightarrow> cp_result \<Rightarrow> controlplane_status" where
  "cpStatus E t cp r = (cp_status cp)\<lparr>
     cps_observedGeneration := om_generation (cp_meta cp),
     cps_lastSyncTime := Some t,
     cps_conditions := libSet E t (cps_conditions (cp_status cp))
       \<lparr>cond_type = ''Ready'', cond_status = (if rs_problem r = None then CTrue else CFalse),
        cond_reason = (case rs_problem r of None \<Rightarrow> ''PoolsResolved'' | Some (reason, msg) \<Rightarrow> reason),
        cond_message = cpMessage cp r, cond_generation = om_generation (cp_meta cp), cond_transition = zeroTime\<rparr>\<rparr>"

definition reconcileCP ::
  "'w env \<Rightarrow> nskey \<Rightarrow> 'w provider_cache \<Rightarrow> 'w st \<Rightarrow> (goerr option \<times> 'w provider_cache) \<times> 'w st" where
  "reconcileCP E key cache s = (case getCP E key s of
     (Inl e, s1) \<Rightarrow> (if IsNotFound e then ((None, cache), s1)
       else ((Some (wrapf ''get NodeSmithControlPlane: '' e), cache), s1))
   | (Inr cp, s1) \<Rightarrow>
       (case resolvePools E (om_namespace (cp_meta cp)) (cp_pools cp)
           \<lparr>rs_problem = None, rs_pools = [], rs_providers = []\<rparr> cache s1 of
         ((Inl e, cache1), s2) \<Rightarrow> ((Some e, cache1), s2)
       | ((Inr r, cache1), s2) \<Rightarrow>
           (let cp1 = cp\<lparr>cp_status := cpStatus E (now E s2) cp r\<rparr> in
            if libEqCP E (cp_status cp) (cp_status cp1) then ((None, cache1), s2)
            else (case updateCPStatus E cp1 s2 of
              ((Some e, _), s3) \<Rightarrow> ((Some (wrapf ''update NodeSmithControlPlane status: '' e), cache1), s3)
            | ((None, _), s3) \<Rightarrow> ((None, cache1), s3)))))"

section \<open>Watches\<close>

fun containsName :: "string list \<Rightarrow> string \<Rightarrow> bool" where
  "containsName [] target = False"
| "containsName (v # vs) target = (if v = target then True else containsName vs target)"

definition mapPoolToControllers :: "'w env \<Rightarrow> pool \<Rightarrow> 'w st \<Rightarrow> nskey list \<times> 'w st" where
  "mapPoolToControllers E pl s = (case listCPs E (om_namespace (pl_meta pl)) s of
     (Inl e, s1) \<Rightarrow> ([], s1)
   | (Inr cps, s1) \<Rightarrow>
       (map (\<lambda>cp. metaKey (cp_meta cp)) (filter (\<lambda>cp. containsName (cp_pools cp) (pl_name pl)) cps), s1))"

text \<open>
  The requests come out of a Go map, in any order; here they are in the order of the listing, each
  once.
\<close>

definition mapProviderToControllers :: "'w env \<Rightarrow> provider_obj \<Rightarrow> 'w st \<Rightarrow> nskey list \<times> 'w st" where
  "mapProviderToControllers E po s = (case listPools E (om_namespace (po_meta po)) s of
     (Inl e, s1) \<Rightarrow> ([], s1)
   | (Inr pools, s1) \<Rightarrow>
       (let poolNames = remdups (map pl_name (filter (\<lambda>pl. ps_providerRef (pl_spec pl) = om_name (po_meta po)) pools)) in
        case listCPs E (om_namespace (po_meta po)) s1 of
          (Inl e, s2) \<Rightarrow> ([], s2)
        | (Inr cps, s2) \<Rightarrow>
            (let requestSet = filter (\<lambda>cp. list_ex (containsName (cp_pools cp)) poolNames) cps in
             (remdups (map (\<lambda>cp. metaKey (cp_meta cp)) (if requestSet = [] then cps else requestSet)), s2))))"

end
