(* ===== verification/Control_Plane_Safety.thy ===== *)
theory Control_Plane_Safety
  imports Control_Plane
begin

text \<open>
  Properties of the control plane reconciler: what a \<open>Ready\<close> condition says of the pools and
  providers, when providers are built, and which control planes a watch event wakes up.
\<close>

section \<open>Status writes\<close>

fun cpWrote :: "controlplane \<Rightarrow> unit \<Rightarrow> ext_call \<Rightarrow> bool" where
  "cpWrote cp u (EGetCP k r) = (k = metaKey (cp_meta cp))"
| "cpWrote cp u (EStatusCP cp' r) = (cp_status cp' = cp_status cp)"
| "cpWrote cp u EWait = True"
| "cpWrote cp u _ = False"

lemma cpStatusAttempt_calls:
  "emits (cpWrote cp u) s (cpStatusAttempt E (metaKey (cp_meta cp)) (cp_status cp) s)"
  unfolding cpStatusAttempt_def Let_def by (intro emits_intros; simp)

lemma retryCP_run: "env_ok E \<Longrightarrow> retry_run f s (retryCP E f s)"
  by (simp add: env_ok_def retry_ok_def)

interpretation cp_status: status_writer env_ok "\<lambda>E cp u. updateCPStatus E cp" "\<lambda>st cp. cp\<lparr>cp_status := st\<rparr>" cpWrote
proof unfold_locales
  fix E :: "'a env" and cp u s
  assume "env_ok E"
  then have "emits (cpWrote cp u) s (retryCP E (cpStatusAttempt E (metaKey (cp_meta cp)) (cp_status cp)) s)"
    by (intro retry_run_emits [OF retryCP_run]) (auto intro: cpStatusAttempt_calls)
  then show "emits (cpWrote cp u) s (updateCPStatus E cp s)"
    unfolding updateCPStatus_def by (intro emits_bind emits_sum emits_ret)
qed (auto simp: updateCPStatus_def split: prod.splits sum.splits)

section \<open>Resolving the pools\<close>

text \<open>A provider for this version of the resource was built among the calls \<open>evs\<close>.\<close>

definition builtIn :: "ext_call list \<Rightarrow> nskey \<Rightarrow> string \<Rightarrow> bool" where
  "builtIn evs key rv \<longleftrightarrow> (\<exists>ty po. EBuildProvider ty po None \<in> set evs \<and> metaKey (po_meta po) = key \<and> om_rv (po_meta po) = rv)"

definition providerAvailable :: "'w provider_cache \<Rightarrow> ext_call list \<Rightarrow> nskey \<Rightarrow> string \<Rightarrow> bool" where
  "providerAvailable cache evs key rv \<longleftrightarrow> (\<exists>prov. cache key = Some (rv, prov)) \<or> builtIn evs key rv"

definition cacheFrom :: "'w provider_cache \<Rightarrow> ext_call list \<Rightarrow> 'w provider_cache \<Rightarrow> bool" where
  "cacheFrom cache evs cache' \<longleftrightarrow> (\<forall>key rv prov. cache' key = Some (rv, prov) \<longrightarrow>
     cache key = Some (rv, prov) \<or> builtIn evs key rv)"

lemma cacheFromD: "cacheFrom cache evs cache1 \<Longrightarrow> cache1 key = Some (rv, prov) \<Longrightarrow> cache key = Some (rv, prov) \<or> builtIn evs key rv"
  unfolding cacheFrom_def by blast

lemma builtIn_append: "builtIn (xs @ ys) k rv \<longleftrightarrow> builtIn xs k rv \<or> builtIn ys k rv"
  by (auto simp: builtIn_def)

lemma builtIn_Cons: "builtIn ys k rv \<Longrightarrow> builtIn (e # ys) k rv"
  by (auto simp: builtIn_def)

lemma available_trans:
  assumes "cacheFrom cache evs cache1" and "providerAvailable cache1 evs' key rv"
  shows "providerAvailable cache (evs @ evs') key rv"
proof (cases "\<exists>prov. cache1 key = Some (rv, prov)")
  case True
  then obtain prov where "cache1 key = Some (rv, prov)" ..
  with assms(1) have "cache key = Some (rv, prov) \<or> builtIn evs key rv" unfolding cacheFrom_def by blast
  then show ?thesis by (auto simp: providerAvailable_def builtIn_append)
next
  case False
  with assms(2) show ?thesis by (simp add: providerAvailable_def builtIn_append)
qed

lemma available_mono: "providerAvailable cache evs k rv \<Longrightarrow> set evs \<subseteq> set evs' \<Longrightarrow> providerAvailable cache evs' k rv"
  by (auto simp: providerAvailable_def builtIn_def)

definition buildFailed :: "'w env \<Rightarrow> ext_call list \<Rightarrow> string \<Rightarrow> provider_obj \<Rightarrow> bool" where
  "buildFailed E evs ty po \<longleftrightarrow> map_of (providerFactories E) ty = None \<or> (\<exists>e. EBuildProvider ty po (Some e) \<in> set evs)"

lemma buildFailed_mono: "buildFailed E ys ty po \<Longrightarrow> set ys \<subseteq> set zs \<Longrightarrow> buildFailed E zs ty po"
  by (auto simp: buildFailed_def)

fun isBuild :: "ext_call \<Rightarrow> bool" where
  "isBuild (EBuildProvider _ _ _) = True"
| "isBuild _ = False"

lemma buildProvider_spec:
  "tspec s (buildProvider b ty po s) (\<lambda>r evs. evs = [EBuildProvider ty po (case r of Inl e \<Rightarrow> Some e | Inr _ \<Rightarrow> None)])"
  unfolding buildProvider_def by (rule tspec_call) simp

definition ensured ::
  "'w env \<Rightarrow> 'w provider_cache \<Rightarrow> string \<Rightarrow> provider_obj \<Rightarrow> (goerr + 'w provider) \<times> 'w provider_cache \<Rightarrow> ext_call list \<Rightarrow> bool" where
  "ensured E cache ty po x evs \<longleftrightarrow> cacheFrom cache evs (snd x) \<and> list_all isBuild evs \<and>
     (\<forall>prov. cache (metaKey (po_meta po)) = Some (om_rv (po_meta po), prov) \<longrightarrow> evs = [] \<and> x = (Inr prov, cache)) \<and>
     (case fst x of Inr prov \<Rightarrow> snd x (metaKey (po_meta po)) = Some (om_rv (po_meta po), prov)
      | Inl e \<Rightarrow> snd x = cache \<and> buildFailed E evs ty po)"

lemma ensureProvider_spec: "tspec s (ensureProvider E cache ty po s) (ensured E cache ty po)"
  unfolding ensureProvider_def Let_def
  by (intro tspec_intros tspec_pair tspec_bind [OF buildProvider_spec])
    (auto simp: ensured_def cacheFrom_def buildFailed_def builtIn_def)

text \<open>What the log says of a pool that resolved, and of one that did not.\<close>

definition providerType :: "provider_obj \<Rightarrow> string" where
  "providerType po = toLower (trimSpace (pv_type (po_spec po)))"

definition poolResolved :: "'w provider_cache \<Rightarrow> string \<Rightarrow> ext_call list \<Rightarrow> string \<Rightarrow> bool" where
  "poolResolved cache ns evs name \<longleftrightarrow> (\<exists>pl po. EGetPool (ns, name) (Inr pl) \<in> set evs \<and> ps_providerRef (pl_spec pl) \<noteq> [] \<and>
     EGetProviderObj (ns, ps_providerRef (pl_spec pl)) (Inr po) \<in> set evs \<and> providerType po \<noteq> [] \<and>
     providerAvailable cache evs (metaKey (po_meta po)) (om_rv (po_meta po)))"

inductive poolProblem :: "'w env \<Rightarrow> string \<Rightarrow> ext_call list \<Rightarrow> string \<Rightarrow> string \<Rightarrow> bool"
  for E :: "'w env" and ns :: string and evs :: "ext_call list" and name :: string where
  pool_missing: "EGetPool (ns, name) (Inl e) \<in> set evs \<Longrightarrow> IsNotFound e \<Longrightarrow> poolProblem E ns evs name ''PoolMissing''"
| ref_missing: "EGetPool (ns, name) (Inr pl) \<in> set evs \<Longrightarrow> ps_providerRef (pl_spec pl) = [] \<Longrightarrow>
    poolProblem E ns evs name ''ProviderRefMissing''"
| provider_missing: "EGetPool (ns, name) (Inr pl) \<in> set evs \<Longrightarrow>
    EGetProviderObj (ns, ps_providerRef (pl_spec pl)) (Inl e) \<in> set evs \<Longrightarrow> IsNotFound e \<Longrightarrow>
    poolProblem E ns evs name ''ProviderMissing''"
| type_missing: "EGetPool (ns, name) (Inr pl) \<in> set evs \<Longrightarrow>
    EGetProviderObj (ns, ps_providerRef (pl_spec pl)) (Inr po) \<in> set evs \<Longrightarrow> providerType po = [] \<Longrightarrow>
    poolProblem E ns evs name ''ProviderTypeMissing''"
| build_failed: "EGetPool (ns, name) (Inr pl) \<in> set evs \<Longrightarrow>
    EGetProviderObj (ns, ps_providerRef (pl_spec pl)) (Inr po) \<in> set evs \<Longrightarrow> buildFailed E evs (providerType po) po \<Longrightarrow>
    poolProblem E ns evs name ''ProviderInitializationFailed''"

lemma poolResolved_trans:
  assumes "cacheFrom cache xs cache1" and "poolResolved cache1 ns ys name" and "set xs \<subseteq> set zs" "set ys \<subseteq> set zs"
  shows "poolResolved cache ns zs name"
proof -
  obtain pl po where r: "EGetPool (ns, name) (Inr pl) \<in> set ys" "ps_providerRef (pl_spec pl) \<noteq> []"
    "EGetProviderObj (ns, ps_providerRef (pl_spec pl)) (Inr po) \<in> set ys" "providerType po \<noteq> []"
    "providerAvailable cache1 ys (metaKey (po_meta po)) (om_rv (po_meta po))"
    using assms(2) unfolding poolResolved_def by blast
  have "providerAvailable cache zs (metaKey (po_meta po)) (om_rv (po_meta po))"
    by (rule available_mono [OF available_trans [OF assms(1) r(5)]]) (use assms(3,4) in auto)
  with r assms(4) show ?thesis unfolding poolResolved_def by blast
qed

lemma poolProblem_mono: "poolProblem E ns ys name reason \<Longrightarrow> set ys \<subseteq> set zs \<Longrightarrow> poolProblem E ns zs name reason"
  by (erule poolProblem.cases) (auto intro: poolProblem.intros dest: buildFailed_mono)

definition resolveOutcome ::
  "'w env \<Rightarrow> 'w provider_cache \<Rightarrow> string \<Rightarrow> string list \<Rightarrow> (goerr + cp_result) \<Rightarrow> ext_call list \<Rightarrow> bool" where
  "resolveOutcome E cache ns names r evs \<longleftrightarrow> (case r of Inl e \<Rightarrow> True
   | Inr q \<Rightarrow> (case rs_problem q of None \<Rightarrow> list_all (poolResolved cache ns evs) names
      | Some (reason, msg) \<Rightarrow> list_ex (\<lambda>n. poolProblem E ns evs n reason) names))"

lemma resolveOutcome_later:
  assumes "resolveOutcome E cache1 ns names r ys" and "cacheFrom cache xs cache1"
    and "poolResolved cache ns zs name" and "set xs \<subseteq> set zs" "set ys \<subseteq> set zs"
  shows "resolveOutcome E cache ns (name # names) r zs"
proof -
  have *: "poolResolved cache1 ns ys n \<Longrightarrow> poolResolved cache ns zs n" for n
    by (rule poolResolved_trans [OF assms(2) _ assms(4,5)])
  have "poolProblem E ns ys n reason \<Longrightarrow> poolProblem E ns zs n reason" for n reason
    by (rule poolProblem_mono [OF _ assms(5)])
  with * assms(1,3) show ?thesis
    by (fastforce simp: resolveOutcome_def list_all_iff list_ex_iff split: sum.splits option.splits)
qed

lemma outcome_stop:
  "poolProblem E ns evs name reason \<Longrightarrow> resolveOutcome E cache ns (name # names) (cpStop reason msg r) evs"
  by (simp add: resolveOutcome_def)

lemma outcome_error: "resolveOutcome E cache ns names (Inl e) evs"
  by (simp add: resolveOutcome_def)

lemma cacheFrom_trans: "cacheFrom cache xs cache1 \<Longrightarrow> cacheFrom cache1 ys cache2 \<Longrightarrow> cacheFrom cache (xs @ ys) cache2"
  unfolding cacheFrom_def builtIn_append by blast

lemma cacheFrom_refl [simp]: "cacheFrom cache evs cache"
  by (simp add: cacheFrom_def)

lemma cacheFrom_mono: "cacheFrom cache xs cache1 \<Longrightarrow> set xs \<subseteq> set ys \<Longrightarrow> cacheFrom cache ys cache1"
  unfolding cacheFrom_def builtIn_def by blast

text \<open>An iteration that gets as far as the provider: the calls before it and what is known after it.\<close>

abbreviation poolRead :: "string \<Rightarrow> string \<Rightarrow> pool \<Rightarrow> provider_obj \<Rightarrow> ext_call list \<Rightarrow> ext_call list" where
  "poolRead ns name pl po evs \<equiv>
     EGetPool (ns, name) (Inr pl) # EGetProviderObj (ns, ps_providerRef (pl_spec pl)) (Inr po) # evs"

lemma ensured_resolved:
  assumes "ensured E cache (providerType po) po (Inr prov, cache1) evs" and "providerType po \<noteq> []"
    and "ps_providerRef (pl_spec pl) \<noteq> []"
  shows "poolResolved cache ns (poolRead ns name pl po (evs @ evs')) name"
proof -
  have "cache1 (metaKey (po_meta po)) = Some (om_rv (po_meta po), prov)" "cacheFrom cache evs cache1"
    using assms(1) by (simp_all add: ensured_def)
  from cacheFromD [OF this(2,1)]
  have "providerAvailable cache (poolRead ns name pl po (evs @ evs')) (metaKey (po_meta po)) (om_rv (po_meta po))"
    by (auto simp: providerAvailable_def builtIn_def)
  with assms(2,3) show ?thesis unfolding poolResolved_def by auto
qed

definition resolveSpec ::
  "'w env \<Rightarrow> 'w provider_cache \<Rightarrow> string \<Rightarrow> string list \<Rightarrow> (goerr + cp_result) \<times> 'w provider_cache \<Rightarrow> ext_call list \<Rightarrow> bool" where
  "resolveSpec E cache ns names y evs \<longleftrightarrow> resolveOutcome E cache ns names (fst y) evs \<and> cacheFrom cache evs (snd y)"

lemma resolve_step:
  assumes IH: "\<And>r cache s. rs_problem r = None \<Longrightarrow> tspec s (resolvePools E ns names r cache s) (resolveSpec E cache ns names)"
    and x: "ensured E cache (providerType po) po x evs" and ty: "providerType po \<noteq> []" "ps_providerRef (pl_spec pl) \<noteq> []"
    and r2: "rs_problem r2 = None"
  shows "tspec s (case x of (q, cache1) \<Rightarrow> (case q of
         Inl e \<Rightarrow> ((cpStop ''ProviderInitializationFailed'' (msg e) r1, cache1), s)
       | Inr prov \<Rightarrow> resolvePools E ns names r2 cache1 s))
      (\<lambda>y evs'. resolveSpec E cache ns (name # names) y (poolRead ns name pl po (evs @ evs')))"
proof (cases x)
  case (Pair q cache1)
  have c: "cacheFrom cache evs cache1" using x Pair by (simp add: ensured_def)
  show ?thesis
  proof (cases q)
    case (Inl e)
    then show ?thesis using x Pair c
      by (auto simp: ensured_def resolveSpec_def intro!: tspec_ret outcome_stop build_failed [of ns name pl _ po] elim!: buildFailed_mono)
  next
    case (Inr prov)
    have res: "poolResolved cache ns (poolRead ns name pl po (evs @ evs')) name" for evs'
      by (rule ensured_resolved) (use x Pair Inr ty in auto)
    have "tspec s (resolvePools E ns names r2 cache1 s)
      (\<lambda>y evs'. resolveSpec E cache ns (name # names) y (poolRead ns name pl po (evs @ evs')))"
      by (rule tspec_mono [OF IH [OF r2]])
        (auto simp: resolveSpec_def intro!: resolveOutcome_later [OF _ c res] cacheFrom_mono [OF cacheFrom_trans [OF c]])
    then show ?thesis by (simp add: Pair Inr)
  qed
qed

lemma resolvePools_spec:
  "rs_problem r = None \<Longrightarrow> tspec s (resolvePools E ns names r cache s) (resolveSpec E cache ns names)"
proof (induction names arbitrary: r cache s)
  case Nil
  then show ?case by (simp add: tspec_def resolveSpec_def resolveOutcome_def)
next
  case (Cons name names)
  note step = resolve_step [OF Cons.IH]
  show ?case
    unfolding resolvePools.simps
    by (intro tspec_intros tspec_bind [OF ensureProvider_spec]; hypsubst?; (rule step)?;
        use Cons.prems in \<open>auto intro!: outcome_stop outcome_error intro: poolProblem.intros
          simp: resolveSpec_def [of _ _ _ _ "(_, _)"] providerType_def\<close>)
qed

lemma ensureProvider_calls: "emits (\<lambda>e. isRead e \<or> isBuild e) s (ensureProvider E cache ty po s)"
  unfolding emits_def
  by (rule tspec_mono [OF ensureProvider_spec]) (auto simp: ensured_def list_all_iff)

lemma resolvePools_calls: "emits (\<lambda>e. isRead e \<or> isBuild e) s (resolvePools E ns names r cache s)"
proof (induction names arbitrary: r cache s)
  case (Cons name names)
  show ?case unfolding resolvePools.simps Let_def
    by (rule emits_bind, rule emits_call, simp, intro emits_intros; (rule emits_bind [OF ensureProvider_calls])?)
      (auto split: prod.split sum.split intro: emits_intros Cons.IH ensureProvider_calls)
qed (simp add: emits_ret)

section \<open>The Ready condition\<close>

text \<open>What a status write of the reconcile says, given the control plane that was read first.\<close>

definition readyReport ::
  "'w env \<Rightarrow> 'w provider_cache \<Rightarrow> controlplane \<Rightarrow> ext_call list \<Rightarrow> controlplane_status \<Rightarrow> bool" where
  "readyReport E cache cp evs st \<longleftrightarrow> cps_observedGeneration st = om_generation (cp_meta cp) \<and>
     (\<exists>k. libFind E (cps_conditions st) ''Ready'' = Some k \<and> cond_generation k = om_generation (cp_meta cp) \<and>
       (if cond_status k = CTrue then list_all (poolResolved cache (om_namespace (cp_meta cp)) evs) (cp_pools cp)
        else cond_status k = CFalse \<and>
          list_ex (\<lambda>n. poolProblem E (om_namespace (cp_meta cp)) evs n (cond_reason k)) (cp_pools cp)))"

lemma cpStatus_report:
  assumes "env_ok E" and "resolveOutcome E cache (om_namespace (cp_meta cp)) (cp_pools cp) (Inr r) evs"
  shows "readyReport E cache cp evs (cpStatus E t cp r)"
proof -
  have "conditions_ok E" using assms(1) by blast
  then show ?thesis using assms(2)
    by (auto simp: readyReport_def cpStatus_def find_set resolveOutcome_def split: option.splits)
qed

lemma readyReport_mono: "readyReport E cache cp ys st \<Longrightarrow> set ys \<subseteq> set zs \<Longrightarrow> readyReport E cache cp zs st"
  unfolding readyReport_def
  by (auto simp: list_all_iff list_ex_iff intro: poolResolved_trans [OF cacheFrom_refl] poolProblem_mono
      split: if_splits)

definition cpRun :: "'w env \<Rightarrow> nskey \<Rightarrow> 'w provider_cache \<Rightarrow> ext_call list \<Rightarrow> bool" where
  "cpRun E key cache evs \<longleftrightarrow> (\<forall>e \<in> set evs. isRead e \<or> isBuild e \<or> (\<exists>cp' r. e = EStatusCP cp' r)) \<and>
     (\<forall>cp' r. EStatusCP cp' r \<in> set evs \<longrightarrow>
        (\<exists>cp rest. evs = EGetCP key (Inr cp) # rest \<and> readyReport E cache cp evs (cp_status cp')))"

lemma cpRun_reads: "list_all (\<lambda>e. isRead e \<or> isBuild e) evs \<Longrightarrow> cpRun E key cache evs"
  by (auto simp: cpRun_def list_all_iff)

lemma cpRun_written:
  assumes "list_all (\<lambda>e. isRead e \<or> isBuild e) evs" and "list_all (cpWrote cp1 ()) evs'"
    and "readyReport E cache cp evs (cp_status cp1)"
  shows "cpRun E key cache (EGetCP key (Inr cp) # evs @ evs')"
proof -
  have wrote: "isRead e \<or> (\<exists>cp' r. e = EStatusCP cp' r \<and> cp_status cp' = cp_status cp1)" if "e \<in> set evs'" for e
    using assms(2) that by (cases e) (auto simp: list_all_iff)
  have "readyReport E cache cp (EGetCP key (Inr cp) # evs @ evs') (cp_status cp1)"
    by (rule readyReport_mono [OF assms(3)]) auto
  then show ?thesis using assms(1) wrote unfolding cpRun_def list_all_iff by fastforce
qed

lemma cpRun_updated:
  assumes "env_ok E" and "resolveOutcome E cache (om_namespace (cp_meta cp)) (cp_pools cp) (Inr r) evs"
    and "list_all (\<lambda>e. isRead e \<or> isBuild e) evs"
    and "list_all (cpWrote (cp\<lparr>cp_status := cpStatus E t cp r\<rparr>) ()) evs'"
  shows "cpRun E key cache (EGetCP key (Inr cp) # evs @ evs')"
  by (rule cpRun_written [OF assms(3,4)]) (use cpStatus_report [OF assms(1,2)] in simp)

lemma updateCPStatus_tspec:
  "env_ok E \<Longrightarrow> tspec s (updateCPStatus E cp s) (\<lambda>_ evs. list_all (cpWrote cp ()) evs)"
  using cp_status.write_calls [of E cp "()" s] by (simp add: emits_def)

text \<open>
  C23. The Ready condition of a control plane is exact: a reconcile only reads and builds providers,
  but for writes of the control plane's own status; whatever it writes carries the generation that was
  read and a Ready condition, which is True only if every listed pool was found, refers to a provider
  that was found, with a type, and that the cache holds for the version read or that was built in
  this run; otherwise it is False with a reason that the answers of this run bear out for a listed pool.
\<close>

theorem control_plane_ready_exact:
  assumes "env_ok E"
  shows "\<exists>evs. trace (snd (reconcileCP E key cache s)) = trace s @ evs \<and> cpRun E key cache evs"
proof -
  have "tspec s (reconcileCP E key cache s) (\<lambda>_ evs. cpRun E key cache evs)"
    unfolding reconcileCP_def
  proof (rule tspec_bind_call, rule tspec_sum)
    fix x :: "goerr + controlplane" and s1 and cp :: controlplane
    let ?ns = "om_namespace (cp_meta cp)"
    let ?r0 = "\<lparr>rs_problem = None, rs_pools = [], rs_providers = []\<rparr>"
    assume x: "x = Inr cp"
    have res: "tspec s1 (resolvePools E ?ns (cp_pools cp) ?r0 cache s1) (\<lambda>y evs.
        resolveSpec E cache ?ns (cp_pools cp) y evs \<and> list_all (\<lambda>e. isRead e \<or> isBuild e) evs)"
      by (rule tspec_conj [OF resolvePools_spec resolvePools_calls [unfolded emits_def]]) simp
    show "tspec s1 (case resolvePools E ?ns (cp_pools cp) ?r0 cache s1 of
         ((Inl e, cache1), s2) \<Rightarrow> ((Some e, cache1), s2)
       | ((Inr r, cache1), s2) \<Rightarrow>
           (let cp1 = cp\<lparr>cp_status := cpStatus E (now E s2) cp r\<rparr> in
            if libEqCP E (cp_status cp) (cp_status cp1) then ((None, cache1), s2)
            else (case updateCPStatus E cp1 s2 of
              ((Some e, _), s3) \<Rightarrow> ((Some (wrapf ''update NodeSmithControlPlane status: '' e), cache1), s3)
            | ((None, _), s3) \<Rightarrow> ((None, cache1), s3)))) (\<lambda>_ evs. cpRun E key cache (EGetCP key x # evs))"
      by (rule tspec_bind [OF res]; rule tspec_pair; rule tspec_sum; (intro tspec_intros)?;
          (rule tspec_bind [OF updateCPStatus_tspec [OF assms]], rule tspec_pair, intro tspec_intros)?;
          use x in \<open>auto intro: cpRun_updated [OF assms] intro: cpRun_reads simp: resolveSpec_def\<close>)
  qed (intro tspec_intros; auto intro!: cpRun_reads)
  then show ?thesis by (simp add: tspec_def)
qed

definition sampleCP :: "string list \<Rightarrow> controlplane" where
  "sampleCP pools = \<lparr>cp_meta = sampleMeta ''cp'', cp_pools = pools,
     cp_status = \<lparr>cps_conditions = [], cps_observedGeneration = 0, cps_lastSyncTime = None\<rparr>\<rparr>"

definition cpWorld :: "string list \<Rightarrow> sample" where
  "cpWorld pools = (emptyWorld 100)\<lparr>sw_cps := [sampleCP pools], sw_pools := [samplePool], sw_providers := [sampleProviderObj]\<rparr>"

definition readyStatuses :: "sample st \<Rightarrow> (cond_status \<times> string) list" where
  "readyStatuses s = map (\<lambda>cp. case cps_conditions (cp_status cp) of k # _ \<Rightarrow> (cond_status k, cond_reason k) | [] \<Rightarrow> (CUnknown, []))
     (sw_cps (world s))"

theorem control_plane_ready_exact_witness:
  "readyStatuses (snd (reconcileCP sampleEnv (''ns'', ''cp'') Map.empty (startState (cpWorld [''pool''])))) = [(CTrue, ''PoolsResolved'')] \<and>
   readyStatuses (snd (reconcileCP sampleEnv (''ns'', ''cp'') Map.empty (startState (cpWorld [''pool'', ''gone''])))) = [(CFalse, ''PoolMissing'')] \<and>
   (\<exists>evs. trace (snd (reconcileCP sampleEnv (''ns'', ''cp'') Map.empty (startState (cpWorld [''pool''])))) = evs \<and>
     evs \<noteq> [] \<and> cpRun sampleEnv (''ns'', ''cp'') Map.empty evs)"
proof (intro conjI)
  show "readyStatuses (snd (reconcileCP sampleEnv (''ns'', ''cp'') Map.empty (startState (cpWorld [''pool''])))) = [(CTrue, ''PoolsResolved'')]"
    by code_simp
  show "readyStatuses (snd (reconcileCP sampleEnv (''ns'', ''cp'') Map.empty (startState (cpWorld [''pool'', ''gone''])))) = [(CFalse, ''PoolMissing'')]"
    by code_simp
  have "trace (snd (reconcileCP sampleEnv (''ns'', ''cp'') Map.empty (startState (cpWorld [''pool''])))) \<noteq> []" by code_simp
  then show "\<exists>evs. trace (snd (reconcileCP sampleEnv (''ns'', ''cp'') Map.empty (startState (cpWorld [''pool''])))) = evs \<and>
     evs \<noteq> [] \<and> cpRun sampleEnv (''ns'', ''cp'') Map.empty evs"
    using control_plane_ready_exact [OF sampleEnv_ok, of "(''ns'', ''cp'')" Map.empty "startState (cpWorld [''pool''])"]
    by (simp add: startState_def)
qed

section \<open>Watches\<close>

lemma containsName_set: "containsName xs x \<longleftrightarrow> x \<in> set xs"
  by (induction xs) auto

text \<open>The provider is one that a pool of the control plane refers to.\<close>

definition usesProvider :: "pool list \<Rightarrow> provider_obj \<Rightarrow> controlplane \<Rightarrow> bool" where
  "usesProvider pools po cp \<longleftrightarrow>
     (\<exists>pl \<in> set pools. ps_providerRef (pl_spec pl) = om_name (po_meta po) \<and> pl_name pl \<in> set (cp_pools cp))"

text \<open>
  C24. Watches reach every control plane concerned: a change of a pool wakes exactly the listed
  control planes that name it; a change of a provider wakes exactly those with a pool that refers to
  it, or all of them when there is none, each once; nothing but listings is called.
\<close>

theorem watches_reach:
  "(case listCPs E (om_namespace (pl_meta pl)) s of
      (Inl e, s1) \<Rightarrow> mapPoolToControllers E pl s = ([], s1)
    | (Inr cps, s1) \<Rightarrow> snd (mapPoolToControllers E pl s) = s1 \<and>
        set (fst (mapPoolToControllers E pl s)) = {metaKey (cp_meta cp) | cp. cp \<in> set cps \<and> pl_name pl \<in> set (cp_pools cp)}) \<and>
   (case listPools E (om_namespace (po_meta po)) s of
      (Inl e, s1) \<Rightarrow> mapProviderToControllers E po s = ([], s1)
    | (Inr pools, s1) \<Rightarrow> (case listCPs E (om_namespace (po_meta po)) s1 of
        (Inl e, s2) \<Rightarrow> mapProviderToControllers E po s = ([], s2)
      | (Inr cps, s2) \<Rightarrow> snd (mapProviderToControllers E po s) = s2 \<and> distinct (fst (mapProviderToControllers E po s)) \<and>
          set (fst (mapProviderToControllers E po s)) = {metaKey (cp_meta cp) | cp. cp \<in> set cps \<and>
            (usesProvider pools po cp \<or> (\<forall>cp' \<in> set cps. \<not> usesProvider pools po cp'))}))"
proof -
  have uses: "list_ex (containsName (cp_pools cp)) (remdups (map pl_name (filter (\<lambda>pl. ps_providerRef (pl_spec pl) = om_name (po_meta po)) pools)))
      \<longleftrightarrow> usesProvider pools po cp" for cp pools
    by (auto simp: usesProvider_def list_ex_iff containsName_set)
  show ?thesis
    unfolding mapPoolToControllers_def mapProviderToControllers_def Let_def uses
    by (auto simp: containsName_set filter_empty_conv split: prod.split sum.split)
qed

lemma sample_lists:
  "kListPools sampleEnv ns w = (Inr (filter (\<lambda>p. om_namespace (pl_meta p) = ns) (sw_pools w)), w)"
  "kListCPs sampleEnv ns w = (Inr (filter (\<lambda>p. om_namespace (cp_meta p) = ns) (sw_cps w)), w)"
  by (simp_all add: sampleEnv_def)

theorem watches_reach_witness:
  "fst (mapProviderToControllers sampleEnv sampleProviderObj (startState (cpWorld [''pool'']))) = [(''ns'', ''cp'')] \<and>
   distinct (fst (mapProviderToControllers sampleEnv sampleProviderObj (startState (cpWorld [''pool'']))))"
proof
  show "fst (mapProviderToControllers sampleEnv sampleProviderObj (startState (cpWorld [''pool'']))) = [(''ns'', ''cp'')]" by code_simp
  show "distinct (fst (mapProviderToControllers sampleEnv sampleProviderObj (startState (cpWorld [''pool'']))))"
    using watches_reach [of sampleEnv samplePool "startState (cpWorld [''pool''])" sampleProviderObj]
    by (simp add: call_def sample_lists)
qed

end
