(* ===== verification/Kube_Client.thy ===== *)
theory Kube_Client
  imports Kube
begin

text \<open>
  The rest of \<open>internal/kube/kube.go\<close>: the shared REST configuration behind
  \<open>GetClientset\<close>, the newest scheduling failure of a pod, and waiting for a node. The
  configuration loaders of client-go, the file system and the clientset constructors are the record
  \<open>kube_ext\<close> of functions over a world.
\<close>

section \<open>The shared REST configuration\<close>

record ('c, 'w) kube_ext =
  xFlag :: "string option"  \<comment> \<open>the value of the kubeconfig flag, when it is registered\<close>
  xStat :: "string \<Rightarrow> 'w \<Rightarrow> goerr option \<times> 'w"
  xFromFlags :: "string \<Rightarrow> 'w \<Rightarrow> (goerr + 'c) \<times> 'w"
  xInCluster :: "'w \<Rightarrow> (goerr + 'c) \<times> 'w"
  xDeferred :: "'w \<Rightarrow> (goerr + 'c) \<times> 'w"
  xClientset :: "'c option \<Rightarrow> goerr option"
  xDynamic :: "'c option \<Rightarrow> goerr option"

text \<open>The package variables: whether \<open>restOnce\<close> has run, the configuration and the error.\<close>

record 'c rest_vars =
  rv_done :: bool
  rv_config :: "'c option"
  rv_err :: "goerr option"

definition restStart :: "'c rest_vars" where
  "restStart = \<lparr>rv_done = False, rv_config = None, rv_err = None\<rparr>"

definition getKubeconfigPath :: "('c, 'w) kube_ext \<Rightarrow> string \<Rightarrow> string" where
  "getKubeconfigPath X kubeconfigPath = (case xFlag X of
     None \<Rightarrow> kubeconfigPath
   | Some f \<Rightarrow> (if trimSpace f \<noteq> [] then trimSpace f else kubeconfigPath))"

definition tryExplicitKubeconfig :: "('c, 'w) kube_ext \<Rightarrow> string \<Rightarrow> 'w \<Rightarrow> (goerr + 'c) \<times> 'w" where
  "tryExplicitKubeconfig X kubeconfigPath w =
     (let path = getKubeconfigPath X kubeconfigPath in
      if path = [] then (Inl (errorf ''kubeconfig path not set''), w)
      else (case xStat X path w of
        (Some e, w1) \<Rightarrow> (Inl e, w1)
      | (None, w1) \<Rightarrow> xFromFlags X path w1))"

definition restSources :: "('c, 'w) kube_ext \<Rightarrow> string \<Rightarrow> ('w \<Rightarrow> (goerr + 'c) \<times> 'w) list" where
  "restSources X kubeconfigPath = [tryExplicitKubeconfig X kubeconfigPath, xInCluster X, xDeferred X]"

fun loadLoop :: "('w \<Rightarrow> (goerr + 'c) \<times> 'w) list \<Rightarrow> 'c rest_vars \<Rightarrow> 'w \<Rightarrow> 'c rest_vars \<times> 'w" where
  "loadLoop [] v w = (v, w)"
| "loadLoop (src # srcs) v w = (case src w of
     (Inl e, w1) \<Rightarrow> loadLoop srcs (v\<lparr>rv_err := Some e\<rparr>) w1
   | (Inr cfg, w1) \<Rightarrow> (v\<lparr>rv_config := Some cfg, rv_err := None\<rparr>, w1))"

definition loadRESTConfig :: "('c, 'w) kube_ext \<Rightarrow> string \<Rightarrow> 'c rest_vars \<Rightarrow> 'w \<Rightarrow> 'c rest_vars \<times> 'w" where
  "loadRESTConfig X kubeconfigPath v w = loadLoop (restSources X kubeconfigPath) v w"

text \<open>A returned configuration may be the nil pointer, hence the option on the right.\<close>

definition getRESTConfig ::
  "('c, 'w) kube_ext \<Rightarrow> string \<Rightarrow> 'c rest_vars \<Rightarrow> 'w \<Rightarrow> (goerr + 'c option) \<times> 'c rest_vars \<times> 'w" where
  "getRESTConfig X kubeconfigPath v w =
     (case (if rv_done v then (v, w)
            else (case loadRESTConfig X kubeconfigPath v w of (v1, w1) \<Rightarrow> (v1\<lparr>rv_done := True\<rparr>, w1))) of
       (v2, w2) \<Rightarrow> (case rv_err v2 of Some e \<Rightarrow> (Inl e, v2, w2) | None \<Rightarrow> (Inr (rv_config v2), v2, w2)))"

definition getClientset ::
  "('c, 'w) kube_ext \<Rightarrow> string \<Rightarrow> 'c rest_vars \<Rightarrow> 'w \<Rightarrow> goerr option \<times> 'c rest_vars \<times> 'w" where
  "getClientset X kubeconfigPath v w = (case getRESTConfig X kubeconfigPath v w of
     (Inl e, v1, w1) \<Rightarrow> (Some e, v1, w1)
   | (Inr cfg, v1, w1) \<Rightarrow> (xClientset X cfg, v1, w1))"

definition getDynamicClient ::
  "('c, 'w) kube_ext \<Rightarrow> string \<Rightarrow> 'c rest_vars \<Rightarrow> 'w \<Rightarrow> goerr option \<times> 'c rest_vars \<times> 'w" where
  "getDynamicClient X kubeconfigPath v w = (case getRESTConfig X kubeconfigPath v w of
     (Inl e, v1, w1) \<Rightarrow> (Some e, v1, w1)
   | (Inr cfg, v1, w1) \<Rightarrow> (xDynamic X cfg, v1, w1))"

section \<open>The newest scheduling failure\<close>

record event =
  ev_reason :: string
  ev_message :: string
  ev_eventTime :: time
  ev_lastTimestamp :: time
  ev_firstTimestamp :: time

definition eventTime :: "event \<Rightarrow> time" where
  "eventTime e =
     (if \<not> timeIsZero (ev_eventTime e) then ev_eventTime e
      else if \<not> timeIsZero (ev_lastTimestamp e) then ev_lastTimestamp e
      else if \<not> timeIsZero (ev_firstTimestamp e) then ev_firstTimestamp e
      else zeroTime)"

fun newestFailure :: "event list \<Rightarrow> time \<Rightarrow> string \<Rightarrow> string" where
  "newestFailure [] newest msg = msg"
| "newestFailure (e # es) newest msg =
     (if ev_reason e \<noteq> ''FailedScheduling'' then newestFailure es newest msg
      else if newest < eventTime e then newestFailure es (eventTime e) (ev_message e)
      else newestFailure es newest msg)"

text \<open>The listing of the pod's warning events is the parameter.\<close>

definition lastFailedSchedulingEvent :: "('w \<Rightarrow> (goerr + event list) \<times> 'w) \<Rightarrow> 'w \<Rightarrow> (goerr + string) \<times> 'w" where
  "lastFailedSchedulingEvent listEvents w = (case listEvents w of
     (Inl e, w1) \<Rightarrow> (Inl e, w1)
   | (Inr items, w1) \<Rightarrow> (Inr (newestFailure items zeroTime []), w1))"

section \<open>Waiting for a node\<close>

text \<open>What the \<open>select\<close> delivers: the deadline of the context, or a tick of the ticker.\<close>

datatype wait_event = Expired | Tick

definition readyNow :: "node \<Rightarrow> bool" where
  "readyNow n = list_ex (\<lambda>k. nc_type k = ''Ready'' \<and> nc_status k = CTrue) (nd_conditions n)"

text \<open>\<open>None\<close>: still waiting when the deliveries are used up.\<close>

fun waitForNodeReady :: "'w env \<Rightarrow> string \<Rightarrow> wait_event list \<Rightarrow> 'w st \<Rightarrow> goerr option option \<times> 'w st" where
  "waitForNodeReady E name [] s = (None, s)"
| "waitForNodeReady E name (Expired # evs) s =
     (Some (Some (errorf (''timeout waiting for node '' @ name @ '' to be ready''))), s)"
| "waitForNodeReady E name (Tick # evs) s = (case csGetNodeC E name s of
     (Inl e, s1) \<Rightarrow> (if IsNotFound e then waitForNodeReady E name evs s1
       else (Some (Some (errorf (''error getting node '' @ name @ '': '' @ err_msg e))), s1))
   | (Inr n, s1) \<Rightarrow> (if readyNow n then (Some None, s1) else waitForNodeReady E name evs s1))"

section \<open>Properties\<close>

fun firstConfig :: "('w \<Rightarrow> (goerr + 'c) \<times> 'w) list \<Rightarrow> goerr \<Rightarrow> 'w \<Rightarrow> (goerr + 'c) \<times> 'w" where
  "firstConfig [] e w = (Inl e, w)"
| "firstConfig (src # srcs) e w = (case src w of (Inl e1, w1) \<Rightarrow> firstConfig srcs e1 w1 | (Inr cfg, w1) \<Rightarrow> (Inr cfg, w1))"

lemma loadLoop_first:
  "srcs \<noteq> [] \<or> rv_err v = Some e0 \<Longrightarrow> (case firstConfig srcs e0 w of
      (Inl e, w1) \<Rightarrow> loadLoop srcs v w = (v\<lparr>rv_err := Some e\<rparr>, w1)
    | (Inr cfg, w1) \<Rightarrow> loadLoop srcs v w = (v\<lparr>rv_config := Some cfg, rv_err := None\<rparr>, w1))"
proof (induction srcs arbitrary: v e0 w)
  case (Cons src srcs)
  obtain r w1 where s: "src w = (r, w1)" by fastforce
  show ?case
  proof (cases r)
    case (Inl e)
    then show ?thesis using Cons.IH [of "v\<lparr>rv_err := Some e\<rparr>" e w1] s by (simp split: sum.splits prod.splits)
  qed (simp add: s)
qed auto

text \<open>
  C39. One REST configuration per process: whatever the first call answered, every later call
  answers the same and touches nothing, an error included; the first answer is the configuration of
  the first source that had one, the sources after it are not asked, and it is an error, the last
  source's, only when all of them failed.
\<close>

theorem rest_config_once:
  "(case firstConfig (restSources X path) e0 w of
      (Inl e, w1) \<Rightarrow> fst (getRESTConfig X path restStart w) = Inl e \<and> snd (snd (getRESTConfig X path restStart w)) = w1
    | (Inr cfg, w1) \<Rightarrow> fst (getRESTConfig X path restStart w) = Inr (Some cfg) \<and> snd (snd (getRESTConfig X path restStart w)) = w1) \<and>
   (case getRESTConfig X path restStart w of (r, v, w1) \<Rightarrow> getRESTConfig X path v w2 = (r, v, w2))"
  using loadLoop_first [of "restSources X path" restStart e0 w]
  by (auto simp: getRESTConfig_def loadRESTConfig_def restSources_def restStart_def split: prod.splits sum.splits option.splits)

text \<open>The message is that of a newest dated scheduling failure, and empty when there is none.\<close>

definition datedFailures :: "time \<Rightarrow> event list \<Rightarrow> event list" where
  "datedFailures newest es = filter (\<lambda>e. ev_reason e = ''FailedScheduling'' \<and> newest < eventTime e) es"

lemma newestFailure_spec:
  "if datedFailures newest es = [] then newestFailure es newest msg = msg
   else \<exists>e \<in> set (datedFailures newest es). newestFailure es newest msg = ev_message e \<and>
     (\<forall>f \<in> set (datedFailures newest es). eventTime f \<le> eventTime e)"
proof (induction es arbitrary: newest msg)
  case (Cons e es)
  show ?case
  proof (cases "ev_reason e = ''FailedScheduling'' \<and> newest < eventTime e")
    case True
    have sub: "x \<in> set (datedFailures newest es) \<Longrightarrow> x \<in> set (datedFailures (eventTime e) es) \<or> eventTime x \<le> eventTime e" for x
      by (auto simp: datedFailures_def)
    have sup: "x \<in> set (datedFailures (eventTime e) es) \<Longrightarrow> eventTime e < eventTime x \<and> x \<in> set (datedFailures newest es)" for x
      using True by (auto simp: datedFailures_def)
    from True have d: "datedFailures newest (e # es) = e # datedFailures newest es" by (simp add: datedFailures_def)
    from True have n: "newestFailure (e # es) newest msg = newestFailure es (eventTime e) (ev_message e)" by simp
    show ?thesis
    proof (cases "datedFailures (eventTime e) es = []")
      case True
      with Cons.IH [of "eventTime e" "ev_message e"] sub show ?thesis unfolding d n by auto
    next
      case False
      with Cons.IH [of "eventTime e" "ev_message e"] obtain x where x: "x \<in> set (datedFailures (eventTime e) es)"
        "newestFailure es (eventTime e) (ev_message e) = ev_message x"
        "\<forall>f \<in> set (datedFailures (eventTime e) es). eventTime f \<le> eventTime x" by auto
      then show ?thesis unfolding d n using sub sup [OF x(1)] by fastforce
    qed
  next
    case False
    then have "datedFailures newest (e # es) = datedFailures newest es"
      "newestFailure (e # es) newest msg = newestFailure es newest msg" by (auto simp: datedFailures_def)
    with Cons.IH [of newest msg] show ?thesis by (simp only:)
  qed
qed (simp add: datedFailures_def)

text \<open>An answer on which the wait goes on.\<close>

definition notYet :: "goerr + node \<Rightarrow> bool" where
  "notYet r = (case r of Inl e \<Rightarrow> IsNotFound e | Inr n \<Rightarrow> \<not> readyNow n)"

text \<open>The answers \<open>rs\<close> that a wait got, and what it returned.\<close>

definition waitRun :: "wait_event list \<Rightarrow> goerr option option \<Rightarrow> (goerr + node) list \<Rightarrow> bool" where
  "waitRun evs out rs \<longleftrightarrow> length rs \<le> length (takeWhile (\<lambda>e. e = Tick) evs) \<and>
     (out = Some None \<longleftrightarrow> rs \<noteq> [] \<and> (\<exists>n. last rs = Inr n \<and> readyNow n)) \<and> list_all notYet (butlast rs)"

lemma waitRun_again: "notYet r \<Longrightarrow> waitRun evs out rs \<Longrightarrow> waitRun (Tick # evs) out (r # rs)"
  by (auto simp: waitRun_def notYet_def)

text \<open>
  C40. Waiting for a node ends: once the deadline is delivered \<open>WaitForNodeReady\<close> has returned;
  it only reads the node, at most once per tick; it returns success exactly when the last answer it
  got showed the node ready, and every earlier answer was a missing or unready node.
\<close>

theorem wait_for_node_ends:
  "(Expired \<in> set evs \<longrightarrow> fst (waitForNodeReady E name evs s) \<noteq> None) \<and>
   (\<exists>rs. trace (snd (waitForNodeReady E name evs s)) = trace s @ map (ECsGetNode name) rs \<and>
      waitRun evs (fst (waitForNodeReady E name evs s)) rs)"
proof (induction evs arbitrary: s)
  case (Cons ev evs)
  show ?case
  proof (cases ev)
    case Expired
    then show ?thesis by (auto simp: waitRun_def)
  next
    case Tick
    obtain r s1 where c: "csGetNodeC E name s = (r, s1)" by fastforce
    have t: "trace s1 = trace s @ [ECsGetNode name r]" by (rule call_trace [OF c])
    show ?thesis
    proof (cases "notYet r")
      case True
      then have w: "waitForNodeReady E name (Tick # evs) s = waitForNodeReady E name evs s1"
        by (auto simp: c notYet_def split: sum.splits)
      from Cons.IH [of s1] obtain rs where "trace (snd (waitForNodeReady E name evs s1)) = trace s1 @ map (ECsGetNode name) rs"
        "waitRun evs (fst (waitForNodeReady E name evs s1)) rs" by blast
      then have "trace (snd (waitForNodeReady E name evs s1)) = trace s @ map (ECsGetNode name) (r # rs) \<and>
        waitRun (Tick # evs) (fst (waitForNodeReady E name evs s1)) (r # rs)"
        using t waitRun_again [OF True] by simp
      moreover have "Expired \<in> set (Tick # evs) \<longrightarrow> fst (waitForNodeReady E name evs s1) \<noteq> None"
        using Cons.IH [of s1] by simp
      ultimately show ?thesis unfolding Tick w by blast
    next
      case False
      have "trace (snd (waitForNodeReady E name (ev # evs) s)) = trace s @ map (ECsGetNode name) [r] \<and>
        waitRun (ev # evs) (fst (waitForNodeReady E name (ev # evs) s)) [r] \<and> fst (waitForNodeReady E name (ev # evs) s) \<noteq> None"
        using False t by (cases r) (auto simp: Tick c notYet_def waitRun_def)
      then show ?thesis by blast
    qed
  qed
qed (auto simp: waitRun_def)

theorem wait_for_node_ends_witness:
  "fst (waitForNodeReady sampleEnv ''n1'' [Tick, Tick, Expired] (startState (emptyWorld 0))) \<noteq> None"
  using wait_for_node_ends [of "[Tick, Tick, Expired]" sampleEnv "''n1''" "startState (emptyWorld 0)"] by simp

end
