(* ===== verification/Kube_Print.thy ===== *)
theory Kube_Print
  imports Kube "HOL-Library.Sublist"
begin

text \<open>
  The rest of \<open>internal/kube/kube.go\<close>: the default path of the kubeconfig, set when the package is
  initialized, and the two listings that are printed for a reader, as the lines they print.
\<close>

section \<open>The default kubeconfig path\<close>

text \<open>\<open>path/filepath\<close> on Unix: \<open>Clean\<close> drops empty and dot elements and resolves the inner dot-dots.\<close>

fun splitPath :: "string \<Rightarrow> string \<Rightarrow> string list" where
  "splitPath acc [] = [rev acc]"
| "splitPath acc (c # cs) = (if c = CHR ''/'' then rev acc # splitPath [] cs else splitPath (c # acc) cs)"

fun joinPath :: "string list \<Rightarrow> string" where
  "joinPath [] = []"
| "joinPath [x] = x"
| "joinPath (x # xs) = x @ ''/'' @ joinPath xs"

text \<open>The elements kept so far, the last one first.\<close>

fun cleanElems :: "bool \<Rightarrow> string list \<Rightarrow> string list \<Rightarrow> string list" where
  "cleanElems rooted out [] = rev out"
| "cleanElems rooted out (x # xs) =
     (if x = [] \<or> x = ''.'' then cleanElems rooted out xs
      else if x = ''..'' then
        (case out of
           y # ys \<Rightarrow> (if y \<noteq> ''..'' then cleanElems rooted ys xs else cleanElems rooted (x # out) xs)
         | [] \<Rightarrow> (if rooted then cleanElems rooted [] xs else cleanElems rooted [x] xs))
      else cleanElems rooted (x # out) xs)"

definition cleanPath :: "string \<Rightarrow> string" where
  "cleanPath p = (if p = [] then ''.''
     else (let rooted = hd p = CHR ''/''; q = joinPath (cleanElems rooted [] (splitPath [] p)) in
       if rooted then CHR ''/'' # q else if q = [] then ''.'' else q))"

definition filepathJoin :: "string list \<Rightarrow> string" where
  "filepathJoin xs = (let ys = dropWhile (\<lambda>x. x = []) xs in if ys = [] then [] else cleanPath (joinPath ys))"

text \<open>
  \<open>init\<close>: the value of \<open>kubeconfigPath\<close>, and the flag it registers with that default, unless another
  package has registered it.
\<close>

definition kubeconfigFlag :: string where "kubeconfigFlag = ''kubeconfig''"

definition kubeInit :: "string \<Rightarrow> (string \<times> string) list \<Rightarrow> string \<times> (string \<times> string) list" where
  "kubeInit home registered =
     (let defaultPath = (if home \<noteq> [] then filepathJoin [home, ''.kube'', ''config''] else []) in
      (defaultPath, if map_of registered kubeconfigFlag = None then (kubeconfigFlag, defaultPath) # registered else registered))"

section \<open>Listings\<close>

text \<open>\<open>%-ns\<close>: padded on the right, never cut.\<close>

definition padRight :: "nat \<Rightarrow> string \<Rightarrow> string" where
  "padRight n s = s @ replicate (n - length s) CHR '' ''"

definition printedStatus :: "node \<Rightarrow> string" where
  "printedStatus n = (if list_ex (\<lambda>k. nc_type k = ''Ready'' \<and> nc_status k \<noteq> CTrue) (nd_conditions n) then ''NotReady'' else ''Ready'')"

definition printNodes :: "node list \<Rightarrow> string list" where
  "printNodes nodes = (''Total Candidate Nodes: '' @ fmtD (int (length nodes))) # ''Nodes:'' #
     map (\<lambda>n. ''  - '' @ nd_name n @ '' ('' @ printedStatus n @ '')'') nodes"

fun phaseString :: "pod_phase \<Rightarrow> string" where
  "phaseString PodPending = ''Pending''"
| "phaseString PodRunning = ''Running''"
| "phaseString PodSucceeded = ''Succeeded''"
| "phaseString PodFailed = ''Failed''"
| "phaseString PodUnknown = ''Unknown''"

fun unscheduledReason :: "pod_condition list \<Rightarrow> string" where
  "unscheduledReason [] = []"
| "unscheduledReason (c # cs) = (if pc_type c = ''PodScheduled'' \<and> pc_status c = CFalse then pc_reason c else unscheduledReason cs)"

definition printPods :: "pod list \<Rightarrow> string list" where
  "printPods pods = (''Found '' @ fmtD (int (length pods)) @ '' pods:'') #
     map (\<lambda>p. ''  '' @ padRight 40 (om_name (pd_meta p)) @ ''  ns='' @ padRight 15 (om_namespace (pd_meta p)) @
       ''  node='' @ padRight 20 (if pd_nodeName p = [] then ''<unassigned>'' else pd_nodeName p) @
       ''  phase='' @ padRight 10 (phaseString (pd_phase p)) @ ''  reason='' @ unscheduledReason (pd_conditions p)) pods"

section \<open>Facts\<close>

lemma padRight_length: "length (padRight n s) = max n (length s)" and padRight_prefix: "prefix s (padRight n s)"
  by (simp_all add: padRight_def)

lemma splitPath_append: "splitPath acc (xs @ CHR ''/'' # ys) = splitPath acc xs @ splitPath [] ys"
  by (induction acc xs rule: splitPath.induct) simp_all

lemma cleanElems_append: "\<exists>out'. cleanElems rooted out (xs @ ys) = cleanElems rooted out' ys"
  by (induction rooted out xs rule: cleanElems.induct) (auto split: list.split)

lemma joinPath_snoc: "xs \<noteq> [] \<Longrightarrow> joinPath (xs @ ys) = (if ys = [] then joinPath xs else joinPath xs @ ''/'' @ joinPath ys)"
proof (induction xs rule: joinPath.induct)
  case (2 x)
  then show ?case by (cases ys) simp_all
qed simp_all

text \<open>Wherever the home directory is, the default is a \<open>.kube/config\<close>; a given flag keeps its value.\<close>

lemma kubeInit_path:
  assumes "home \<noteq> []"
  shows "suffix ''.kube/config'' (fst (kubeInit home registered))"
proof -
  define p where "p = home @ CHR ''/'' # ''.kube/config''"
  define rooted where "rooted = (hd p = CHR ''/'')"
  have "splitPath [] p = splitPath [] home @ [''.kube'', ''config'']" by (simp add: p_def splitPath_append)
  then obtain out where out: "cleanElems rooted [] (splitPath [] p) = rev out @ [''.kube'', ''config'']"
    using cleanElems_append [of rooted "[]" "splitPath [] home" "[''.kube'', ''config'']"] by auto
  define q where "q = joinPath (rev out @ [''.kube'', ''config''])"
  have q: "suffix ''.kube/config'' q" "q \<noteq> []"
    unfolding q_def using joinPath_snoc [of "rev out" "[''.kube'', ''config'']"] by (cases out; simp add: suffix_def)+
  have "p \<noteq> []" by (simp add: p_def)
  then have "cleanPath p = (if rooted then CHR ''/'' # q else q)"
    using out q(2) by (cases rooted) (simp_all add: cleanPath_def Let_def rooted_def [symmetric] q_def)
  then have "suffix ''.kube/config'' (cleanPath p)" using q(1) by (auto intro: suffix_ConsI)
  then show ?thesis using assms by (simp add: kubeInit_def filepathJoin_def p_def Let_def)
qed

lemma kubeInit_flag: "v = map_of registered kubeconfigFlag \<Longrightarrow> v \<noteq> None \<Longrightarrow> map_of (snd (kubeInit home registered)) kubeconfigFlag = v"
  by (simp add: kubeInit_def Let_def)

end
