(* ===== verification/Spec2Isabelle.thy ===== *)
theory Spec2Isabelle
  imports Created_Claims Claim_Memory Manager_Setup Capacity_Limits Proxmox_Safety Control_Plane_Safety Kube_Client Kube_Print
begin

text \<open>
  Verification of KubeNodeSmith, a Kubernetes node autoscaler written in Go. Three reconcilers work on
  custom resources: the pool controller watches unschedulable pods and creates a
  \<open>NodeSmithClaim\<close> per node it wants, or deletes the claim of an idle node; the claim controller
  takes a claim through launch, registration, initialization, recycling and finalization, calling a
  machine provider; the control plane controller resolves the pools and providers that a
  \<open>NodeSmithControlPlane\<close> names. The one provider in the tree drives Proxmox VE. The reconcilers
  share no memory: they meet in the API server, by labels, names and the status of the claims. Within
  one process, objects live in memory, and a status is copied by a generated \<open>DeepCopy\<close> before it is
  changed and compared.

  How the code is translated. A Go struct is a record with the source's fields; \<open>int64\<close> is
  \<open>int\<close> with the wrap-around written where the code computes (\<open>add64\<close>, \<open>mul64\<close>), the
  Proxmox provider's \<open>uint64\<close> and bytes are words; a pointer is an option; a Go map is an
  association list, and a result that could depend on the iteration order is proved not to; an error
  is a value with its message and API class; a panic is a value (\<open>Panic\<close>). Every handler is one
  function over a state that holds the world, the log of external calls with their answers, and the
  cached lease holder id. What the repository calls but does not contain is a parameter: the record
  \<open>env\<close> of \<open>Externals\<close> (API server client, clientset, apimachinery helpers, clock, uuid), the
  record \<open>pxapi\<close> of \<open>Proxmox\<close> (go-proxmox, \<open>math/rand\<close>), the record \<open>kube_ext\<close> of
  \<open>Kube_Client\<close> (client-go's loaders). Nothing is assumed about the answers of servers, so a
  theorem holds under every failure, delay and interleaving with other writers.

  The theories.
  \<^item> \<open>KNS_Prelude\<close>, \<open>Api_Types\<close>, \<open>Externals\<close>: arithmetic, strings, errors and maps of Go;
    \<open>api/v1alpha1\<close> and \<open>internal/provider/provider.go\<close>; the boundary, the call log and the
    rules for reasoning about it (\<open>tspec\<close>, \<open>emits\<close>).
  \<^item> \<open>Go_Heap\<close>, \<open>Deep_Copy\<close>, \<open>Deep_Copy_Safety\<close>: \<open>api/v1alpha1/zz_generated.deepcopy.go\<close> on structs that
    hold addresses. The contract of a copy is the locale \<open>copier\<close>, that of a copy that shares nothing
    \<open>deep_copier\<close>; copiers are built along the Go types, by pointers, lists, pairs and records. All
    generated copies are deep but for the status of a claim, whose lease the copy shares.
  \<^item> \<open>Sample_World\<close>: an in-memory API server, on which every theorem with a hypothesis is applied
    to concrete data; it satisfies \<open>env_ok\<close>.
  \<^item> \<open>Kube\<close>, \<open>Kube_Client\<close>, \<open>Kube_Print\<close>: \<open>internal/kube/kube.go\<close>. What counts as unschedulable, evictable
    or idle; the usage of a pool; the REST configuration, loaded once; waiting for a node; the default
    path of the configuration and the printed listings.
  \<^item> \<open>Pool_Matching\<close>, \<open>Go_Float\<close>, \<open>Capacity\<close>, \<open>Capacity_Limits\<close>, \<open>Pool_Controller\<close>,
    \<open>Pool_Safety\<close>: \<open>internal/controller/nodepool_controller.go\<close> and \<open>claims.go\<close>. Which pods
    a pool scales up for, against a declarative selector semantics; the first-fit plan, as an instance
    of the locale \<open>first_fit\<close>; the limits; the whole reconcile with scale-down, scale-up, claim
    creation and finalization, and what it may create and delete.
  \<^item> \<open>Status_Update\<close>: the read-modify-write of a status that the three reconcilers share, with its
    contract, the locale \<open>status_writer\<close>, interpreted for claims, pools and control planes.
  \<^item> \<open>Claim_Lease\<close>, \<open>Claim_Controller\<close>, \<open>Claim_Safety\<close>: \<open>nodeclaim_controller.go\<close>. The lease
    with its heartbeat, the phases, and what a reconcile may do (launch guards, order of deletion, balance of
    heartbeats, panics, what becomes of a claim that was given up).
  \<^item> \<open>Claim_Lifecycle\<close>: the status writes of a reconcile. \<open>life_step\<close> lists the status changes of the
    lifecycle, each with what the reconcile must have been told before; \<open>reconcileClaim_staged\<close> shows, for any
    server and provider, that every status write is such a change, and that the writes come in the order of
    the stages launch, registration, initialization.
  \<^item> \<open>Claim_History\<close>, \<open>Claim_Runs\<close>: the reconciles of a claim, one after the other. The locale
    \<open>life_invariant\<close> lifts what every change keeps to all statuses that are ever read or written, under a
    server that may answer any former status; it is interpreted for the launch counter and for the conditions.
    A stale first read, which passes the guard on the machine id, makes a reconcile fail a launched claim.
  \<^item> \<open>Claim_Memory\<close>: the status updates of the claim controller in memory, refining those of
    \<open>Status_Update\<close>. The heartbeat writes through the lease that the copy shares, so it compares a status
    with itself and never writes.
  \<^item> \<open>Created_Claims\<close>: the pool controller and the claim controller together: what a scale-up creates is
    admitted by the schema and starts the life of a claim.
  \<^item> \<open>Manager_Setup\<close>: \<open>cmd/main.go\<close>, the \<open>SetupWithManager\<close> of the reconcilers and the registration of
    the API types: flags, options, controllers, and the start with its error exits.
  \<^item> \<open>Provider_Contract\<close>, \<open>Proxmox\<close>, \<open>Proxmox_Safety\<close>: the contract of a provider that the
    claim controller relies on, the locale \<open>machine_provider\<close>; \<open>internal/provider/proxmox/proxmox.go\<close>
    operation by operation; fresh VM ids, MAC addresses, what is created, reused, stopped and deleted.
    The Proxmox provider is an interpretation of the contract.
  \<^item> \<open>Control_Plane\<close>, \<open>Control_Plane_Safety\<close>: \<open>controlplane_controller.go\<close> with its provider
    cache; what a Ready condition says, and whom the watches wake.
  \<^item> this theory: what spans components. The labels put on a node and those the pool controller
    matches; the claim controller wired to the Proxmox provider, as \<open>cmd/main.go\<close> wires them.

  Hypotheses. \<open>env_ok\<close> is the documented behaviour of apimachinery's condition helpers,
  controller-runtime's finalizer helpers, \<open>DeepEqual\<close> and \<open>RetryOnConflict\<close>; \<open>rand_ok\<close> says
  that the random functions stay in their range and that a shuffle permutes; \<open>served\<close>, only for the
  histories of a claim, says that a status the server answers is, but for the lease, one that the claim had at the start
  or that a reconcile of the history wrote, however old and whether or not that write was acknowledged, so the cached client
  of the manager may lag behind; \<open>named\<close> that machines have an id and listed nodes a name;
  \<open>copylib_ok\<close> says that the deep copies of \<open>ObjectMeta\<close>, \<open>ListMeta\<close>, \<open>JSON\<close> and \<open>RawExtension\<close> are deep
  and those of \<open>Condition\<close> and \<open>Time\<close> the identity, and \<open>ownStatus\<close> that an object's metadata and spec do not
  reach into its status. Each is shown to hold of a concrete instance.

  Bounds. There is no fuel: every loop of the code runs over a list or a range. The wait for a node and
  the heartbeat loop run over the deliveries of their \<open>select\<close>; that they end is stated of the
  deadline's or the cancellation's delivery. The search for a VM id runs over the range, whose
  bounds the schema keeps between 100 and 999999999.

  Not modelled. Log lines and other console output; parsing of the command
  line; what controller-runtime does once the manager runs, its cache included; TypeMeta and JSON names. A
  provider answers a launch with a machine or an error: the pair of two \<open>nil\<close>, which the Go interface also
  admits and the Proxmox provider never returns, has no value here. Outside \<open>Claim_Memory\<close> objects are values. \<open>TrimSpace\<close> and \<open>ToLower\<close> are those of ASCII.
  Concurrent workers are seen through the answers of the world; two modelled reconcilers are not interleaved as
  explicit steps.
\<close>

section \<open>The labels of a registered node\<close>

lemma putIfNot_map:
  assumes "v \<noteq> []"
  shows "map_of (fst (putIfNot k v acc)) = (map_of (fst acc))(k \<mapsto> v)"
proof (cases acc)
  case (Pair labels ch)
  then show ?thesis using assms
    by (auto simp: putIfNot_def mapGet_def fun_eq_iff split: option.splits)
qed

lemma putTemplate_map:
  "distinct (map fst kvs) \<Longrightarrow> map_of (fst (putTemplate kvs acc)) = map_of (fst acc) ++ map_of kvs"
proof (induction kvs arbitrary: acc)
  case (Cons kv kvs)
  obtain k v labels ch where kv: "kv = (k, v)" "acc = (labels, ch)" by (cases kv; cases acc)
  from Cons.prems kv have "map_of kvs k = None" by (simp add: map_of_eq_None_iff)
  with Cons kv show ?case by (auto simp: fun_eq_iff map_add_def split: option.splits)
qed (cases acc; simp)

lemma putIfNot_unchanged: "\<not> snd (putIfNot k v acc) \<Longrightarrow> fst (putIfNot k v acc) = fst acc \<and> \<not> snd acc"
  by (cases acc) (auto simp: putIfNot_def split: if_splits)

lemma putTemplate_unchanged: "\<not> snd (putTemplate kvs acc) \<Longrightarrow> fst (putTemplate kvs acc) = fst acc \<and> \<not> snd acc"
  by (induction kvs acc rule: putTemplate.induct) (auto split: if_splits)

text \<open>
  C21. A registered node gets the labels that the pool controller matches pods against: for a pool
  whose label key is not blank and not the claim label's, the labels that \<open>ensureNodeLabels\<close>
  wants on the node include all of \<open>buildPoolLabelSet\<close>, and the claim's name under the claim
  label unless the template sets it; every other label of the node is kept; and when no patch is
  needed the node has these labels already.
\<close>

theorem registered_node_labels:
  assumes "pl_name pl \<noteq> []" and "cl_name c \<noteq> []" and "distinct (map fst (ps_templateLabels (pl_spec pl)))"
    and "trimSpace (ps_poolLabelKey (pl_spec pl)) \<noteq> []" and "ps_poolLabelKey (pl_spec pl) \<noteq> nodeclaimLabel"
    and "desiredLabels n pl c = (labels, changed)"
  shows "map_of (buildPoolLabelSet pl) \<subseteq>\<^sub>m map_of labels \<and>
    (nodeclaimLabel \<notin> dom (map_of (ps_templateLabels (pl_spec pl))) \<longrightarrow> map_of labels nodeclaimLabel = Some (cl_name c)) \<and>
    (\<forall>k. k \<noteq> nodeclaimLabel \<longrightarrow> map_of (buildPoolLabelSet pl) k = None \<longrightarrow> map_of labels k = map_of (om_labels (nd_meta n)) k) \<and>
    (\<not> changed \<longrightarrow> labels = om_labels (nd_meta n))"
proof -
  let ?key = "ps_poolLabelKey (pl_spec pl)" and ?T = "map_of (ps_templateLabels (pl_spec pl))"
  have key: "poolLabelKeyOrDefault pl = ?key" "?key \<noteq> []"
    using assms(4) by (auto simp: poolLabelKeyOrDefault_def trimSpace_def)
  have L: "map_of labels = ((map_of (om_labels (nd_meta n)))(?key \<mapsto> pl_name pl, nodeclaimLabel \<mapsto> cl_name c)) ++ ?T"
    using assms(6) putTemplate_map [OF assms(3), of "putIfNot nodeclaimLabel (cl_name c)
      (putIfNot ?key (pl_name pl) (om_labels (nd_meta n), False))"]
    by (simp add: desiredLabels_def key putIfNot_map [OF assms(1)] putIfNot_map [OF assms(2)])
  have B: "map_of (buildPoolLabelSet pl) = [?key \<mapsto> pl_name pl] ++ ?T"
    using map_of_buildPoolLabelSet [OF assms(3)] key(2) by (simp add: poolLabels_def)
  have "map_of (buildPoolLabelSet pl) \<subseteq>\<^sub>m map_of labels"
    unfolding map_le_def B L using assms(5) by (auto simp: map_add_def split: option.splits if_splits)
  moreover have "labels = om_labels (nd_meta n)" if "\<not> changed"
    using that assms(6) unfolding desiredLabels_def key
    by (metis fst_conv snd_conv putTemplate_unchanged putIfNot_unchanged)
  ultimately show ?thesis unfolding B L
    by (auto simp: map_add_def split: option.splits if_splits)
qed

theorem registered_node_labels_witness:
  "map_of (buildPoolLabelSet samplePool) \<subseteq>\<^sub>m map_of (fst (desiredLabels (sampleNode ''n'') samplePool (sampleClaim ''n''))) \<and>
   map_of (fst (desiredLabels (sampleNode ''n'') samplePool (sampleClaim ''n''))) nodeclaimLabel = Some ''n''"
proof -
  have "trimSpace (ps_poolLabelKey (pl_spec samplePool)) \<noteq> []" by code_simp
  moreover have "ps_poolLabelKey (pl_spec samplePool) \<noteq> nodeclaimLabel" by code_simp
  moreover have "map_of (ps_templateLabels (pl_spec samplePool)) nodeclaimLabel = None" by code_simp
  ultimately show ?thesis
    using registered_node_labels [of samplePool "sampleClaim ''n''" "sampleNode ''n''"
        "fst (desiredLabels (sampleNode ''n'') samplePool (sampleClaim ''n''))"
        "snd (desiredLabels (sampleNode ''n'') samplePool (sampleClaim ''n''))"]
    by (simp add: samplePool_def sampleClaim_def sampleMeta_def dom_def)
qed

section \<open>The controller over the Proxmox provider\<close>

text \<open>The factory table of \<open>cmd/main.go\<close>.\<close>

definition mainFactories :: "'v pxenv \<Rightarrow> (string \<times> 'v px provider_builder) list" where
  "mainFactories P = [(''proxmox'', \<lambda>po. newProvider P (Some po))]"

text \<open>
  The manager as \<open>cmd/main.go\<close> puts it together; the requests for the pool and the provider
  resource make no call to Proxmox.
\<close>

definition proxmoxWired :: "'v pxenv \<Rightarrow> 'v px env \<Rightarrow> bool" where
  "proxmoxWired P E \<longleftrightarrow> providerFactories E = mainFactories P \<and>
     (\<forall>k w. pxLog (snd (kGetPool E k w)) = pxLog w) \<and> (\<forall>k w. pxLog (snd (kGetProviderObj E k w)) = pxLog w)"

lemma newProvider_quiet:
  "newProvider P po w = (r, w1) \<Longrightarrow> pxLog w1 = pxLog w \<and> (\<forall>prov. r = Inr prov \<longrightarrow> (\<exists>A opts. prov = proxmoxProvider A opts))"
proof -
  have "pspec w (newProvider P po w) (\<lambda>r evs. evs = [] \<and> (\<forall>prov. r = Inr prov \<longrightarrow> (\<exists>A opts. prov = proxmoxProvider A opts)))"
  proof -
    have l: "pspec s (loadCredentials P dns ref s) (\<lambda>r evs. evs = [])" for dns ref and s
      unfolding loadCredentials_def by (intro pspec_intros) simp_all
    show ?thesis unfolding newProvider_def Let_def by (intro pspec_intros pspec_bind [OF l]) auto
  qed
  then show "newProvider P po w = (r, w1) \<Longrightarrow> ?thesis" by (simp add: pspec_def)
qed

lemma call_keeps:
  assumes "call f ev s = (r, s1)" and "\<And>w. pxLog (snd (f w)) = pxLog w"
  shows "pxLog (world s1) = pxLog (world s)"
  using assms(1) assms(2) [of "world s"] by (auto simp: call_def split: prod.splits)

lemma getProviderForClaim_px:
  assumes "proxmoxWired P E" and "getProviderForClaim E c s = (r, s1)"
  shows "pxLog (world s1) = pxLog (world s) \<and> (\<forall>prov. r = Inr prov \<longrightarrow> (\<exists>A opts. prov = proxmoxProvider A opts))"
proof -
  have F: "providerFactories E = mainFactories P"
    and G: "\<And>k w. pxLog (snd (kGetPool E k w)) = pxLog w" "\<And>k w. pxLog (snd (kGetProviderObj E k w)) = pxLog w"
    using assms(1) unfolding proxmoxWired_def by blast+
  have b: "pxLog (world sb) = pxLog (world sa) \<and> (\<forall>prov. x = Inr prov \<longrightarrow> (\<exists>A opts. prov = proxmoxProvider A opts))"
    if "map_of (providerFactories E) ty = Some builder" "buildProvider builder ty po sa = (x, sb)" for ty builder po sa x sb
    using that F newProvider_quiet [of P "Some po" "world sa"]
    by (auto simp: mainFactories_def buildProvider_def call_def split: if_splits prod.splits)
  show ?thesis using assms(2)
    by (auto simp: getProviderForClaim_def Let_def split: prod.splits sum.splits if_splits option.splits
        dest!: call_keeps [OF _ G(1)] call_keeps [OF _ G(2)] b)
qed

text \<open>
  What a run adds to the Proxmox log are listings, and after them nothing or the removal, stop before
  delete, of the first listed machine of the name \<open>name\<close>: each stop and delete is of that machine.
\<close>

fun actsOn :: "px_vm \<Rightarrow> px_call \<Rightarrow> bool" where
  "actsOn v (PStop u r) = (u = v)"
| "actsOn v (PDelete u r) = (u = v)"
| "actsOn v (PWait task r) = True"
| "actsOn v _ = False"

definition removesOnly :: "string \<Rightarrow> 'v px st \<Rightarrow> 'v px st \<Rightarrow> bool" where
  "removesOnly name s s1 \<longleftrightarrow> (\<exists>looks acts. pxLog (world s1) = pxLog (world s) @ looks @ acts \<and> list_all isLookup looks \<and>
     (acts \<noteq> [] \<longrightarrow> (\<exists>v. find (\<lambda>v. vm_name v = name) (listedVMs looks) = Some v \<and> vm_name v = name \<and>
        list_all (actsOn v) acts \<and> removalRun v acts)))"

lemma removalRun_actsOn: "removalRun v acts \<Longrightarrow> list_all (actsOn v) acts"
  by (auto simp: removalRun_def)

lemma removesOnly_refl: "pxLog (world s1) = pxLog (world s) \<Longrightarrow> removesOnly name s s1"
  unfolding removesOnly_def by (intro exI [of _ "[]"]) simp

lemma logOnly_world: "logOnly ev s = (u, s1) \<Longrightarrow> world s1 = world s"
  by (auto simp: call_def)

lemma deprovisionMachine_px:
  assumes "deprovisionMachine (proxmoxProvider A opts) m s = (r, s1)"
  shows "removesOnly (mc_kubeNodeName m) s s1"
proof -
  have "snd (deprovisionMachinePx A opts m (world s)) = world s1"
    using assms by (auto simp: call_def proxmoxProvider_def split: prod.splits)
  with deprovision_spec [of "world s" A opts m] obtain looks acts where
    log: "pxLog (world s1) = pxLog (world s) @ looks @ acts" "list_all isLookup looks"
    "deprovisionRun opts (mc_kubeNodeName m) looks (fst (deprovisionMachinePx A opts m (world s))) acts"
    by (auto simp: pspec_def)
  have "\<exists>v. find (\<lambda>v. vm_name v = mc_kubeNodeName m) (listedVMs looks) = Some v \<and> removalRun v acts" if "acts \<noteq> []"
    using log(3) that by (auto simp: deprovisionRun_def split: option.splits if_splits)
  then have "acts \<noteq> [] \<longrightarrow> (\<exists>v. find (\<lambda>v. vm_name v = mc_kubeNodeName m) (listedVMs looks) = Some v \<and>
      vm_name v = mc_kubeNodeName m \<and> list_all (actsOn v) acts \<and> removalRun v acts)"
    using removalRun_actsOn find_Some_set by fast
  with log(1,2) show ?thesis unfolding removesOnly_def by blast
qed

lemma removesOnly_world:
  "removesOnly n s1 s2 \<Longrightarrow> pxLog (world s1) = pxLog (world s) \<Longrightarrow> world s' = world s2 \<Longrightarrow> removesOnly n s s'"
  by (simp add: removesOnly_def)

lemma removal_paths:
  assumes "proxmoxWired P E"
  shows "removesOnly (st_nodeName (cl_status c)) s (snd (timeoutDeprovision E c s))"
    and "removesOnly (st_nodeName (cl_status c)) s (snd (finalizeDeprovision E c s))"
    and "removesOnly (st_nodeName (cl_status c)) s (snd (recycleDeprovision E c s))"
proof -
  obtain r s1 where g: "getProviderForClaim E c s = (r, s1)" by fastforce
  note G = getProviderForClaim_px [OF assms g]
  have ev: "world (snd (recordEvent o1 ty re m s')) = world s'" for o1 ty re m s' by (simp add: call_def)
  have quiet: "removesOnly n s s'" if "world s' = world s1" for n s' using G that by (intro removesOnly_refl) simp
  have D: "removesOnly (st_nodeName (cl_status c)) s s'"
    if "r = Inr prov" "deprovisionMachine prov (machineOf c) s1 = (x, s2)" "world s' = world s2" for prov x s2 s'
    using G that deprovisionMachine_px [of _ _ "machineOf c" s1 x s2] removesOnly_world [of "st_nodeName (cl_status c)" s1 s2 s s']
    by (auto simp: machineOf_def)
  show "removesOnly (st_nodeName (cl_status c)) s (snd (timeoutDeprovision E c s))"
    using g by (auto simp: timeoutDeprovision_def ev intro: quiet D split: sum.split prod.split option.split)
  show "removesOnly (st_nodeName (cl_status c)) s (snd (finalizeDeprovision E c s))"
    using g by (auto simp: finalizeDeprovision_def ev intro: quiet D removesOnly_refl split: sum.split prod.split option.split)
  show "removesOnly (st_nodeName (cl_status c)) s (snd (recycleDeprovision E c s))"
    using g by (auto simp: recycleDeprovision_def ev intro: quiet D removesOnly_refl split: sum.split prod.split option.split)
qed

text \<open>
  C19. The controller removes only the machine that a claim's status names: whichever way the claim controller
  comes to deprovision a claim's machine (registration timeout, deletion, recycling), the calls that
  reach Proxmox are listings, and then either nothing or the removal of one virtual machine, the first
  listed one whose name is the node name in the claim's status: every stop and every delete is of that machine.
\<close>

theorem controller_removes_only_named:
  assumes "proxmoxWired P E"
  shows "removesOnly (st_nodeName (cl_status c)) s (snd (timeoutDeprovision E c s)) \<and>
    removesOnly (st_nodeName (cl_status c)) s (snd (finalizeDeprovision E c s)) \<and>
    removesOnly (st_nodeName (cl_status c)) s (snd (recycleDeprovision E c s))"
  using removal_paths [OF assms] by blast

lemma listedVMs_append: "listedVMs (xs @ ys) = listedVMs xs @ listedVMs ys"
  by (simp add: listedVMs_def)

lemma removesOnly_unnamed:
  "removesOnly [] s s1 \<Longrightarrow> \<exists>evs. pxLog (world s1) = pxLog (world s) @ evs \<and>
     ((\<forall>v \<in> set (listedVMs evs). vm_name v \<noteq> []) \<longrightarrow> list_all isLookup evs)"
  unfolding removesOnly_def by (elim exE, intro exI conjI, blast) (auto simp: listedVMs_append dest: find_Some_set)

text \<open>
  C20. A machine that never registered is left behind: after a registration timeout, and when a claim
  is deleted before its node registered, the status has no node name yet; the deprovisioning then
  asks Proxmox for the machine with the empty name, so as long as no listed machine has an empty
  name nothing is stopped or deleted, and the machine that was launched stays.
\<close>

theorem unregistered_machine_stays:
  assumes "proxmoxWired P E" and "st_nodeName (cl_status c) = []"
  shows "(\<exists>evs. pxLog (world (snd (timeoutDeprovision E c s))) = pxLog (world s) @ evs \<and>
      ((\<forall>v \<in> set (listedVMs evs). vm_name v \<noteq> []) \<longrightarrow> list_all isLookup evs)) \<and>
    (\<exists>evs. pxLog (world (snd (finalizeDeprovision E c s))) = pxLog (world s) @ evs \<and>
      ((\<forall>v \<in> set (listedVMs evs). vm_name v \<noteq> []) \<longrightarrow> list_all isLookup evs))"
  using removal_paths(1,2) [OF assms(1), of c s] unfolding assms(2) by (intro conjI removesOnly_unnamed)

definition pxProviderObj :: provider_obj where
  "pxProviderObj = \<lparr>po_meta = sampleMeta ''px'', po_spec = sampleSpec, po_status = \<lparr>pvs_conditions = [], pvs_observedGeneration = 0\<rparr>\<rparr>"

definition wiredEnv :: "unit px env" where
  "wiredEnv = \<lparr>
     libFind = findCond, libSet = setCond, libRemove = removeCond,
     libContainsFinalizer = (\<lambda>m f. List.member (om_finalizers m) f),
     libAddFinalizer = (\<lambda>m f. m\<lparr>om_finalizers := List.insert f (om_finalizers m)\<rparr>),
     libRemoveFinalizer = (\<lambda>m f. m\<lparr>om_finalizers := removeAll f (om_finalizers m)\<rparr>),
     libSetControllerRef = (\<lambda>p c. Inr c),
     libEqClaim = (=), libEqPool = (=), libEqCP = (=),
     retryClaim = (\<lambda>f s. f s), retryPool = (\<lambda>f s. f s), retryCP = (\<lambda>f s. f s),
     clock = (\<lambda>w. 100), newUUID = (\<lambda>w. ''uuid''), newClientset = None, osPodName = ''manager-0'', osHostname = None,
     kGetClaim = (\<lambda>k w. (Inl (apiErr NotFound), w)), kListClaims = (\<lambda>ns w. (Inr [], w)),
     kUpdateClaim = (\<lambda>c w. (Inr c, w)), kStatusClaim = (\<lambda>c w. (Inr c, w)),
     kCreateClaim = (\<lambda>c w. (None, w)), kDeleteClaim = (\<lambda>c w. (None, w)),
     kGetPool = (\<lambda>k w. (Inr samplePool, w)), kListPools = (\<lambda>ns w. (Inr [samplePool], w)),
     kUpdatePool = (\<lambda>p w. (Inr p, w)), kStatusPool = (\<lambda>p w. (Inr p, w)),
     kGetProviderObj = (\<lambda>k w. (Inr pxProviderObj, w)),
     kGetCP = (\<lambda>k w. (Inl (apiErr NotFound), w)), kListCPs = (\<lambda>ns w. (Inr [], w)), kStatusCP = (\<lambda>c w. (Inr c, w)),
     kGetNode = (\<lambda>n w. (Inl (apiErr NotFound), w)), kListNodes = (\<lambda>w. (Inr [], w)),
     kDeleteNode = (\<lambda>n w. (None, w)), kPatchNode = (\<lambda>n b w. (None, w)),
     csListNodes = (\<lambda>k v w. (Inr [], w)), csListPods = (\<lambda>k v w. (Inr [], w)),
     csGetNode = (\<lambda>n w. (Inl (apiErr NotFound), w)), csUpdateNode = (\<lambda>n w. (Inr n, w)),
     providerFactories = mainFactories samplePxEnv\<rparr>"

lemma wiredEnv_wired: "proxmoxWired samplePxEnv wiredEnv"
  by (simp add: proxmoxWired_def wiredEnv_def)

definition claimOf :: "string \<Rightarrow> string \<Rightarrow> claim" where
  "claimOf n nodeName = (sampleClaim n)\<lparr>cl_status := sampleStatus\<lparr>st_providerID := ''proxmox://'' @ n, st_nodeName := nodeName\<rparr>\<rparr>"

theorem controller_removes_only_named_witness:
  "map (\<lambda>e. case e of PDelete v _ \<Rightarrow> vm_name v | _ \<Rightarrow> [])
     (pxLog (world (snd (finalizeDeprovision wiredEnv (claimOf ''worker-1'' ''worker-1'') (startState px0))))) =
     [[], [], [], ''worker-1'', []] \<and>
   removesOnly ''worker-1'' (startState px0) (snd (finalizeDeprovision wiredEnv (claimOf ''worker-1'' ''worker-1'') (startState px0)))"
proof
  show "map (\<lambda>e. case e of PDelete v _ \<Rightarrow> vm_name v | _ \<Rightarrow> [])
     (pxLog (world (snd (finalizeDeprovision wiredEnv (claimOf ''worker-1'' ''worker-1'') (startState px0))))) =
     [[], [], [], ''worker-1'', []]" by code_simp
  show "removesOnly ''worker-1'' (startState px0) (snd (finalizeDeprovision wiredEnv (claimOf ''worker-1'' ''worker-1'') (startState px0)))"
    using controller_removes_only_named [OF wiredEnv_wired, of "claimOf ''worker-1'' ''worker-1''" "startState px0"]
    by (simp add: claimOf_def)
qed

theorem unregistered_machine_stays_witness:
  "st_providerID (cl_status (claimOf ''worker-1'' [])) \<noteq> [] \<and>
   (\<exists>evs. pxLog (world (snd (timeoutDeprovision wiredEnv (claimOf ''worker-1'' []) (startState px0)))) = evs \<and>
      evs \<noteq> [] \<and> list_all isLookup evs \<and> ''worker-1'' \<in> vm_name ` set (listedVMs evs))"
proof -
  let ?l = "pxLog (world (snd (timeoutDeprovision wiredEnv (claimOf ''worker-1'' []) (startState px0))))"
  have l: "?l = [PVMs ''pve1'' (Inr sampleVMs)]" by code_simp
  have n: "st_nodeName (cl_status (claimOf ''worker-1'' [])) = []" by (simp add: claimOf_def)
  have p: "pxLog (world (startState px0)) = []" by (simp add: startState_def)
  have v: "\<forall>v \<in> set (listedVMs ?l). vm_name v \<noteq> []" by (simp add: l sampleVMs_def sampleVM_def)
  from unregistered_machine_stays [OF wiredEnv_wired n, of "startState px0"] v have "list_all isLookup ?l"
    unfolding p append_Nil by blast
  moreover have "?l \<noteq> []" "''worker-1'' \<in> vm_name ` set (listedVMs ?l)"
    unfolding l by (simp_all add: sampleVMs_def sampleVM_def)
  ultimately show ?thesis by (simp add: claimOf_def)
qed

end
